(* ===== verification/Prelude.thy ===== *)
theory Prelude
  imports Main "HOL-Library.Sublist" "HOL-Library.Word"
begin

text \<open>
  Shared material: C strings as HOL strings (a \<open>char list\<close> without the terminating NUL),
  the \<open>string.h\<close> functions the sources call, bounded printing into a fixed buffer, and
  byte buffers. A pointer into a string is the suffix that starts there; a nullable
  pointer is an option.
\<close>

section \<open>C strings\<close>

named_theorems cstring_simps \<open>unfolding of the C string helpers\<close>

text \<open>\<open>strncmp(s, p, strlen(p)) == 0\<close>.\<close>

abbreviation starts_with :: "string \<Rightarrow> string \<Rightarrow> bool" where
  "starts_with s p \<equiv> prefix p s"

text \<open>\<open>strstr(h, n)\<close>: the suffix of \<open>h\<close> at the first occurrence of \<open>n\<close>.\<close>

fun strstr :: "string \<Rightarrow> string \<Rightarrow> string option" where
  "strstr [] n = (if n = [] then Some [] else None)"
| "strstr (c # h) n = (if prefix n (c # h) then Some (c # h) else strstr h n)"

text \<open>\<open>strchr(s, c)\<close>: the suffix of \<open>s\<close> at the first \<open>c\<close>.\<close>

fun strchr :: "string \<Rightarrow> char \<Rightarrow> string option" where
  "strchr [] c = None"
| "strchr (x # s) c = (if x = c then Some (x # s) else strchr s c)"

text \<open>The part behind the last \<open>c\<close>, that is \<open>strrchr(s, c) + 1\<close>.\<close>

fun after_last :: "char \<Rightarrow> string \<Rightarrow> string option" where
  "after_last c [] = None"
| "after_last c (x # s) =
     (case after_last c s of Some r \<Rightarrow> Some r | None \<Rightarrow> if x = c then Some s else None)"

text \<open>\<open>snprintf\<close> into a buffer of \<open>n\<close> bytes keeps at most \<open>n - 1\<close> of them.\<close>

definition cbuf :: "nat \<Rightarrow> string \<Rightarrow> string" where
  "cbuf n s = take (n - 1) s"

text \<open>The C string a buffer of bytes holds ends at its first NUL.\<close>

definition c_view :: "string \<Rightarrow> string" where
  "c_view b = takeWhile (\<lambda>c. c \<noteq> CHR 0x00) b"

text \<open>A nullable string that is neither NULL nor empty.\<close>

fun nonempty :: "string option \<Rightarrow> bool" where
  "nonempty None = False"
| "nonempty (Some s) = (s \<noteq> [])"

definition isspace :: "char \<Rightarrow> bool" where
  "isspace c = (c \<in> {CHR '' '', CHR 0x09, CHR 0x0A, CHR 0x0B, CHR 0x0C, CHR 0x0D})"

definition isdigit :: "char \<Rightarrow> bool" where
  "isdigit c = (48 \<le> (of_char c :: nat) \<and> (of_char c :: nat) \<le> 57)"

definition isalpha :: "char \<Rightarrow> bool" where
  "isalpha c = (let n = (of_char c :: nat) in 65 \<le> n \<and> n \<le> 90 \<or> 97 \<le> n \<and> n \<le> 122)"

text \<open>Decimal output, \<open>%zu\<close> and \<open>%d\<close>.\<close>

fun show_nat :: "nat \<Rightarrow> string" where
  "show_nat n = (if n < 10 then [char_of (48 + n)] else show_nat (n div 10) @ [char_of (48 + n mod 10)])"

declare show_nat.simps [simp del]

definition show_int :: "int \<Rightarrow> string" where
  "show_int n = (if n < 0 then CHR ''-'' # show_nat (nat (- n)) else show_nat (nat n))"

text \<open>The nearest signed integer of \<open>w\<close> bits; what \<open>strtol\<close> and cJSON do with a value out of range.\<close>

definition saturate :: "nat \<Rightarrow> int \<Rightarrow> int" where
  "saturate w v = max (- (2 ^ (w - 1))) (min (2 ^ (w - 1) - 1) v)"

text \<open>
  \<open>snprintf(buf + pos, sizeof(buf) - (size_t)pos, ...)\<close> on a buffer of \<open>cap\<close> bytes that holds
  \<open>buf\<close>: the size is a 64-bit difference, which wraps when \<open>pos\<close> is behind the end. \<open>None\<close> is
  a write behind the end of the buffer.
\<close>

definition snprintf_at :: "nat \<Rightarrow> nat \<Rightarrow> string \<Rightarrow> string \<Rightarrow> string option" where
  "snprintf_at cap pos buf e =
     (let n = unat (of_nat cap - of_nat pos :: 64 word) in
      if n = 0 then Some buf
      else if pos + min (length e) (n - 1) + 1 > cap then None
      else Some (take pos buf @ take (n - 1) e))"

lemma snprintf_at_inside:
  assumes "pos \<le> cap" "cap < 2 ^ 63" "pos = length buf"
  shows "snprintf_at cap pos buf e = Some (buf @ take (cap - pos - 1) e)"
proof -
  have "unat (of_nat cap - of_nat pos :: 64 word) = cap - pos"
  proof -
    have "(of_nat cap - of_nat pos :: 64 word) = of_nat (cap - pos)"
      using assms(1) by (simp add: of_nat_diff)
    moreover have "cap - pos < 2 ^ 64" using assms(2) by simp
    ultimately show ?thesis by (simp add: unat_of_nat take_bit_nat_eq_self)
  qed
  then have n: "unat (of_nat cap - of_nat pos :: 64 word) = cap - pos" .
  show ?thesis
  proof (cases "cap = pos")
    case True
    then show ?thesis using n assms(3) by (simp add: snprintf_at_def Let_def)
  next
    case False
    then have "\<not> pos + min (length e) (cap - pos - 1) + 1 > cap" "cap - pos \<noteq> 0"
      using assms(1) by linarith+
    then show ?thesis unfolding snprintf_at_def n Let_def using assms(3) by simp
  qed
qed

text \<open>Without a check before it, the same call writes behind the end.\<close>

lemma snprintf_at_behind:
  "snprintf_at 8192 8200 buf (CHR ''x'' # e) = None"
  by (simp add: snprintf_at_def Let_def)

lemma strstr_Some:
  "strstr h n = Some r \<Longrightarrow> \<exists>pre. h = pre @ r \<and> prefix n r"
proof (induction h)
  case Nil
  then show ?case by (auto split: if_splits)
next
  case (Cons c h)
  show ?case
  proof (cases "prefix n (c # h)")
    case True
    with Cons.prems show ?thesis by (intro exI [of _ "[]"]) simp
  next
    case False
    with Cons obtain pre where "h = pre @ r \<and> prefix n r" by auto
    then show ?thesis by (intro exI [of _ "c # pre"]) simp
  qed
qed

lemma strstr_None_iff: "strstr h n = None \<longleftrightarrow> \<not> sublist n h"
  by (induction h) (auto simp: sublist_Cons_right)

lemma strstr_not_None_iff: "(\<exists>r. strstr h n = Some r) \<longleftrightarrow> sublist n h"
  using strstr_None_iff [of h n] by (metis not_None_eq)

lemma strstr_length: "strstr h n = Some r \<Longrightarrow> length r \<le> length h"
  by (auto dest: strstr_Some)

lemma strstr_first:
  "strstr h n = Some r \<Longrightarrow> h = pre @ r \<Longrightarrow> \<not> (\<exists>u v. h = u @ v \<and> length u < length pre \<and> prefix n v)"
proof (induction h arbitrary: pre)
  case Nil
  then show ?case by simp
next
  case (Cons c h)
  show ?case
  proof (cases "prefix n (c # h)")
    case True
    with Cons.prems(1) have "r = c # h" by simp
    with Cons.prems(2) have "pre = []" by (metis append_self_conv2)
    then show ?thesis by simp
  next
    case False
    with Cons.prems(1) have st: "strstr h n = Some r" by simp
    then have "length r \<le> length h" by (rule strstr_length)
    with Cons.prems(2) obtain pre' where pre: "pre = c # pre'" "h = pre' @ r"
      by (cases pre) auto
    have IH: "\<not> (\<exists>u v. h = u @ v \<and> length u < length pre' \<and> prefix n v)"
      using Cons.IH [OF st pre(2)] .
    show ?thesis
    proof
      assume "\<exists>u v. c # h = u @ v \<and> length u < length pre \<and> prefix n v"
      then obtain u v where uv: "c # h = u @ v" "length u < length pre" "prefix n v" by blast
      show False
      proof (cases u)
        case Nil
        with uv False show False by simp
      next
        case (Cons a u')
        with uv pre IH show False by auto
      qed
    qed
  qed
qed

lemma strchr_None_iff: "strchr s c = None \<longleftrightarrow> c \<notin> set s"
  by (induction s) auto

lemma strchr_Some:
  "strchr s c = Some r \<Longrightarrow> \<exists>pre rest. s = pre @ c # rest \<and> r = c # rest \<and> c \<notin> set pre"
proof (induction s)
  case Nil
  then show ?case by simp
next
  case (Cons x s)
  show ?case
  proof (cases "x = c")
    case True
    with Cons.prems show ?thesis by (intro exI [of _ "[]"] exI [of _ s]) simp
  next
    case False
    with Cons obtain pre rest where "s = pre @ c # rest \<and> r = c # rest \<and> c \<notin> set pre" by auto
    with False show ?thesis by (intro exI [of _ "x # pre"] exI [of _ rest]) auto
  qed
qed

lemma after_last_None_iff: "after_last c s = None \<longleftrightarrow> c \<notin> set s"
  by (induction s) (auto split: option.splits)

lemma after_last_Some:
  "after_last c s = Some r \<Longrightarrow> (\<exists>pre. s = pre @ c # r) \<and> c \<notin> set r"
proof (induction s arbitrary: r)
  case Nil
  then show ?case by simp
next
  case (Cons x s)
  show ?case
  proof (cases "after_last c s")
    case None
    with Cons.prems show ?thesis
      by (auto split: if_splits simp: after_last_None_iff)
  next
    case (Some r')
    with Cons.prems have "r' = r" by simp
    with Some Cons.IH obtain pre where "s = pre @ c # r" "c \<notin> set r" by blast
    then show ?thesis by (auto intro: exI [of _ "x # pre"])
  qed
qed

lemma c_view_id: "CHR 0x00 \<notin> set b \<Longrightarrow> c_view b = b"
  unfolding c_view_def by (auto simp: takeWhile_eq_all_conv)

lemma length_cbuf: "0 < n \<Longrightarrow> length (cbuf n s) < n"
  by (simp add: cbuf_def min_def) linarith

lemma cbuf_id: "length s < n \<Longrightarrow> cbuf n s = s"
  by (simp add: cbuf_def)

lemma prefix_cbuf: "prefix (cbuf n s) s"
  by (simp add: cbuf_def take_is_prefix)

section \<open>Byte buffers\<close>

type_synonym u8 = "8 word"
type_synonym u32 = "32 word"

text \<open>\<open>memcpy(buf + off, bs, n)\<close> with \<open>n\<close> the length of \<open>bs\<close>.\<close>

definition write_at :: "u8 list \<Rightarrow> nat \<Rightarrow> u8 list \<Rightarrow> u8 list" where
  "write_at buf off bs = take off buf @ bs @ drop (off + length bs) buf"

lemma length_write_at [simp]:
  "off + length bs \<le> length buf \<Longrightarrow> length (write_at buf off bs) = length buf"
  by (simp add: write_at_def)

lemma nth_write_at:
  assumes "off + length bs \<le> length buf" "i < length buf"
  shows "write_at buf off bs ! i =
    (if i < off then buf ! i else if i < off + length bs then bs ! (i - off) else buf ! i)"
  using assms by (auto simp: write_at_def nth_append min_def)

lemma drop_write_at_below:
  assumes "off + length bs \<le> k" "k \<le> length buf"
  shows "drop k (write_at buf off bs) = drop k buf"
proof -
  from assms have "min off (length buf) = off" by simp
  with assms show ?thesis by (simp add: write_at_def min.commute)
qed

text \<open>The bytes of a C string, and the C string a NUL-terminated buffer holds.\<close>

definition bytes_of :: "string \<Rightarrow> u8 list" where
  "bytes_of s = map of_char s"

definition cstr_of :: "u8 list \<Rightarrow> string" where
  "cstr_of b = map (\<lambda>x. char_of (unat x)) (takeWhile (\<lambda>x. x \<noteq> 0) b)"

text \<open>A HOL string is a C string when no character of it is NUL.\<close>

definition no_nul :: "string \<Rightarrow> bool" where
  "no_nul s = (CHR 0x00 \<notin> set s)"

lemma of_char_less_256 [simp]: "(of_char c :: nat) < 256"
  by (metis of_char_mod_256 mod_less_divisor zero_less_numeral)

lemma unat_of_char [simp]: "unat (of_char c :: u8) = (of_char c :: nat)"
proof -
  have "unat (of_char c :: u8) = unat (of_nat (of_char c) :: u8)"
    by (simp add: of_nat_of_char)
  also have "\<dots> = of_char c"
    by (simp add: unat_of_nat)
  finally show ?thesis .
qed

end
