(* ===== verification/Tool_Wire.thy ===== *)
theory Tool_Wire
  imports Prelude
begin

text \<open>
  The wire contract of the tool classifier (\<open>include/aimee/tools/module_api.h\<close>) and the
  module handler that answers it (\<open>module_adapter.c\<close>): a fixed 104-byte request carrying a
  tool name, an 8-byte response carrying a class, and the handler between them. A
  \<open>(pointer, length)\<close> pair is a byte list; a pointer that may be NULL is an option.
\<close>

unbundle bit_operations_syntax

section \<open>Constants and words\<close>

definition AIMEE_TOOLS_STAGE_DISPATCH :: u32 where "AIMEE_TOOLS_STAGE_DISPATCH = 1"
definition AIMEE_TOOLS_REQUEST_MAGIC :: u32 where "AIMEE_TOOLS_REQUEST_MAGIC = 0x53494454"
definition AIMEE_TOOLS_RESPONSE_MAGIC :: u32 where "AIMEE_TOOLS_RESPONSE_MAGIC = 0x534c4354"
definition AIMEE_TOOLS_WIRE_VERSION :: u8 where "AIMEE_TOOLS_WIRE_VERSION = 1"
definition AIMEE_TOOLS_NAME_MAX :: nat where "AIMEE_TOOLS_NAME_MAX = 95"
definition AIMEE_TOOLS_REQUEST_LEN :: nat where "AIMEE_TOOLS_REQUEST_LEN = 104"
definition AIMEE_TOOLS_RESPONSE_LEN :: nat where "AIMEE_TOOLS_RESPONSE_LEN = 8"

lemmas wire_consts = AIMEE_TOOLS_STAGE_DISPATCH_def AIMEE_TOOLS_REQUEST_MAGIC_def
  AIMEE_TOOLS_RESPONSE_MAGIC_def AIMEE_TOOLS_WIRE_VERSION_def AIMEE_TOOLS_NAME_MAX_def
  AIMEE_TOOLS_REQUEST_LEN_def AIMEE_TOOLS_RESPONSE_LEN_def

datatype tool_class = UNKNOWN | READ | WRITE | EXEC | CONTROL | REMOTE

fun class_code :: "tool_class \<Rightarrow> u32" where
  "class_code UNKNOWN = 0" | "class_code READ = 1" | "class_code WRITE = 2"
| "class_code EXEC = 3" | "class_code CONTROL = 4" | "class_code REMOTE = 5"

text \<open>The cast \<open>(aimee_tool_class_t)value\<close>, for the values the decoder lets through.\<close>

definition class_of_code :: "u32 \<Rightarrow> tool_class" where
  "class_of_code v = (if v = 0 then UNKNOWN else if v = 1 then READ else if v = 2 then WRITE
     else if v = 3 then EXEC else if v = 4 then CONTROL else REMOTE)"

definition aimee_tools_put_u32 :: "u8 list \<Rightarrow> nat \<Rightarrow> u32 \<Rightarrow> u8 list" where
  "aimee_tools_put_u32 p off v =
     write_at p off (map (\<lambda>i. ucast (drop_bit (8 * i) v)) [0..<4])"

definition aimee_tools_get_u32 :: "u8 list \<Rightarrow> u32" where
  "aimee_tools_get_u32 p = fold (\<lambda>i v. v OR push_bit (8 * i) (ucast (p ! i))) [0..<4] 0"

section \<open>Requests and responses\<close>

text \<open>
  Encoding writes into the caller's buffer; \<open>None\<close> is the result -1, which leaves the buffer
  alone.
\<close>

definition aimee_tools_request_encode :: "string option \<Rightarrow> u8 list option \<Rightarrow> u8 list option" where
  "aimee_tools_request_encode name out =
     (let len = (case name of Some n \<Rightarrow> length n | None \<Rightarrow> 0) in
      case out of
        None \<Rightarrow> None
      | Some buf \<Rightarrow>
          if length buf < AIMEE_TOOLS_REQUEST_LEN \<or> len = 0 \<or> len > AIMEE_TOOLS_NAME_MAX
          then None
          else
            let b0 = write_at buf 0 (replicate AIMEE_TOOLS_REQUEST_LEN 0);
                b1 = aimee_tools_put_u32 b0 0 AIMEE_TOOLS_REQUEST_MAGIC;
                b2 = b1[4 := AIMEE_TOOLS_WIRE_VERSION];
                b3 = b2[6 := of_nat len]
            in Some (write_at b3 8 (bytes_of (the name))))"

text \<open>
  Decoding checks the header and copies the name, NUL-terminated, to a buffer of \<open>cap\<close>
  bytes. The value is what was written to \<open>name\<close>.
\<close>

definition aimee_tools_request_decode :: "u8 list option \<Rightarrow> nat option \<Rightarrow> u8 list option" where
  "aimee_tools_request_decode inp name_cap =
     (case (inp, name_cap) of
        (Some b, Some cap) \<Rightarrow>
          if length b \<noteq> AIMEE_TOOLS_REQUEST_LEN \<or> cap = 0
             \<or> aimee_tools_get_u32 b \<noteq> AIMEE_TOOLS_REQUEST_MAGIC
             \<or> b ! 4 \<noteq> AIMEE_TOOLS_WIRE_VERSION \<or> b ! 5 \<noteq> 0 \<or> b ! 7 \<noteq> 0 \<or> b ! 6 = 0
             \<or> unat (b ! 6) > AIMEE_TOOLS_NAME_MAX \<or> unat (b ! 6) \<ge> cap
          then None
          else Some (take (unat (b ! 6)) (drop 8 b) @ [0])
      | _ \<Rightarrow> None)"

definition aimee_tools_response_decode :: "u8 list option \<Rightarrow> tool_class option" where
  "aimee_tools_response_decode inp =
     (case inp of
        None \<Rightarrow> None
      | Some b \<Rightarrow>
          if length b \<noteq> AIMEE_TOOLS_RESPONSE_LEN
             \<or> aimee_tools_get_u32 b \<noteq> AIMEE_TOOLS_RESPONSE_MAGIC then None
          else let v = aimee_tools_get_u32 (drop 4 b) in
            if v > class_code REMOTE then None else Some (class_of_code v))"

section \<open>The classifier and the module handler\<close>

definition one_of :: "string \<Rightarrow> string list \<Rightarrow> bool" where
  "one_of name vals = list_ex (\<lambda>v. name = v) vals"

definition exec_names :: "string list" where
  "exec_names = [''bash'', ''execute_script'', ''test'', ''run_tests'']"

definition write_names :: "string list" where
  "write_names = [''write_file'', ''edit_file'', ''edit_symbol'', ''create_note'',
     ''rules_propose'', ''learning_propose'', ''git_commit'', ''git_push'', ''git_branch'',
     ''git_pr'']"

definition control_names :: "string list" where
  "control_names = [''request_input'', ''clarify_start'', ''clarify_answer'',
     ''diagnose_start'', ''diagnose_observe'', ''diagnose_hypothesize'', ''diagnose_evidence'']"

definition read_names :: "string list" where
  "read_names = [''read_file'', ''list_files'', ''grep'', ''code_search'', ''find_symbol'',
     ''read_symbol'', ''search_memory'', ''search_docs'', ''web_search'', ''web_read'',
     ''list_notes'', ''search_notes'', ''git_log'', ''git_diff'', ''git_status'']"

lemmas class_names = exec_names_def write_names_def control_names_def read_names_def

definition classify :: "string \<Rightarrow> tool_class" where
  "classify name =
     (if strchr name CHR '':'' \<noteq> None then REMOTE
      else if one_of name exec_names then EXEC
      else if one_of name write_names then WRITE
      else if one_of name control_names then CONTROL
      else if one_of name read_names then READ
      else UNKNOWN)"

datatype module_status = STATUS_OK | STATUS_INVALID_REQUEST | STATUS_CANCELLED

text \<open>
  The event bus hands the handler an invocation; of it the handler reads the stage and
  whether it was cancelled.
\<close>

record invocation =
  stage_id :: u32
  cancelled :: bool

text \<open>
  The result is the status, the response buffer and the value stored through
  \<open>response_len\<close> (\<open>None\<close> when nothing is stored).
\<close>

definition aimee_module_handler ::
  "invocation option \<Rightarrow> u8 list option \<Rightarrow> u8 list \<Rightarrow> bool \<Rightarrow> module_status \<times> u8 list \<times> nat option" where
  "aimee_module_handler invoc request response has_len =
     (case invoc of
        None \<Rightarrow> (STATUS_INVALID_REQUEST, response, None)
      | Some i \<Rightarrow>
          if \<not> has_len \<or> stage_id i \<noteq> AIMEE_TOOLS_STAGE_DISPATCH
             \<or> length response < AIMEE_TOOLS_RESPONSE_LEN
          then (STATUS_INVALID_REQUEST, response, None)
          else (case aimee_tools_request_decode request (Some (AIMEE_TOOLS_NAME_MAX + 1)) of
              None \<Rightarrow> (STATUS_INVALID_REQUEST, response, None)
            | Some name \<Rightarrow>
                if cancelled i then (STATUS_CANCELLED, response, None)
                else (STATUS_OK,
                  aimee_tools_put_u32
                    (aimee_tools_put_u32 response 0 AIMEE_TOOLS_RESPONSE_MAGIC) 4
                    (class_code (classify (cstr_of name))),
                  Some AIMEE_TOOLS_RESPONSE_LEN)))"

section \<open>Lemmas\<close>

lemma upt_4: "[0..<4] = [0, 1, 2, 3::nat]"
  by (simp add: upt_rec)

lemma length_put_u32 [simp]:
  "off + 4 \<le> length p \<Longrightarrow> length (aimee_tools_put_u32 p off v) = length p"
  by (simp add: aimee_tools_put_u32_def upt_4)

lemma word32_bytes:
  "(ucast (ucast v :: u8) :: u32) OR push_bit 8 (ucast (ucast (drop_bit 8 v) :: u8))
     OR push_bit 16 (ucast (ucast (drop_bit 16 v) :: u8))
     OR push_bit 24 (ucast (ucast (drop_bit 24 v) :: u8)) = (v :: u32)"
proof (rule bit_word_eqI)
  fix n assume n: "n < LENGTH(32)"
  consider "n < 8" | "8 \<le> n" "n < 16" | "16 \<le> n" "n < 24" | "24 \<le> n" "n < 32"
    using n by fastforce
  then show "bit ((ucast (ucast v :: u8) :: u32) OR push_bit 8 (ucast (ucast (drop_bit 8 v) :: u8))
     OR push_bit 16 (ucast (ucast (drop_bit 16 v) :: u8))
     OR push_bit 24 (ucast (ucast (drop_bit 24 v) :: u8))) n = bit v n"
    by cases (auto simp: bit_simps)
qed

lemma get_u32_nth:
  "aimee_tools_get_u32 p =
     ucast (p ! 0) OR push_bit 8 (ucast (p ! 1)) OR push_bit 16 (ucast (p ! 2))
       OR push_bit 24 (ucast (p ! 3))"
  by (simp add: aimee_tools_get_u32_def upt_4 or.assoc)

lemma put_u32_nth:
  assumes "off + 4 \<le> length p" "i < length p"
  shows "aimee_tools_put_u32 p off v ! i =
    (if off \<le> i \<and> i < off + 4 then ucast (drop_bit (8 * (i - off)) v) else p ! i)"
  using assms by (auto simp: aimee_tools_put_u32_def nth_write_at upt_4 nth_Cons'
      numeral_eq_Suc less_Suc_eq diff_Suc split: nat.splits)

lemma get_put_u32:
  assumes "off + 4 \<le> length p"
  shows "aimee_tools_get_u32 (drop off (aimee_tools_put_u32 p off v)) = v"
  using assms word32_bytes [of v] by (simp add: get_u32_nth put_u32_nth)

lemma get_put_u32_0:
  "4 \<le> length p \<Longrightarrow> aimee_tools_get_u32 (aimee_tools_put_u32 p 0 v) = v"
  using get_put_u32 [of 0 p v] by simp

lemma drop_put_u32:
  "off + 4 \<le> k \<Longrightarrow> k \<le> length p \<Longrightarrow> drop k (aimee_tools_put_u32 p off v) = drop k p"
  unfolding aimee_tools_put_u32_def by (rule drop_write_at_below) simp_all

lemma get_u32_cong:
  "(\<And>i. i < 4 \<Longrightarrow> p ! i = q ! i) \<Longrightarrow> aimee_tools_get_u32 p = aimee_tools_get_u32 q"
  by (simp add: get_u32_nth)

lemma one_of_iff: "one_of name vals \<longleftrightarrow> name \<in> set vals"
  by (auto simp: one_of_def list_ex_iff)

lemma class_code_inverse [simp]: "class_of_code (class_code c) = c"
  by (cases c) (simp_all add: class_of_code_def)

lemma class_code_bound: "\<not> class_code c > class_code REMOTE"
  by (cases c) simp_all

lemma bytes_of_no_nul:
  assumes "no_nul s" shows "0 \<notin> set (bytes_of s)"
proof
  assume "0 \<in> set (bytes_of s)"
  then obtain c where c: "c \<in> set s" "(of_char c :: u8) = 0"
    by (auto simp: bytes_of_def)
  then have "(of_char c :: nat) = of_char CHR 0x00"
    using unat_of_char [of c] by (simp del: unat_of_char)
  then have "c = CHR 0x00" by (rule of_char_eqI)
  with c assms show False by (simp add: no_nul_def)
qed

lemma cstr_of_bytes_of: "no_nul s \<Longrightarrow> cstr_of (bytes_of s @ 0 # rest) = s"
proof -
  assume "no_nul s"
  then have "takeWhile (\<lambda>x. x \<noteq> 0) (bytes_of s @ 0 # rest) = bytes_of s"
    using bytes_of_no_nul [of s] by (subst takeWhile_append2) auto
  then show ?thesis
    by (simp add: cstr_of_def bytes_of_def comp_def)
qed

text \<open>What an encoded request holds at each offset the decoder reads.\<close>

lemma encode_Some_conv:
  "aimee_tools_request_encode (Some n) (Some buf) \<noteq> None \<longleftrightarrow>
     104 \<le> length buf \<and> n \<noteq> [] \<and> length n \<le> 95"
  by (auto simp: aimee_tools_request_encode_def wire_consts Let_def)

lemma encode_layout:
  assumes "aimee_tools_request_encode (Some n) (Some buf) = Some b"
  shows "length b = length buf" "aimee_tools_get_u32 b = AIMEE_TOOLS_REQUEST_MAGIC"
    "b ! 4 = 1" "b ! 5 = 0" "b ! 6 = of_nat (length n)" "b ! 7 = 0"
    "take (length n) (drop 8 b) = bytes_of n"
proof -
  have len: "104 \<le> length buf" "length n \<le> 95"
    using assms encode_Some_conv [of n buf] by auto
  let ?z = "write_at buf 0 (replicate 104 0)"
  let ?m = "aimee_tools_put_u32 ?z 0 AIMEE_TOOLS_REQUEST_MAGIC"
  let ?h = "?m[4 := AIMEE_TOOLS_WIRE_VERSION, 6 := of_nat (length n)]"
  have b: "b = write_at ?h 8 (bytes_of n)"
    using assms by (auto simp: aimee_tools_request_encode_def wire_consts Let_def split: if_splits)
  have l0: "length ?z = length buf" "length ?m = length buf" "length ?h = length buf"
    using len by simp_all
  have fit: "8 + length (bytes_of n) \<le> length ?h"
    using len l0 by (simp add: bytes_of_def)
  have low: "b ! i = ?h ! i" if "i < 8" for i
    using that fit l0 len by (simp add: b nth_write_at)
  show "length b = length buf" using fit l0 by (simp add: b)
  have z: "?z ! i = 0" if "i < 8" for i
    using that len by (simp add: nth_write_at)
  have h: "?h ! i = ?m ! i" if "i \<noteq> 4" "i \<noteq> 6" for i
    using that by simp
  show "b ! 4 = 1" "b ! 6 = of_nat (length n)"
    using low [of 4] low [of 6] l0 len by (simp_all add: wire_consts)
  show "b ! 5 = 0" "b ! 7 = 0"
    using low [of 5] low [of 7] h [of 5] h [of 7] z [of 5] z [of 7] l0 len
    by (simp_all add: put_u32_nth)
  have "aimee_tools_get_u32 b = aimee_tools_get_u32 ?m"
    by (rule get_u32_cong) (simp add: low h)
  also have "\<dots> = AIMEE_TOOLS_REQUEST_MAGIC"
    using len by (intro get_put_u32_0) simp
  finally show "aimee_tools_get_u32 b = AIMEE_TOOLS_REQUEST_MAGIC" .
  show "take (length n) (drop 8 b) = bytes_of n"
    using fit l0 by (simp add: b write_at_def bytes_of_def)
qed

lemma decode_Some_conv:
  "aimee_tools_request_decode (Some b) (Some cap) = Some out \<longleftrightarrow>
     length b = 104 \<and> aimee_tools_get_u32 b = AIMEE_TOOLS_REQUEST_MAGIC \<and> b ! 4 = 1
     \<and> b ! 5 = 0 \<and> b ! 7 = 0 \<and> b ! 6 \<noteq> 0 \<and> unat (b ! 6) \<le> 95 \<and> unat (b ! 6) < cap
     \<and> out = take (unat (b ! 6)) (drop 8 b) @ [0]"
  by (auto simp: aimee_tools_request_decode_def wire_consts)

section \<open>The codec contract\<close>

text \<open>
  What a client of a codec relies on: encoding succeeds exactly on the valid values and
  decoding recovers the value.
\<close>

locale codec =
  fixes enc :: "'a \<Rightarrow> u8 list option"
    and dec :: "u8 list \<Rightarrow> 'a option"
    and valid :: "'a \<Rightarrow> bool"
  assumes enc_dec: "valid a \<Longrightarrow> \<exists>b. enc a = Some b \<and> dec b = Some a"
    and enc_valid: "enc a = Some b \<Longrightarrow> valid a"
begin

lemma enc_defined_iff: "(\<exists>b. enc a = Some b) \<longleftrightarrow> valid a"
  using enc_dec enc_valid by blast

lemma enc_inj: "enc a = Some b \<Longrightarrow> enc a' = Some b \<Longrightarrow> a = a'"
  using enc_dec enc_valid by (metis option.inject)

lemma dec_enc: "enc a = Some b \<Longrightarrow> dec b = Some a"
  using enc_dec enc_valid by (metis option.inject)

end

definition request_valid :: "string \<Rightarrow> bool" where
  "request_valid n \<longleftrightarrow> n \<noteq> [] \<and> length n \<le> AIMEE_TOOLS_NAME_MAX"

lemma request_encode_decode:
  assumes "n \<noteq> []" "length n \<le> 95" "length buf = 104" "length n < cap"
  shows "\<exists>b. aimee_tools_request_encode (Some n) (Some buf) = Some b \<and> length b = 104
    \<and> aimee_tools_request_decode (Some b) (Some cap) = Some (bytes_of n @ [0])"
proof -
  obtain b where b: "aimee_tools_request_encode (Some n) (Some buf) = Some b"
    using assms encode_Some_conv [of n buf] by auto
  note L = encode_layout [OF b]
  have u: "unat (b ! 6) = length n"
    using assms L(5) by (simp add: unat_of_nat)
  moreover have "b ! 6 \<noteq> 0"
    using u assms by (metis length_0_conv unat_0)
  ultimately have "aimee_tools_request_decode (Some b) (Some cap) = Some (bytes_of n @ [0])"
    using assms L by (simp add: decode_Some_conv)
  with b L(1) assms show ?thesis by auto
qed

interpretation request: codec
  "\<lambda>n. aimee_tools_request_encode (Some n) (Some (replicate 104 0))"
  "\<lambda>b. map_option (\<lambda>out. map (\<lambda>x. char_of (unat x)) (butlast out))
         (aimee_tools_request_decode (Some b) (Some (AIMEE_TOOLS_NAME_MAX + 1)))"
  request_valid
proof
  fix n assume "request_valid n"
  then show "\<exists>b. aimee_tools_request_encode (Some n) (Some (replicate 104 0)) = Some b \<and>
      map_option (\<lambda>out. map (\<lambda>x. char_of (unat x)) (butlast out))
        (aimee_tools_request_decode (Some b) (Some (AIMEE_TOOLS_NAME_MAX + 1))) = Some n"
    using request_encode_decode [of n "replicate 104 0" 96]
    by (auto simp: request_valid_def wire_consts bytes_of_def comp_def)
next
  fix n b assume "aimee_tools_request_encode (Some n) (Some (replicate 104 0)) = Some b"
  then show "request_valid n"
    using encode_Some_conv [of n "replicate 104 0"] by (auto simp: request_valid_def wire_consts)
qed

definition response_bytes :: "u8 list \<Rightarrow> tool_class \<Rightarrow> u8 list" where
  "response_bytes buf c = aimee_tools_put_u32
     (aimee_tools_put_u32 buf 0 AIMEE_TOOLS_RESPONSE_MAGIC) 4 (class_code c)"

lemma response_layout:
  assumes "8 \<le> length buf"
  shows "length (response_bytes buf c) = length buf"
    "drop 8 (response_bytes buf c) = drop 8 buf"
    "aimee_tools_response_decode (Some (take 8 (response_bytes buf c))) = Some c"
proof -
  let ?q = "aimee_tools_put_u32 buf 0 AIMEE_TOOLS_RESPONSE_MAGIC"
  let ?r = "response_bytes buf c"
  show len: "length ?r = length buf"
    using assms by (simp add: response_bytes_def)
  show "drop 8 ?r = drop 8 buf"
    using assms by (simp add: response_bytes_def drop_put_u32)
  have nth: "?r ! i = ?q ! i" if "i < 4" for i
    using that assms by (simp add: response_bytes_def put_u32_nth)
  have t: "take 8 ?r ! i = ?q ! i" if "i < 4" for i
    using nth [OF that] that by simp
  have m0: "aimee_tools_get_u32 ?q = AIMEE_TOOLS_RESPONSE_MAGIC"
    by (rule get_put_u32_0) (use assms in linarith)
  have m: "aimee_tools_get_u32 (take 8 ?r) = AIMEE_TOOLS_RESPONSE_MAGIC"
    by (rule trans [OF get_u32_cong m0]) (rule t)
  have "aimee_tools_get_u32 (drop 4 (take 8 ?r)) = aimee_tools_get_u32 (drop 4 ?r)"
    using assms len by (intro get_u32_cong) simp
  also have "\<dots> = class_code c"
    using assms by (simp add: response_bytes_def get_put_u32)
  finally show "aimee_tools_response_decode (Some (take 8 ?r)) = Some c"
    using m assms len class_code_bound [of c]
    by (simp add: aimee_tools_response_decode_def wire_consts Let_def del: class_code.simps)
qed

interpretation response: codec
  "\<lambda>c. Some (response_bytes (replicate 8 0) c)"
  "\<lambda>b. aimee_tools_response_decode (Some b)"
  "\<lambda>_. True"
proof
  fix c
  show "\<exists>b. Some (response_bytes (replicate 8 0) c) = Some b \<and>
      aimee_tools_response_decode (Some b) = Some c"
    using response_layout [of "replicate 8 0" c] by simp
qed simp

lemma handler_cases:
  "aimee_module_handler invoc req resp has_len =
    (case invoc of
       Some i \<Rightarrow>
         (case aimee_tools_request_decode req (Some 96) of
            Some name \<Rightarrow>
              if has_len \<and> stage_id i = 1 \<and> 8 \<le> length resp then
                (if cancelled i then (STATUS_CANCELLED, resp, None)
                 else (STATUS_OK, response_bytes resp (classify (cstr_of name)), Some 8))
              else (STATUS_INVALID_REQUEST, resp, None)
          | None \<Rightarrow> (STATUS_INVALID_REQUEST, resp, None))
     | None \<Rightarrow> (STATUS_INVALID_REQUEST, resp, None))"
  by (auto simp: aimee_module_handler_def response_bytes_def wire_consts split: option.splits)

section \<open>Properties\<close>

text \<open>C21. Every tool name of 1 to 95 bytes without NUL survives the wire: encoding it into any
  104-byte buffer succeeds, the message has the fixed length, and decoding it into a buffer
  with room for the name and its terminator gives back the same C string.\<close>

theorem request_roundtrip:
  assumes "no_nul n" "n \<noteq> []" "length n \<le> 95" "length buf = 104" "length n < cap"
  shows "\<exists>b. aimee_tools_request_encode (Some n) (Some buf) = Some b \<and> length b = 104
    \<and> map_option cstr_of (aimee_tools_request_decode (Some b) (Some cap)) = Some n"
  using request_encode_decode [OF assms(2-5)] cstr_of_bytes_of [OF assms(1), of "[]"] by auto

theorem request_roundtrip_witness:
  "\<exists>b. aimee_tools_request_encode (Some ''bash'') (Some (replicate 104 7)) = Some b \<and> length b = 104
    \<and> map_option cstr_of (aimee_tools_request_decode (Some b) (Some 5)) = Some ''bash''"
  by (rule request_roundtrip) (simp_all add: no_nul_def)

text \<open>C22. The decoder never reads outside the request nor writes outside the caller's buffer:
  whatever bytes arrive, an accepted request has the fixed length, the name is read within
  it, and what is stored, terminator included, fits into \<open>cap\<close> and into 96 bytes.\<close>

theorem request_decode_bounds:
  assumes "aimee_tools_request_decode inp (Some cap) = Some out"
  shows "\<exists>b. inp = Some b \<and> length b = 104 \<and> 8 + (length out - 1) \<le> length b
    \<and> 2 \<le> length out \<and> length out \<le> cap \<and> length out \<le> 96 \<and> last out = 0
    \<and> butlast out = take (length out - 1) (drop 8 b)"
proof -
  obtain b where b: "inp = Some b"
    using assms by (auto simp: aimee_tools_request_decode_def split: option.splits)
  with assms have d: "length b = 104" "unat (b ! 6) \<le> 95" "unat (b ! 6) < cap" "b ! 6 \<noteq> 0"
    "out = take (unat (b ! 6)) (drop 8 b) @ [0]"
    by (simp_all add: decode_Some_conv)
  then have "length out = unat (b ! 6) + 1" by simp
  moreover have "0 < unat (b ! 6)" using d(4) by (simp add: unat_gt_0)
  ultimately show ?thesis using b d by simp
qed

theorem request_decode_bounds_witness:
  "\<exists>b. aimee_tools_request_encode (Some ''ls'') (Some (replicate 104 0)) = Some b
    \<and> (\<exists>out. aimee_tools_request_decode (Some b) (Some 3) = Some out \<and> length out \<le> 3)"
proof -
  obtain b where b: "aimee_tools_request_encode (Some ''ls'') (Some (replicate 104 0)) = Some b"
      "aimee_tools_request_decode (Some b) (Some 3) = Some (bytes_of ''ls'' @ [0])"
    using request_encode_decode [of "''ls''" "replicate 104 0" 3] by auto
  show ?thesis using b request_decode_bounds [OF b(2)] by blast
qed

text \<open>C23. End to end: a live, uncancelled dispatch invocation carrying the encoding of a tool
  name is answered with OK and an 8-byte response that decodes to exactly the class the name
  table gives; the response buffer beyond those bytes is untouched.\<close>

theorem handler_answers_classification:
  assumes "no_nul n" "n \<noteq> []" "length n \<le> 95" "length buf = 104" "8 \<le> length resp"
    and "aimee_tools_request_encode (Some n) (Some buf) = Some b"
  shows "\<exists>r. aimee_module_handler (Some \<lparr>stage_id = 1, cancelled = False\<rparr>) (Some b) resp True
       = (STATUS_OK, r, Some 8)
    \<and> aimee_tools_response_decode (Some (take 8 r)) = Some (classify n)
    \<and> drop 8 r = drop 8 resp \<and> length r = length resp"
proof -
  have "aimee_tools_request_decode (Some b) (Some 96) = Some (bytes_of n @ [0])"
    using request_encode_decode [of n buf 96] assms by auto
  then show ?thesis
    using assms response_layout [OF assms(5)] by (simp add: handler_cases cstr_of_bytes_of)
qed

theorem handler_answers_classification_witness:
  "\<exists>b r. aimee_tools_request_encode (Some ''git_push'') (Some (replicate 104 0)) = Some b
    \<and> aimee_module_handler (Some \<lparr>stage_id = 1, cancelled = False\<rparr>) (Some b) (replicate 9 5) True
      = (STATUS_OK, r, Some 8)
    \<and> aimee_tools_response_decode (Some (take 8 r)) = Some WRITE"
proof -
  obtain b where b: "aimee_tools_request_encode (Some ''git_push'') (Some (replicate 104 0)) = Some b"
    using request_encode_decode [of "''git_push''" "replicate 104 0" 9] by auto
  have "classify ''git_push'' = WRITE"
    by (simp add: classify_def one_of_def class_names)
  then show ?thesis
    using b handler_answers_classification [OF _ _ _ _ _ b, of "replicate 9 5"]
    by (auto simp: no_nul_def)
qed

text \<open>C25. The handler fails closed: unless it answers OK nothing is written to the response
  and no length is stored; a request is only ever reported cancelled when it was well formed;
  and OK is answered exactly for a well-formed request of the dispatch stage that fits and
  was not cancelled.\<close>

theorem handler_fails_closed:
  "case aimee_module_handler invoc req resp has_len of (st, r, n) \<Rightarrow>
     (st \<noteq> STATUS_OK \<longrightarrow> r = resp \<and> n = None)
   \<and> (st = STATUS_CANCELLED \<longrightarrow> aimee_tools_request_decode req (Some 96) \<noteq> None)
   \<and> (st = STATUS_OK \<longleftrightarrow> has_len \<and> 8 \<le> length resp
        \<and> aimee_tools_request_decode req (Some 96) \<noteq> None
        \<and> (\<exists>i. invoc = Some i \<and> stage_id i = 1 \<and> \<not> cancelled i))"
  by (auto simp: handler_cases split: option.splits prod.splits if_splits)

theorem handler_fails_closed_witness:
  "fst (aimee_module_handler (Some \<lparr>stage_id = 2, cancelled = False\<rparr>) None [] True)
     = STATUS_INVALID_REQUEST"
  using handler_fails_closed [where invoc = "Some \<lparr>stage_id = 2, cancelled = False\<rparr>"
      and req = None and resp = "[]" and has_len = True]
  by (simp add: handler_cases aimee_tools_request_decode_def)

text \<open>C26. Classification is a partition: the four name tables are disjoint, so the order in
  which the code tries them decides nothing; a name with a colon is REMOTE and no other name
  is; and each of the other classes is exactly its table, UNKNOWN the rest.\<close>

theorem classify_partition:
  "(classify n = REMOTE \<longleftrightarrow> CHR '':'' \<in> set n)
   \<and> (classify n = EXEC \<longleftrightarrow> n \<in> set exec_names)
   \<and> (classify n = WRITE \<longleftrightarrow> n \<in> set write_names)
   \<and> (classify n = CONTROL \<longleftrightarrow> n \<in> set control_names)
   \<and> (classify n = READ \<longleftrightarrow> n \<in> set read_names)
   \<and> (classify n = UNKNOWN \<longleftrightarrow> CHR '':'' \<notin> set n
        \<and> n \<notin> set (exec_names @ write_names @ control_names @ read_names))"
proof -
  have colon: "(strchr n CHR '':'' \<noteq> None) = (CHR '':'' \<in> set n)"
    by (simp add: strchr_None_iff)
  have plain: "n \<in> set (exec_names @ write_names @ control_names @ read_names)
      \<Longrightarrow> CHR '':'' \<notin> set n"
    by (auto simp: class_names)
  have disj: "n \<in> set exec_names \<Longrightarrow> n \<notin> set write_names \<and> n \<notin> set control_names \<and> n \<notin> set read_names"
    "n \<in> set write_names \<Longrightarrow> n \<notin> set control_names \<and> n \<notin> set read_names"
    "n \<in> set control_names \<Longrightarrow> n \<notin> set read_names"
    by (auto simp: class_names)
  show ?thesis
    using plain disj unfolding classify_def one_of_iff colon by auto
qed

end
