(* ===== verification/Go_Handler.thy ===== *)
theory Go_Handler
  imports Tool_Wire
begin

text \<open>
  The handler of the production process, \<open>server-go/modules/tools/tools.go\<close>, over the same
  invocations and bytes as \<open>module_adapter.c\<close>. A Go string is its bytes, NUL among them; the
  little-endian reads and writes are those of \<open>encoding/binary\<close>.
\<close>

section \<open>The handler\<close>

definition le_uint32 :: "u8 list \<Rightarrow> u32" where
  "le_uint32 b = ucast (b ! 0) OR push_bit 8 (ucast (b ! 1)) OR push_bit 16 (ucast (b ! 2))
     OR push_bit 24 (ucast (b ! 3))"

definition le_put_uint32 :: "u32 \<Rightarrow> u8 list" where
  "le_put_uint32 v = [ucast v, ucast (drop_bit 8 v), ucast (drop_bit 16 v), ucast (drop_bit 24 v)]"

definition go_exec_names :: "string set" where
  "go_exec_names = {''bash'', ''execute_script'', ''test'', ''run_tests''}"

definition go_write_names :: "string set" where
  "go_write_names = {''write_file'', ''edit_file'', ''edit_symbol'', ''create_note'',
     ''rules_propose'', ''learning_propose'', ''git_commit'', ''git_push'', ''git_branch'', ''git_pr''}"

definition go_control_names :: "string set" where
  "go_control_names = {''request_input'', ''clarify_start'', ''clarify_answer'', ''diagnose_start'',
     ''diagnose_observe'', ''diagnose_hypothesize'', ''diagnose_evidence''}"

definition go_read_names :: "string set" where
  "go_read_names = {''read_file'', ''list_files'', ''grep'', ''code_search'', ''find_symbol'',
     ''read_symbol'', ''search_memory'', ''search_docs'', ''web_search'', ''web_read'',
     ''list_notes'', ''search_notes'', ''git_log'', ''git_diff'', ''git_status''}"

definition go_classify :: "string \<Rightarrow> u32" where
  "go_classify name =
     (if CHR '':'' \<in> set name then 5
      else if name \<in> go_exec_names then 3
      else if name \<in> go_write_names then 2
      else if name \<in> go_control_names then 4
      else if name \<in> go_read_names then 1
      else 0)"

definition go_handle :: "invocation \<Rightarrow> u8 list \<Rightarrow> u8 list option \<times> module_status" where
  "go_handle i request =
     (if stage_id i \<noteq> 1 \<or> length request \<noteq> 104 \<or> le_uint32 (take 4 request) \<noteq> 0x53494454
         \<or> request ! 4 \<noteq> 1 \<or> request ! 5 \<noteq> 0 \<or> request ! 7 \<noteq> 0 \<or> request ! 6 = 0 \<or> request ! 6 > 95
      then (None, STATUS_INVALID_REQUEST)
      else if cancelled i then (None, STATUS_CANCELLED)
      else
        let name = map (\<lambda>b. char_of (unat b)) (take (unat (request ! 6)) (drop 8 request)) in
        (Some (le_put_uint32 0x534c4354 @ le_put_uint32 (go_classify name)), STATUS_OK))"

section \<open>Parity\<close>

lemma go_classify_code: "go_classify n = class_code (classify n)"
  by (simp add: go_classify_def classify_def one_of_iff strchr_None_iff class_names
      go_exec_names_def go_write_names_def go_control_names_def go_read_names_def)

lemma response_bytes_go:
  assumes "8 \<le> length buf"
  shows "take 8 (response_bytes buf c) = le_put_uint32 0x534c4354 @ le_put_uint32 (class_code c)"
proof (rule nth_equalityI)
  show "length (take 8 (response_bytes buf c)) = length (le_put_uint32 0x534c4354 @ le_put_uint32 (class_code c))"
    using assms response_layout(1) [OF assms, of c] by (simp add: le_put_uint32_def)
  fix i assume "i < length (take 8 (response_bytes buf c))"
  then have "i < 8" by simp
  then have "i = 0 \<or> i = 1 \<or> i = 2 \<or> i = 3 \<or> i = 4 \<or> i = 5 \<or> i = 6 \<or> i = 7" by linarith
  moreover have "buf \<noteq> []" using assms by auto
  ultimately show "take 8 (response_bytes buf c) ! i = (le_put_uint32 0x534c4354 @ le_put_uint32 (class_code c)) ! i"
    using assms by (elim disjE) (simp_all add: response_bytes_def put_u32_nth le_put_uint32_def
        AIMEE_TOOLS_RESPONSE_MAGIC_def del: class_code.simps)
qed

lemma le_uint32_get: "4 \<le> length b \<Longrightarrow> le_uint32 (take 4 b) = aimee_tools_get_u32 b"
  by (simp add: le_uint32_def get_u32_nth)

lemma length_bytes_of [simp]: "length (bytes_of s) = length s"
  by (simp add: bytes_of_def)

lemma string_bytes_of: "map (\<lambda>b. char_of (unat b)) (bytes_of s @ [0]) = s @ [CHR 0x00]"
  by (simp add: bytes_of_def comp_def) (simp add: char_of_def)

text \<open>A name without NUL is the same string on both sides.\<close>

lemma cstr_of_name:
  assumes "0 \<notin> set bs"
  shows "cstr_of (bs @ [0]) = map (\<lambda>b. char_of (unat b)) bs"
proof -
  have "takeWhile (\<lambda>x. x \<noteq> 0) (bs @ [0]) = bs"
    using assms by (subst takeWhile_append2) auto
  then show ?thesis by (simp add: cstr_of_def)
qed

lemma name_bound: "(b :: u8) > 95 \<longleftrightarrow> unat b > 95"
  by (simp add: word_less_nat_alt)

section \<open>Properties\<close>

text \<open>C24. The C adapter and the Go handler answer alike: on any request whose name bytes hold no
  NUL they return the same status, and the Go body is exactly the bytes the C adapter stores
  and counts, or no body where it stores nothing.\<close>

theorem go_c_parity:
  assumes "0 \<notin> set (take (unat (req ! 6)) (drop 8 req))" "8 \<le> length resp"
    and "aimee_module_handler (Some i) (Some req) resp True = (st, r, n)"
  shows "go_handle i req = (map_option (\<lambda>k. take k r) n, st)"
proof -
  let ?bs = "take (unat (req ! 6)) (drop 8 req)"
  let ?ok = "length req = 104 \<and> aimee_tools_get_u32 req = AIMEE_TOOLS_REQUEST_MAGIC \<and> req ! 4 = 1
    \<and> req ! 5 = 0 \<and> req ! 7 = 0 \<and> req ! 6 \<noteq> 0 \<and> unat (req ! 6) \<le> 95"
  have dec: "aimee_tools_request_decode (Some req) (Some 96) = (if ?ok then Some (?bs @ [0]) else None)"
    by (cases "aimee_tools_request_decode (Some req) (Some 96)")
      (auto simp: decode_Some_conv aimee_tools_request_decode_def wire_consts split: if_splits)
  have hdr: "length req = 104 \<Longrightarrow> le_uint32 (take 4 req) = aimee_tools_get_u32 req"
    by (rule le_uint32_get) simp
  show ?thesis
  proof (cases "stage_id i = 1 \<and> ?ok")
    case True
    then show ?thesis
      using assms hdr by (auto simp: handler_cases dec go_handle_def name_bound Let_def go_classify_code
          cstr_of_name response_bytes_go AIMEE_TOOLS_REQUEST_MAGIC_def simp del: class_code.simps)
  next
    case False
    then have "go_handle i req = (None, STATUS_INVALID_REQUEST)"
      using hdr by (auto simp: go_handle_def name_bound AIMEE_TOOLS_REQUEST_MAGIC_def)
    then show ?thesis
      using assms(2,3) False by (auto simp: handler_cases dec split: if_splits)
  qed
qed

theorem go_c_parity_witness:
  "\<exists>b r. aimee_tools_request_encode (Some ''ls'') (Some (replicate 104 0)) = Some b
    \<and> aimee_module_handler (Some \<lparr>stage_id = 1, cancelled = False\<rparr>) (Some b) (replicate 8 9) True = (STATUS_OK, r, Some 8)
    \<and> go_handle \<lparr>stage_id = 1, cancelled = False\<rparr> b = (Some (take 8 r), STATUS_OK)"
proof -
  let ?i = "\<lparr>stage_id = 1, cancelled = False\<rparr>"
  obtain b where b: "aimee_tools_request_encode (Some ''ls'') (Some (replicate 104 0)) = Some b"
    "aimee_tools_request_decode (Some b) (Some 96) = Some (bytes_of ''ls'' @ [0])"
    using request_encode_decode [of "''ls''" "replicate 104 0" 96] by auto
  let ?r = "response_bytes (replicate 8 9) (classify (cstr_of (bytes_of ''ls'' @ [0])))"
  have h: "aimee_module_handler (Some ?i) (Some b) (replicate 8 9) True = (STATUS_OK, ?r, Some 8)"
    using b(2) by (simp add: handler_cases)
  have "unat (b ! 6) = length ''ls''" using encode_layout(5) [OF b(1)] by simp
  then have "take (unat (b ! 6)) (drop 8 b) = bytes_of ''ls''"
    using encode_layout(7) [OF b(1)] by (simp only:)
  then have "0 \<notin> set (take (unat (b ! 6)) (drop 8 b))"
    using bytes_of_no_nul [of "''ls''"] by (simp add: no_nul_def)
  from go_c_parity [OF this _ h] show ?thesis using b(1) h by (intro exI [of _ b] exI [of _ ?r]) simp
qed

section \<open>Where the two differ\<close>

text \<open>
  A name with a NUL: the C adapter classifies what is in front of it, the Go handler the whole.
\<close>

definition nul_request :: "u8 list" where
  "nul_request = [0x54, 0x44, 0x49, 0x53, 1, 0, 5, 0] @ bytes_of ''bash'' @ replicate 92 0"

lemma go_c_differ_on_nul:
  "snd (go_handle \<lparr>stage_id = 1, cancelled = False\<rparr> nul_request) = STATUS_OK"
  "fst (go_handle \<lparr>stage_id = 1, cancelled = False\<rparr> nul_request)
     = Some (le_put_uint32 0x534c4354 @ le_put_uint32 (class_code UNKNOWN))"
  "\<exists>r. aimee_module_handler (Some \<lparr>stage_id = 1, cancelled = False\<rparr>) (Some nul_request) (replicate 8 0) True
     = (STATUS_OK, r, Some 8) \<and> aimee_tools_response_decode (Some (take 8 r)) = Some EXEC"
proof -
  let ?i = "\<lparr>stage_id = 1, cancelled = False\<rparr>"
  have len: "length nul_request = 104" by (simp add: nul_request_def)
  have hdr: "nul_request ! 4 = 1" "nul_request ! 5 = 0" "nul_request ! 6 = 5" "nul_request ! 7 = 0"
    by (simp_all add: nul_request_def)
  have magic: "aimee_tools_get_u32 nul_request = 0x53494454"
    by (simp add: get_u32_nth nul_request_def)
  have bs: "take 5 (drop 8 nul_request) = bytes_of ''bash'' @ [0]"
    by (simp add: nul_request_def)
  have name: "map (\<lambda>b. char_of (unat b)) (bytes_of ''bash'' @ [0]) = ''bash'' @ [CHR 0x00]"
    by (rule string_bytes_of)
  have cls: "classify (''bash'' @ [CHR 0x00]) = UNKNOWN" "classify ''bash'' = EXEC"
    by (simp_all add: classify_def one_of_def class_names)
  have m4: "le_uint32 (take 4 nul_request) = 0x53494454"
    using magic len by (simp add: le_uint32_get)
  show "snd (go_handle ?i nul_request) = STATUS_OK"
    "fst (go_handle ?i nul_request) = Some (le_put_uint32 0x534c4354 @ le_put_uint32 (class_code UNKNOWN))"
    using len hdr m4 bs name cls(1)
    by (simp_all add: go_handle_def Let_def go_classify_code del: class_code.simps)
  have "aimee_tools_request_decode (Some nul_request) (Some 96) = Some (bytes_of ''bash'' @ 0 # [0])"
    using len hdr magic bs by (simp add: decode_Some_conv AIMEE_TOOLS_REQUEST_MAGIC_def)
  moreover have "cstr_of (bytes_of ''bash'' @ 0 # [0]) = ''bash''"
    by (rule cstr_of_bytes_of) (simp add: no_nul_def)
  ultimately show "\<exists>r. aimee_module_handler (Some ?i) (Some nul_request) (replicate 8 0) True
     = (STATUS_OK, r, Some 8) \<and> aimee_tools_response_decode (Some (take 8 r)) = Some EXEC"
    using cls(2) response_layout(3) [of "replicate 8 0" EXEC] by (simp add: handler_cases)
qed

end
