(* ===== verification/Tool_World.thy ===== *)
theory Tool_World
  imports Prelude Complex_Main "HOL-Library.State_Monad"
begin

text \<open>
  What the tool module shares with the world outside this repository. Values of the cJSON
  library are a datatype with the node kinds its predicates tell apart. Everything the
  module calls but does not own (the library itself, the workspace provider, the guardrails,
  the sandbox, the databases, the knowledge service) is a field of \<open>env\<close>, a parameter of
  every definition that uses it. What the module does to the world is the list of \<open>event\<close>s
  it has performed, oldest first; a call whose answer may depend on earlier effects gets
  that list as its first argument.
\<close>

section \<open>cJSON values\<close>

text \<open>A number node has the two fields \<open>valueint\<close> and \<open>valuedouble\<close>.\<close>

datatype cjson =
    JNull
  | JBool bool
  | JNum int rat
  | JStr string
  | JArr "cjson list"
  | JObj "(string \<times> cjson) list"

text \<open>\<open>cJSON_CreateNumber(n)\<close> of a C integer.\<close>

definition jint :: "int \<Rightarrow> cjson" where
  "jint n = JNum n (of_int n)"

text \<open>
  \<open>x && cJSON_IsString(x) ? x->valuestring : NULL\<close> and its companions for integers,
  booleans and arrays, on a node that may be absent.
\<close>

fun j_str :: "cjson option \<Rightarrow> string option" where
  "j_str (Some (JStr s)) = Some s" | "j_str _ = None"

fun j_int :: "cjson option \<Rightarrow> int option" where
  "j_int (Some (JNum i d)) = Some i" | "j_int _ = None"

fun j_bool :: "cjson option \<Rightarrow> bool option" where
  "j_bool (Some (JBool b)) = Some b" | "j_bool _ = None"

fun is_arr :: "cjson option \<Rightarrow> bool" where
  "is_arr (Some (JArr _)) = True" | "is_arr _ = False"

fun is_obj :: "cjson option \<Rightarrow> bool" where
  "is_obj (Some (JObj _)) = True" | "is_obj _ = False"

text \<open>\<open>cJSON_ArrayForEach\<close>: the children of an array or an object.\<close>

fun j_children :: "cjson option \<Rightarrow> cjson list" where
  "j_children (Some (JArr xs)) = xs"
| "j_children (Some (JObj kvs)) = map snd kvs"
| "j_children _ = []"

definition or_else :: "'a option \<Rightarrow> 'a \<Rightarrow> 'a" where
  "or_else x d = (case x of Some v \<Rightarrow> v | None \<Rightarrow> d)"

lemma or_else_simps [simp]: "or_else (Some v) d = v" "or_else None d = d"
  by (simp_all add: or_else_def)

section \<open>Effects\<close>

text \<open>The classified outcome a completion hook receives.\<close>

record outcome =
  o_actor :: string
  o_verdict :: string
  o_reason :: string
  o_mode :: string

text \<open>How \<open>tool_bash\<close> starts a command on this host.\<close>

datatype spawn_route =
    ReadonlyChain "string list list \<times> string list" "string option"
      \<comment> \<open>a validated read-only chain, in a workspace\<close>
  | WorkspaceChain "string list list \<times> string list" "string option"
      \<comment> \<open>a validated workspace chain\<close>
  | SandboxReadonly "string option"   \<comment> \<open>\<open>sandbox_exec_with_readonly\<close>\<close>
  | SandboxPlain "string option"      \<comment> \<open>\<open>sandbox_exec\<close>\<close>
  | PlainShell "string option"        \<comment> \<open>\<open>fork\<close> and \<open>sh -c\<close>, in a directory\<close>

datatype event =
    ToolEvent nat string string nat       \<comment> \<open>\<open>g_tool_event_cb(phase, name, ud)\<close>\<close>
  | Completion nat string outcome nat     \<comment> \<open>\<open>g_completion_cb(tool, outcome, ud)\<close>\<close>
  | WriteAll string string                \<comment> \<open>\<open>ws->write_all\<close>\<close>
  | ExecArgv "string list"                \<comment> \<open>\<open>ws->exec\<close>\<close>
  | HostExec "string list"                \<comment> \<open>\<open>safe_exec_capture\<close>, a process on this host\<close>
  | ExecShell string                      \<comment> \<open>\<open>ws->exec_shell\<close>\<close>
  | ExecShellTimeout string int           \<comment> \<open>\<open>ws->exec_shell_timeout\<close>\<close>
  | Spawn spawn_route string              \<comment> \<open>a child process on this host, with the command\<close>
  | RunScript string string int           \<comment> \<open>\<open>tool_execute_script(language, body, secs)\<close>\<close>
  | SnapshotCreate string                 \<comment> \<open>\<open>anchor_snapshot_create(path)\<close>\<close>
  | ProcStart string "string option"      \<comment> \<open>\<open>proc_start(command, cwd)\<close>, a background process\<close>
  | WriteRecord "string option" string    \<comment> \<open>\<open>db1_session_write_path_record(key, path)\<close>\<close>
  | ReadRecord "string option" string     \<comment> \<open>\<open>session_record_read\<close> and the save\<close>
  | Call string "cjson list"              \<comment> \<open>any other call with an effect, by its C name\<close>

type_synonym trace = "event list"

text \<open>The events only the dispatcher itself emits.\<close>

fun is_hook :: "event \<Rightarrow> bool" where
  "is_hook (ToolEvent _ _ _ _) = True"
| "is_hook (Completion _ _ _ _) = True"
| "is_hook _ = False"

text \<open>The events by which commands run.\<close>

fun is_command :: "event \<Rightarrow> bool" where
  "is_command (ExecArgv _) = True"
| "is_command (HostExec _) = True"
| "is_command (ExecShell _) = True"
| "is_command (ExecShellTimeout _ _) = True"
| "is_command (Spawn _ _) = True"
| "is_command (RunScript _ _ _) = True"
| "is_command (ProcStart _ _) = True"
| "is_command _ = False"

fun is_write :: "event \<Rightarrow> bool" where
  "is_write (WriteAll _ _) = True"
| "is_write _ = False"

section \<open>The environment\<close>

datatype ws_kind = WS_SHARED | WS_DETACHED | WS_MIRROR | WS_CONTAINER

datatype sandbox_mode = SANDBOX_MODE_OFF | SANDBOX_MODE_ON

text \<open>What \<open>waitpid\<close> reports of a child.\<close>

datatype wait_status = Exited int | Signaled int | OtherStatus | WaitFailed

text \<open>
  One iteration of the capture loop of \<open>tool_bash\<close>, as the outside decides it: whether the
  delegate was cancelled, what \<open>select\<close> answers (with the ready flags of the two pipes), and
  the bytes that have arrived on the pipes since the iteration before.
\<close>

datatype select_result = SelEintr | SelFail | SelNone | SelReady bool bool

record tick =
  t_cancel :: bool
  t_sel :: select_result
  t_out :: string
  t_err :: string

record cjson_lib =
  cj_parse :: "string \<Rightarrow> cjson option"
  cj_print :: "cjson \<Rightarrow> string option"
  cj_get :: "cjson \<Rightarrow> string \<Rightarrow> cjson option"            \<comment> \<open>\<open>cJSON_GetObjectItem\<close>\<close>
  cj_get_cs :: "cjson \<Rightarrow> string \<Rightarrow> cjson option"         \<comment> \<open>\<open>cJSON_GetObjectItemCaseSensitive\<close>\<close>
  cj_detach :: "cjson \<Rightarrow> string \<Rightarrow> cjson \<times> cjson option"
  cj_add :: "cjson \<Rightarrow> string \<Rightarrow> cjson \<Rightarrow> cjson"
  cj_replace :: "cjson \<Rightarrow> string \<Rightarrow> cjson \<Rightarrow> cjson"
  cj_set :: "cjson \<Rightarrow> string \<Rightarrow> string \<Rightarrow> cjson"
    \<comment> \<open>\<open>cJSON_SetValuestring\<close> on the string item the lookup of the key finds\<close>

text \<open>
  One record for the process configuration, the thread's delegation context, the workspace
  provider and the remaining services.
\<close>

record env =
  cj :: cjson_lib
  max_path_len :: nat
  output_max :: nat
  output_raw_max :: nat
  cap_clamp :: "int \<Rightarrow> nat"
  max_list_files :: nat
  malloc_ok :: "nat \<Rightarrow> bool"
  config_present :: bool
  config_output_bytes :: int
  session_id :: "string option"
  run_cwd :: "string option"
  proc_cwd :: "string option"
  delegation_id :: "string option"
  guard_root :: "string option"
  guard_write_root :: "string option"
  parent_guard_blocks :: "string \<Rightarrow> string option \<Rightarrow> bool"
  readonly_delegate :: bool
  isolation_blocks :: "string \<Rightarrow> string \<Rightarrow> bool"
  normalize_path :: "string \<Rightarrow> string option \<Rightarrow> string"
  validate_path :: "string \<Rightarrow> string + string"           \<comment> \<open>the error, or the resolved path\<close>
  shell_operator :: "string \<Rightarrow> bool"
  shlex_split :: "string \<Rightarrow> nat \<Rightarrow> string list"
  access_x :: "string \<Rightarrow> bool"
  getenv :: "string \<Rightarrow> string option"
  channel_down_json :: string                             \<comment> \<open>\<open>DELEGATE_DETACHED_CHANNEL_DOWN_JSON\<close>\<close>
  self_exe :: "string option"                             \<comment> \<open>\<open>readlink("/proc/self/exe")\<close>\<close>
  workspace_root :: "string \<Rightarrow> string option"
  sandbox_conf :: sandbox_mode
  sandbox_effective :: sandbox_mode
  spawn_ok :: "trace \<Rightarrow> spawn_route \<Rightarrow> bool"
  pipes_ok :: "trace \<Rightarrow> bool"
  fds_fit :: bool                                         \<comment> \<open>both pipe ends below \<open>FD_SETSIZE\<close>\<close>
  child_ticks :: "trace \<Rightarrow> int \<Rightarrow> tick list"              \<comment> \<open>the iterations before the deadline\<close>
  child_wait :: "trace \<Rightarrow> wait_status"
  ws :: ws_kind
  ws_has_shell :: bool
  ws_has_shell_timeout :: bool
  ws_read_all :: "trace \<Rightarrow> string \<Rightarrow> string option"
  ws_stat :: "trace \<Rightarrow> string \<Rightarrow> nat option"             \<comment> \<open>the size of an existing file\<close>
  ws_write_ok :: "trace \<Rightarrow> string \<Rightarrow> string \<Rightarrow> bool"
  ws_list :: "trace \<Rightarrow> string \<Rightarrow> string option \<Rightarrow> string list option"
  ws_exec :: "trace \<Rightarrow> string list \<Rightarrow> int \<times> string option"
  host_exec :: "trace \<Rightarrow> string list \<Rightarrow> int \<times> string option"
  http_chunks :: "trace \<Rightarrow> bool \<Rightarrow> string \<Rightarrow> int \<Rightarrow> string \<Rightarrow> string list option"
    \<comment> \<open>TLS, host, port, request: what each \<open>read\<close> returns, or no connection\<close>
  ws_exec_shell :: "trace \<Rightarrow> string \<Rightarrow> string option \<times> int"
  valid_utf8 :: "string \<Rightarrow> bool"
  snapshot_new :: "trace \<Rightarrow> string \<Rightarrow> string option"
  index_find :: "trace \<Rightarrow> string \<Rightarrow> (string \<times> string \<times> int \<times> int) list"
    \<comment> \<open>the index's hits on a symbol, at most 16: file, kind, first and last line\<close>
  symbol_defs :: "string \<Rightarrow> string \<Rightarrow> string \<Rightarrow> (string \<times> string \<times> int \<times> int) list"
    \<comment> \<open>content, file name, symbol: its definitions there, at most 16: name, kind, lines\<close>
  anchor_lines :: "string \<Rightarrow> string list"                 \<comment> \<open>\<open>anchor_split_lines\<close>\<close>
  anchor_digest :: "string \<Rightarrow> bool \<Rightarrow> nat"                \<comment> \<open>\<open>anchor_line_digest\<close>\<close>
  anchor_tag :: "nat \<Rightarrow> string"                          \<comment> \<open>\<open>anchor_short_tag\<close>, two characters\<close>
  slop_detect :: "string \<Rightarrow> (int \<times> string \<times> string) list"
    \<comment> \<open>\<open>slop_detect_buf\<close>, at most 16: line, label of the category, excerpt\<close>
  lsp_diags :: "trace \<Rightarrow> string \<Rightarrow> string \<Rightarrow> (string \<times> int \<times> bool \<times> string \<times> string) list"
    \<comment> \<open>workspace, path: file, line, whether an error or warning, label, message\<close>
  call_int :: "trace \<Rightarrow> string \<Rightarrow> cjson list \<Rightarrow> int"
  call_str :: "trace \<Rightarrow> string \<Rightarrow> cjson list \<Rightarrow> string option"
  call_json :: "trace \<Rightarrow> string \<Rightarrow> cjson list \<Rightarrow> cjson option"

text \<open>How much of a result the model may see.\<close>

definition agent_tool_output_cap :: "env \<Rightarrow> nat" where
  "agent_tool_output_cap E =
     (if \<not> config_present E then output_max E else cap_clamp E (config_output_bytes E))"

text \<open>\<open>safe_strdup(x ? x : d)\<close> over a printed value.\<close>

definition print_or :: "env \<Rightarrow> cjson \<Rightarrow> string \<Rightarrow> string" where
  "print_or E j d = or_else (cj_print (cj E) j) d"

text \<open>A nullable string as an argument of an outside call.\<close>

definition opt_str :: "string option \<Rightarrow> cjson" where
  "opt_str x = (case x of Some s \<Rightarrow> JStr s | None \<Rightarrow> JNull)"

text \<open>\<open>cJSON_GetObjectItem\<close> on the arguments of a tool call.\<close>

abbreviation arg :: "env \<Rightarrow> cjson \<Rightarrow> string \<Rightarrow> cjson option" where
  "arg E args k \<equiv> cj_get (cj E) args k"

abbreviation arg_cs :: "env \<Rightarrow> cjson \<Rightarrow> string \<Rightarrow> cjson option" where
  "arg_cs E args k \<equiv> cj_get_cs (cj E) args k"

section \<open>Handlers\<close>

text \<open>
  A handler is a state monad over the trace of effects: \<open>emit\<close> performs an effect,
  \<open>ask\<close> takes an answer that depends on the effects so far.
\<close>

type_synonym 'a action = "(trace, 'a) state"

abbreviation ret :: "'a \<Rightarrow> 'a action" where
  "ret \<equiv> State_Monad.return"

definition emit :: "event \<Rightarrow> unit action" where
  "emit e = State (\<lambda>h. ((), h @ [e]))"

definition ask :: "(trace \<Rightarrow> 'a) \<Rightarrow> 'a action" where
  "ask f = State (\<lambda>h. (f h, h))"

text \<open>
  A call that has an effect and returns something: the answer is a function of the effects
  before the call.
\<close>

definition perform :: "event \<Rightarrow> (trace \<Rightarrow> 'a) \<Rightarrow> 'a action" where
  "perform e f = State (\<lambda>h. (f h, h @ [e]))"

definition result_of :: "'a action \<Rightarrow> trace \<Rightarrow> 'a" where
  "result_of m h = fst (run_state m h)"

definition trace_of :: "'a action \<Rightarrow> trace \<Rightarrow> trace" where
  "trace_of m h = snd (run_state m h)"

lemma run_ret [simp]: "run_state (ret x) h = (x, h)"
  by (simp add: State_Monad.return_def)

lemma run_bind [simp]:
  "run_state (State_Monad.bind m f) h = (case run_state m h of (x, h') \<Rightarrow> run_state (f x) h')"
  by (simp add: State_Monad.bind_def)

lemma run_emit [simp]: "run_state (emit e) h = ((), h @ [e])"
  by (simp add: emit_def)

lemma run_ask [simp]: "run_state (ask f) h = (f h, h)"
  by (simp add: ask_def)

lemma run_perform [simp]: "run_state (perform e f) h = (f h, h @ [e])"
  by (simp add: perform_def)

text \<open>\<open>emits P m\<close>: the handler only adds to the trace, and what it adds satisfies \<open>P\<close>.\<close>

definition emits :: "(event \<Rightarrow> bool) \<Rightarrow> 'a action \<Rightarrow> bool" where
  "emits P m \<longleftrightarrow> (\<forall>h. \<exists>evs. trace_of m h = h @ evs \<and> list_all P evs)"

named_theorems emits_intros \<open>closure of \<open>emits\<close> under the ways handlers are composed\<close>

lemma emitsE:
  assumes "emits P m" "run_state m h = (r, h')"
  obtains evs where "h' = h @ evs" "list_all P evs"
  using assms unfolding emits_def trace_of_def by (metis snd_conv)

lemma emits_trace: "emits P m \<Longrightarrow> \<exists>evs. trace_of m h = h @ evs \<and> list_all P evs"
  by (simp add: emits_def)

lemma emits_ret [emits_intros]: "emits P (ret x)"
  by (simp add: emits_def trace_of_def)

lemma emits_ask [emits_intros]: "emits P (ask f)"
  by (simp add: emits_def trace_of_def)

lemma emits_emit [emits_intros]: "P e \<Longrightarrow> emits P (emit e)"
  by (simp add: emits_def trace_of_def)

lemma emits_perform [emits_intros]: "P e \<Longrightarrow> emits P (perform e f)"
  by (simp add: emits_def trace_of_def)

lemma emits_bind [emits_intros]:
  assumes "emits P m" "\<And>x. emits P (f x)"
  shows "emits P (State_Monad.bind m f)"
  unfolding emits_def trace_of_def
proof
  fix h
  obtain x h' where m: "run_state m h = (x, h')" by fastforce
  with assms(1) obtain evs where e: "h' = h @ evs" "list_all P evs" by (rule emitsE)
  obtain y h'' where f: "run_state (f x) h' = (y, h'')" by fastforce
  with assms(2) obtain evs' where e': "h'' = h' @ evs'" "list_all P evs'" by (rule emitsE)
  show "\<exists>evs. snd (run_state (State_Monad.bind m f) h) = h @ evs \<and> list_all P evs"
    using m f e e' by (intro exI [of _ "evs @ evs'"]) simp
qed

lemma emits_if [emits_intros]: "(c \<Longrightarrow> emits P a) \<Longrightarrow> (\<not> c \<Longrightarrow> emits P b) \<Longrightarrow> emits P (if c then a else b)"
  by simp

lemma emits_case_option [emits_intros]:
  "(x = None \<Longrightarrow> emits P a) \<Longrightarrow> (\<And>v. x = Some v \<Longrightarrow> emits P (b v)) \<Longrightarrow>
     emits P (case x of None \<Rightarrow> a | Some v \<Rightarrow> b v)"
  by (simp split: option.split)

lemma emits_case_prod [emits_intros]:
  "(\<And>u v. x = (u, v) \<Longrightarrow> emits P (f u v)) \<Longrightarrow> emits P (case x of (u, v) \<Rightarrow> f u v)"
  by (simp split: prod.split)

lemma emits_case_sum [emits_intros]:
  "(\<And>u. x = Inl u \<Longrightarrow> emits P (f u)) \<Longrightarrow> (\<And>v. x = Inr v \<Longrightarrow> emits P (g v)) \<Longrightarrow>
     emits P (case x of Inl u \<Rightarrow> f u | Inr v \<Rightarrow> g v)"
  by (simp split: sum.split)

lemma emits_let [emits_intros]: "emits P (f x) \<Longrightarrow> emits P (let y = x in f y)"
  by simp

lemma emits_weaken: "emits P m \<Longrightarrow> (\<And>e. P e \<Longrightarrow> Q e) \<Longrightarrow> emits Q m"
  unfolding emits_def by (metis (mono_tags, lifting) list.pred_mono_strong)

lemma emits_events:
  assumes "emits P m" "e \<in> set (drop (length h) (trace_of m h))"
  shows "P e"
  using emits_trace [OF assms(1), of h] assms(2) by (auto simp: list_all_iff)

end
