(* ===== verification/Tool_Outcome.thy ===== *)
theory Tool_Outcome
  imports Tool_World Tool_Wire
begin

text \<open>
  The hooks around a tool call: the completion hook of \<open>agent_tools_completion.c\<close>, the
  lifecycle hook, the dispatch role and the classifier seam of \<open>agent_tools_dispatch.c\<close>,
  the per-dispatch outcome carriers, and the public wrapper that fires the hooks around an
  inner dispatch. The carriers are thread-local in the code and a value here, threaded
  through the inner dispatch.
\<close>

section \<open>Hook storage\<close>

text \<open>
  A callback is known by a number, and so is the pointer handed back to it. A registered
  classifier is a function from the name to its return code and the class it stored.
\<close>

record tool_globals =
  g_completion_cb :: "nat option"
  g_completion_ud :: nat
  g_tool_event_cb :: "nat option"
  g_tool_event_ud :: nat
  g_dispatch_role :: string
  g_tool_classifier :: "(string \<Rightarrow> int \<times> int) option"

definition globals_init :: tool_globals where
  "globals_init = \<lparr>g_completion_cb = None, g_completion_ud = 0, g_tool_event_cb = None,
     g_tool_event_ud = 0, g_dispatch_role = [], g_tool_classifier = None\<rparr>"

definition agent_tools_set_tool_completion_cb :: "nat option \<Rightarrow> nat \<Rightarrow> tool_globals \<Rightarrow> tool_globals" where
  "agent_tools_set_tool_completion_cb cb ud g = g\<lparr>g_completion_cb := cb, g_completion_ud := ud\<rparr>"

definition agent_tools_emit_tool_completion ::
  "tool_globals \<Rightarrow> string option \<Rightarrow> outcome option \<Rightarrow> unit action" where
  "agent_tools_emit_tool_completion g tool res =
     (case (g_completion_cb g, tool, res) of
        (Some cb, Some t, Some oc) \<Rightarrow> emit (Completion cb t oc (g_completion_ud g))
      | _ \<Rightarrow> ret ())"

definition agent_tools_fire_tool_completion_for_test ::
  "tool_globals \<Rightarrow> string option \<Rightarrow> outcome option \<Rightarrow> unit action" where
  "agent_tools_fire_tool_completion_for_test g tool res = agent_tools_emit_tool_completion g tool res"

definition agent_tools_set_tool_event_cb :: "nat option \<Rightarrow> nat \<Rightarrow> tool_globals \<Rightarrow> tool_globals" where
  "agent_tools_set_tool_event_cb cb ud g = g\<lparr>g_tool_event_cb := cb, g_tool_event_ud := ud\<rparr>"

definition agent_tools_emit_tool_event :: "tool_globals \<Rightarrow> string \<Rightarrow> string option \<Rightarrow> unit action" where
  "agent_tools_emit_tool_event g phase name =
     (case g_tool_event_cb g of
        Some cb \<Rightarrow> emit (ToolEvent cb phase (or_else name []) (g_tool_event_ud g))
      | None \<Rightarrow> ret ())"

definition agent_tools_register_classifier ::
  "(string \<Rightarrow> int \<times> int) option \<Rightarrow> tool_globals \<Rightarrow> tool_globals" where
  "agent_tools_register_classifier c g = g\<lparr>g_tool_classifier := c\<rparr>"

text \<open>The role is kept in a buffer of 64 bytes.\<close>

definition agent_tools_set_dispatch_role :: "string option \<Rightarrow> tool_globals \<Rightarrow> tool_globals" where
  "agent_tools_set_dispatch_role role g =
     (case role of
        Some r \<Rightarrow> if r \<noteq> [] then g\<lparr>g_dispatch_role := cbuf 64 r\<rparr> else g\<lparr>g_dispatch_role := []\<rparr>
      | None \<Rightarrow> g\<lparr>g_dispatch_role := []\<rparr>)"

definition agent_tools_dispatch_role :: "tool_globals \<Rightarrow> string option" where
  "agent_tools_dispatch_role g = (if g_dispatch_role g \<noteq> [] then Some (g_dispatch_role g) else None)"

section \<open>The outcome carriers\<close>

record td_outcome =
  td_verdict :: string
  td_reason :: string
  td_mode :: string
  td_explicit :: bool

definition td_outcome_reset :: td_outcome where
  "td_outcome_reset = \<lparr>td_verdict = ''ok'', td_reason = [], td_mode = ''internal'', td_explicit = False\<rparr>"

definition td_outcome_set :: "string \<Rightarrow> string \<Rightarrow> td_outcome \<Rightarrow> td_outcome" where
  "td_outcome_set verdict reason t = t\<lparr>td_verdict := verdict, td_reason := reason, td_explicit := True\<rparr>"

definition is_exec_tool :: "tool_globals \<Rightarrow> string \<Rightarrow> bool" where
  "is_exec_tool g name =
     (case g_tool_classifier g of
        None \<Rightarrow> False
      | Some f \<Rightarrow> (case f name of (rc, c) \<Rightarrow> rc = 0 \<and> c = int (unat (class_code EXEC))))"

definition td_classify_exec_result :: "env \<Rightarrow> string \<Rightarrow> td_outcome \<Rightarrow> td_outcome" where
  "td_classify_exec_result E result t =
     (case cj_parse (cj E) result of
        None \<Rightarrow> t
      | Some r \<Rightarrow>
          let stderr_j = arg E r ''stderr''; exit_j = arg E r ''exit_code'';
              status_j = arg E r ''status'' in
          if (case j_str stderr_j of Some s \<Rightarrow> starts_with s ''refused:'' | None \<Rightarrow> False)
          then td_outcome_set ''refused'' ''policy'' t
          else if (case exit_j of Some (JNum i d) \<Rightarrow> d \<noteq> 0 | _ \<Rightarrow> False)
          then td_outcome_set ''error'' ''tool_error'' t
          else if (case j_str status_j of Some s \<Rightarrow> s = ''failed'' | None \<Rightarrow> False)
          then td_outcome_set ''error'' ''tool_error'' t
          else t)"

text \<open>What the wrapper does to a verdict the inner dispatch left open.\<close>

definition td_finish :: "tool_globals \<Rightarrow> env \<Rightarrow> string \<Rightarrow> string option \<Rightarrow> td_outcome \<Rightarrow> td_outcome" where
  "td_finish g E name result t0 =
     (case result of
        None \<Rightarrow> t0
      | Some r \<Rightarrow>
          let t = (if \<not> td_explicit t0 \<and> is_exec_tool g name
                   then td_classify_exec_result E r t0 else t0) in
          if \<not> td_explicit t \<and> starts_with r ''error: timeout''
          then td_outcome_set ''timeout'' ''timeout'' t
          else if \<not> td_explicit t \<and> starts_with r ''error: timed out''
          then td_outcome_set ''timeout'' ''timeout'' t
          else if \<not> td_explicit t \<and> starts_with r ''error:''
          then td_outcome_set ''error'' ''tool_error'' t
          else t)"

definition td_report :: "env \<Rightarrow> td_outcome \<Rightarrow> outcome" where
  "td_report E t =
     \<lparr>o_actor = (if nonempty (session_id E) then the (session_id E) else ''tool''),
      o_verdict = td_verdict t, o_reason = td_reason t, o_mode = td_mode t\<rparr>"

text \<open>
  \<open>dispatch_tool_call_ctx\<close> over the inner dispatch it calls.
\<close>

definition dispatch_wrapper ::
  "tool_globals \<Rightarrow> env \<Rightarrow> (td_outcome \<Rightarrow> (string option \<times> td_outcome) action) \<Rightarrow> string
     \<Rightarrow> string option action" where
  "dispatch_wrapper g E inner name =
     do {
       agent_tools_emit_tool_event g ''started'' (Some name);
       (result, t0) \<leftarrow> inner td_outcome_reset;
       agent_tools_emit_tool_event g ''completed'' (Some name);
       let t = td_finish g E name result t0;
       agent_tools_emit_tool_completion g (Some name) (Some (td_report E t));
       ret result
     }"

section \<open>Lemmas\<close>

definition verdicts :: "string set" where
  "verdicts = {''ok'', ''error'', ''timeout'', ''refused''}"

definition reasons :: "string set" where
  "reasons = {'''', ''guardrail'', ''role'', ''cancelled'', ''tool_error'', ''timeout'',
     ''unknown_tool'', ''bad_args'', ''policy'', ''permission''}"

definition modes :: "string set" where
  "modes = {''internal'', ''outbound'', ''outbound:stdio'', ''outbound:sse''}"

text \<open>
  An outcome is well formed when its words come from the fixed vocabulary and an open
  verdict is still the initial one.
\<close>

definition td_ok :: "td_outcome \<Rightarrow> bool" where
  "td_ok t \<longleftrightarrow> td_verdict t \<in> verdicts \<and> td_reason t \<in> reasons \<and> td_mode t \<in> modes
     \<and> (\<not> td_explicit t \<longrightarrow> td_verdict t = ''ok'' \<and> td_reason t = '''')"

lemma td_ok_reset [simp]: "td_ok td_outcome_reset"
  by (simp add: td_ok_def td_outcome_reset_def verdicts_def reasons_def modes_def)

lemma td_ok_set:
  "td_ok t \<Longrightarrow> v \<in> verdicts \<Longrightarrow> r \<in> reasons \<Longrightarrow> td_ok (td_outcome_set v r t)"
  by (simp add: td_ok_def td_outcome_set_def)

lemma td_ok_classify: "td_ok t \<Longrightarrow> td_ok (td_classify_exec_result E r t)"
  by (auto simp: td_classify_exec_result_def Let_def verdicts_def reasons_def
      intro!: td_ok_set split: option.split)

lemma td_ok_finish: "td_ok t \<Longrightarrow> td_ok (td_finish g E name result t)"
  by (auto simp: td_finish_def Let_def verdicts_def reasons_def
      intro!: td_ok_set td_ok_classify split: option.split)

lemma td_finish_explicit: "td_explicit t \<Longrightarrow> td_finish g E name result t = t"
  by (simp add: td_finish_def Let_def split: option.split)

lemma td_mode_finish [simp]: "td_mode (td_finish g E name result t) = td_mode t"
  by (auto simp: td_finish_def td_classify_exec_result_def td_outcome_set_def Let_def
      split: option.splits)

lemma run_emit_tool_event:
  "run_state (agent_tools_emit_tool_event g phase (Some name)) h =
    ((), h @ (case g_tool_event_cb g of
                Some cb \<Rightarrow> [ToolEvent cb phase name (g_tool_event_ud g)] | None \<Rightarrow> []))"
  by (simp add: agent_tools_emit_tool_event_def split: option.split)

lemma run_emit_tool_completion:
  "run_state (agent_tools_emit_tool_completion g (Some tool) (Some oc)) h =
    ((), h @ (case g_completion_cb g of
                Some cb \<Rightarrow> [Completion cb tool oc (g_completion_ud g)] | None \<Rightarrow> []))"
  by (simp add: agent_tools_emit_tool_completion_def split: option.split)

section \<open>The contract of the inner dispatch\<close>

text \<open>
  The wrapper relies on two things about what it wraps: it fires no hook itself, and the
  outcome it hands back is well formed.
\<close>

locale inner_dispatch =
  fixes inner :: "td_outcome \<Rightarrow> (string option \<times> td_outcome) action"
  assumes no_hook: "emits (\<lambda>e. \<not> is_hook e) (inner t)"
    and outcome_ok: "td_ok t \<Longrightarrow> td_ok (snd (result_of (inner t) h))"
begin

lemma wrapper_trace:
  "\<exists>evs t. trace_of (dispatch_wrapper g E inner name) h =
      h @ (case g_tool_event_cb g of
             Some cb \<Rightarrow> [ToolEvent cb ''started'' name (g_tool_event_ud g)] | None \<Rightarrow> [])
        @ evs
        @ (case g_tool_event_cb g of
             Some cb \<Rightarrow> [ToolEvent cb ''completed'' name (g_tool_event_ud g)] | None \<Rightarrow> [])
        @ (case g_completion_cb g of
             Some cb \<Rightarrow> [Completion cb name (td_report E t) (g_completion_ud g)] | None \<Rightarrow> [])
    \<and> list_all (\<lambda>e. \<not> is_hook e) evs \<and> td_ok t"
proof -
  let ?h = "h @ (case g_tool_event_cb g of
             Some cb \<Rightarrow> [ToolEvent cb ''started'' name (g_tool_event_ud g)] | None \<Rightarrow> [])"
  obtain res t h' where i: "run_state (inner td_outcome_reset) ?h = ((res, t), h')"
    by (metis surj_pair)
  with no_hook obtain evs where e: "h' = ?h @ evs" "list_all (\<lambda>e. \<not> is_hook e) evs"
    by (rule emitsE)
  have "td_ok t"
    using outcome_ok [of td_outcome_reset ?h] i by (simp add: result_of_def)
  then have "td_ok (td_finish g E name res t)" by (rule td_ok_finish)
  moreover have "trace_of (dispatch_wrapper g E inner name) h =
      h' @ (case g_tool_event_cb g of
             Some cb \<Rightarrow> [ToolEvent cb ''completed'' name (g_tool_event_ud g)] | None \<Rightarrow> [])
        @ (case g_completion_cb g of
             Some cb \<Rightarrow> [Completion cb name (td_report E (td_finish g E name res t)) (g_completion_ud g)]
           | None \<Rightarrow> [])"
    using i by (simp add: dispatch_wrapper_def trace_of_def run_emit_tool_event
        run_emit_tool_completion Let_def)
  ultimately show ?thesis
    using e by (intro exI [of _ evs] exI [of _ "td_finish g E name res t"]) simp
qed

lemma completion_once:
  assumes "g_completion_cb g = Some cb"
  shows "\<exists>evs t. trace_of (dispatch_wrapper g E inner name) h =
      h @ evs @ [Completion cb name (td_report E t) (g_completion_ud g)]
    \<and> (\<forall>e \<in> set evs. \<forall>c n oc u. e \<noteq> Completion c n oc u) \<and> td_ok t"
proof -
  obtain evs t where "trace_of (dispatch_wrapper g E inner name) h =
      h @ (case g_tool_event_cb g of
             Some cb \<Rightarrow> [ToolEvent cb ''started'' name (g_tool_event_ud g)] | None \<Rightarrow> [])
        @ evs
        @ (case g_tool_event_cb g of
             Some cb \<Rightarrow> [ToolEvent cb ''completed'' name (g_tool_event_ud g)] | None \<Rightarrow> [])
        @ [Completion cb name (td_report E t) (g_completion_ud g)]"
      and h: "list_all (\<lambda>e. \<not> is_hook e) evs" "td_ok t"
    using wrapper_trace [of g E name h] assms by auto
  moreover have "Completion c n oc u \<notin> set evs" for c n oc u
    using h(1) by (auto simp: list_all_iff)
  ultimately show ?thesis
    by (intro exI [of _ "(case g_tool_event_cb g of
             Some cb \<Rightarrow> [ToolEvent cb ''started'' name (g_tool_event_ud g)] | None \<Rightarrow> [])
        @ evs
        @ (case g_tool_event_cb g of
             Some cb \<Rightarrow> [ToolEvent cb ''completed'' name (g_tool_event_ud g)] | None \<Rightarrow> [])"]
        exI [of _ t]) (auto split: option.split)
qed

end

end
