(* ===== verification/Readonly_Root.thy ===== *)
theory Readonly_Root
  imports Prelude
begin

text \<open>
  \<open>agent_tools_cmd_refers_to_readonly_root\<close> of \<open>agent_tools_internal.h\<close>: does a shell command
  mention the read-only parent worktree, other than under the writable one? The scan goes
  from match to match with \<open>strstr\<close>; the specification quantifies over all occurrences.
\<close>

definition before_delims :: "string" where
  "before_delims = [CHR 0x27, CHR 0x22, CHR ''='', CHR '':'', CHR '','', CHR ''('', CHR ''['',
     CHR 0x7B, CHR ''<'', CHR '' '', CHR 0x09, CHR 0x0A]"

definition after_delims :: "string" where
  "after_delims = [CHR ''/'', CHR 0x27, CHR 0x22, CHR '':'', CHR '','', CHR '')'', CHR '']'',
     CHR 0x7D, CHR ''>'', CHR '' '', CHR 0x09, CHR 0x0A]"

text \<open>The character before the match; \<open>None\<close> when the match starts the command.\<close>

definition before_ok :: "char option \<Rightarrow> bool" where
  "before_ok prev = (case prev of None \<Rightarrow> True | Some c \<Rightarrow> c \<in> set before_delims)"

text \<open>What follows the match; the terminating NUL counts as a delimiter.\<close>

definition after_ok :: "string \<Rightarrow> bool" where
  "after_ok rest = (case rest of [] \<Rightarrow> True | c # _ \<Rightarrow> c \<in> set after_delims)"

definition under_rw :: "string \<Rightarrow> string \<Rightarrow> bool" where
  "under_rw p rw = (rw \<noteq> [] \<and> prefix rw p \<and>
     (case drop (length rw) p of [] \<Rightarrow> True | c # _ \<Rightarrow> c = CHR ''/''))"

text \<open>
  The loop: \<open>prev\<close> is the character before \<open>p\<close>. At a match \<open>m\<close> inside \<open>p\<close> the test runs on
  the characters around it, then the loop goes on one character behind the match.
\<close>

function ro_scan :: "char option \<Rightarrow> string \<Rightarrow> string \<Rightarrow> string \<Rightarrow> bool" where
  "ro_scan prev p ro rw =
     (case strstr p ro of
        None \<Rightarrow> False
      | Some m \<Rightarrow>
          let k = length p - length m;
              pc = (if k = 0 then prev else Some (p ! (k - 1))) in
          if before_ok pc \<and> after_ok (drop (length ro) m) \<and> \<not> under_rw m rw then True
          else (case m of [] \<Rightarrow> False | c # m' \<Rightarrow> ro_scan (Some c) m' ro rw))"
  by pat_completeness auto
termination
  by (relation "measure (\<lambda>(prev, p, ro, rw). length p)") (auto dest: strstr_length)

declare ro_scan.simps [simp del]

definition agent_tools_cmd_refers_to_readonly_root ::
  "string option \<Rightarrow> string option \<Rightarrow> string option \<Rightarrow> bool" where
  "agent_tools_cmd_refers_to_readonly_root cmd ro rw =
     (case (cmd, ro) of
        (Some c, Some r) \<Rightarrow> if r = [] then False else ro_scan None c r (case rw of Some w \<Rightarrow> w | None \<Rightarrow> [])
      | _ \<Rightarrow> False)"

text \<open>The specification: some occurrence is delimited on both sides and not writable.\<close>

definition mentions_root :: "char option \<Rightarrow> string \<Rightarrow> string \<Rightarrow> string \<Rightarrow> bool" where
  "mentions_root prev p ro rw \<longleftrightarrow>
     (\<exists>pre m. p = pre @ m \<and> prefix ro m
        \<and> before_ok (if pre = [] then prev else Some (last pre))
        \<and> after_ok (drop (length ro) m) \<and> \<not> under_rw m rw)"

lemma mentions_rootI:
  "p = pre @ m \<Longrightarrow> prefix ro m \<Longrightarrow> before_ok (if pre = [] then prev else Some (last pre)) \<Longrightarrow>
     after_ok (drop (length ro) m) \<Longrightarrow> \<not> under_rw m rw \<Longrightarrow> mentions_root prev p ro rw"
  unfolding mentions_root_def by blast

lemma mentions_root_skip:
  assumes "mentions_root (Some c) m' ro rw"
  shows "mentions_root prev (pre @ c # m') ro rw"
proof -
  obtain q m where q: "m' = q @ m" "prefix ro m"
      "before_ok (if q = [] then Some c else Some (last q))"
      "after_ok (drop (length ro) m)" "\<not> under_rw m rw"
    using assms unfolding mentions_root_def by blast
  show ?thesis
    by (rule mentions_rootI [of _ "pre @ c # q" m]) (use q in auto)
qed

text \<open>The first match decides, or every later match lies behind its first character.\<close>

lemma mentions_root_first:
  assumes m: "strstr p ro = Some m" and p: "p = pre @ m"
    and no: "\<not> (before_ok (if pre = [] then prev else Some (last pre))
               \<and> after_ok (drop (length ro) m) \<and> \<not> under_rw m rw)"
    and ment: "mentions_root prev p ro rw"
  shows "\<exists>c m'. m = c # m' \<and> mentions_root (Some c) m' ro rw"
proof -
  obtain q n where q: "p = q @ n" "prefix ro n"
      "before_ok (if q = [] then prev else Some (last q))"
      "after_ok (drop (length ro) n)" "\<not> under_rw n rw"
    using ment unfolding mentions_root_def by blast
  have "\<not> length q < length pre"
    using strstr_first [OF m p] q(1,2) by blast
  moreover have "length q \<noteq> length pre"
  proof
    assume "length q = length pre"
    with p q(1) have "q = pre" "n = m" by simp_all
    with q no show False by blast
  qed
  ultimately have "length pre < length q" by simp
  moreover have "prefix pre q"
    using p q(1) \<open>length pre < length q\<close> by (metis less_or_eq_imp_le prefixI prefix_length_prefix)
  ultimately obtain c r where r: "q = pre @ c # r"
    by (metis append_Nil2 less_irrefl list.exhaust prefixE)
  then have "m = c # (r @ n)" using p q(1) by simp
  moreover have "mentions_root (Some c) (r @ n) ro rw"
    by (rule mentions_rootI [of _ r n]) (use q r in auto)
  ultimately show ?thesis by blast
qed

lemma char_before:
  "p = pre @ m \<Longrightarrow> (if length p - length m = 0 then prev else Some (p ! (length p - length m - 1))) =
     (if pre = [] then prev else Some (last pre))"
  by (auto simp: nth_append last_conv_nth)

lemma ro_scan_match:
  assumes "strstr p ro = Some m" "p = pre @ m" "m = c # m'"
  shows "ro_scan prev p ro rw \<longleftrightarrow>
    (before_ok (if pre = [] then prev else Some (last pre))
       \<and> after_ok (drop (length ro) m) \<and> \<not> under_rw m rw) \<or> ro_scan (Some c) m' ro rw"
proof -
  have "ro_scan prev p ro rw = (let k = length p - length m;
              pc = (if k = 0 then prev else Some (p ! (k - 1))) in
          if before_ok pc \<and> after_ok (drop (length ro) m) \<and> \<not> under_rw m rw then True
          else ro_scan (Some c) m' ro rw)"
    by (subst ro_scan.simps) (simp only: assms(1,3) option.case list.case)
  then show ?thesis
    by (simp only: Let_def char_before [OF assms(2)]) argo
qed

lemma ro_scan_iff: "ro \<noteq> [] \<Longrightarrow> ro_scan prev p ro rw \<longleftrightarrow> mentions_root prev p ro rw"
proof (induction "length p" arbitrary: prev p rule: less_induct)
  case less
  show ?case
  proof (cases "strstr p ro")
    case None
    then have "\<not> sublist ro p" by (simp add: strstr_None_iff)
    then have "\<not> mentions_root prev p ro rw"
      by (auto simp: mentions_root_def prefix_def sublist_def)
    with None show ?thesis by (simp add: ro_scan.simps)
  next
    case (Some m)
    then obtain pre where pre: "p = pre @ m" "prefix ro m"
      using strstr_Some by blast
    with less(2) obtain c m' where m: "m = c # m'" by (cases m) auto
    let ?hit = "before_ok (if pre = [] then prev else Some (last pre))
        \<and> after_ok (drop (length ro) m) \<and> \<not> under_rw m rw"
    have IH: "ro_scan (Some c) m' ro rw = mentions_root (Some c) m' ro rw"
      using less(1) [of m' "Some c"] less(2) pre(1) m by simp
    show ?thesis
    proof (cases ?hit)
      case True
      then have "mentions_root prev p ro rw"
        using pre by (blast intro: mentions_rootI)
      with True ro_scan_match [OF Some pre(1) m] show ?thesis by blast
    next
      case False
      have "mentions_root prev p ro rw \<longleftrightarrow> mentions_root (Some c) m' ro rw"
        using mentions_root_first [OF Some pre(1) False] mentions_root_skip [of c m' ro rw prev pre]
          m pre(1) by auto
      with False IH ro_scan_match [OF Some pre(1) m] show ?thesis by blast
    qed
  qed
qed

text \<open>C10. The scan for the read-only root is complete and sound: it reports a command exactly
  when some occurrence of the root in it, anywhere, stands between delimiters and is not the
  writable root or a path below it. In particular skipping from match to match misses
  none.\<close>

theorem refers_to_readonly_root_iff:
  "agent_tools_cmd_refers_to_readonly_root (Some cmd) (Some ro) rw \<longleftrightarrow>
     ro \<noteq> [] \<and>
     (\<exists>pre m. cmd = pre @ m \<and> prefix ro m \<and> (pre = [] \<or> last pre \<in> set before_delims)
        \<and> after_ok (drop (length ro) m) \<and> \<not> under_rw m (case rw of Some w \<Rightarrow> w | None \<Rightarrow> []))"
proof (cases "ro = []")
  case False
  have "(before_ok (if pre = [] then None else Some (last pre))) =
      (pre = [] \<or> last pre \<in> set before_delims)" for pre
    by (simp add: before_ok_def)
  with False show ?thesis
    by (simp add: agent_tools_cmd_refers_to_readonly_root_def ro_scan_iff mentions_root_def)
qed (simp add: agent_tools_cmd_refers_to_readonly_root_def)

text \<open>
  An output redirection glued to the path is not seen: \<open>>\<close>, like \<open>;\<close>, \<open>|\<close> and \<open>&\<close>, is not
  among the characters accepted before the root, although \<open><\<close> is.
\<close>

lemma redirection_not_seen:
  "\<not> agent_tools_cmd_refers_to_readonly_root (Some ''echo x >/ro/f'') (Some ''/ro'') None"
  "agent_tools_cmd_refers_to_readonly_root (Some ''cat </ro/f'') (Some ''/ro'') None"
  by (simp_all add: agent_tools_cmd_refers_to_readonly_root_def ro_scan.simps before_ok_def
      after_ok_def before_delims_def after_delims_def under_rw_def)

end
