(* ===== verification/Reference_Env.thy ===== *)
theory Reference_Env
  imports Tool_World
begin

text \<open>
  A concrete environment. It models no code of the repository: it is the instance at which
  theorems with hypotheses about the environment are shown to apply, with a small cJSON
  library (lookup without regard to case, as the library documents), a shared workspace
  without files, and services that answer nothing.
\<close>

definition to_lower :: "char \<Rightarrow> char" where
  "to_lower c = (let n = (of_char c :: nat) in if 65 \<le> n \<and> n \<le> 90 then char_of (n + 32) else c)"

fun find_ci :: "string \<Rightarrow> (string \<times> cjson) list \<Rightarrow> cjson option" where
  "find_ci k [] = None"
| "find_ci k ((k', v) # kvs) = (if map to_lower k = map to_lower k' then Some v else find_ci k kvs)"

fun delete_ci :: "string \<Rightarrow> (string \<times> cjson) list \<Rightarrow> (string \<times> cjson) list" where
  "delete_ci k [] = []"
| "delete_ci k ((k', v) # kvs) =
     (if map to_lower k = map to_lower k' then kvs else (k', v) # delete_ci k kvs)"

fun replace_ci :: "string \<Rightarrow> cjson \<Rightarrow> (string \<times> cjson) list \<Rightarrow> (string \<times> cjson) list" where
  "replace_ci k w [] = []"
| "replace_ci k w ((k', v) # kvs) =
     (if map to_lower k = map to_lower k' then (k, w) # kvs else (k', v) # replace_ci k w kvs)"

fun set_ci :: "string \<Rightarrow> string \<Rightarrow> (string \<times> cjson) list \<Rightarrow> (string \<times> cjson) list" where
  "set_ci k s [] = []"
| "set_ci k s ((k', v) # kvs) =
     (if map to_lower k = map to_lower k' then (k', JStr s) # kvs else (k', v) # set_ci k s kvs)"

fun members :: "cjson \<Rightarrow> (string \<times> cjson) list" where
  "members (JObj kvs) = kvs"
| "members _ = []"

definition ref_cjson :: "(string \<Rightarrow> cjson option) \<Rightarrow> cjson_lib" where
  "ref_cjson parse =
     \<lparr>cj_parse = parse,
      cj_print = (\<lambda>j. Some (case j of JObj [] \<Rightarrow> ''{}'' | JArr [] \<Rightarrow> ''[]'' | _ \<Rightarrow> ''{...}'')),
      cj_get = (\<lambda>j k. find_ci k (members j)),
      cj_get_cs = (\<lambda>j k. map_of (members j) k),
      cj_detach = (\<lambda>j k. (JObj (delete_ci k (members j)), find_ci k (members j))),
      cj_add = (\<lambda>j k v. JObj (members j @ [(k, v)])),
      cj_replace = (\<lambda>j k v. JObj (replace_ci k v (members j))),
      cj_set = (\<lambda>j k s. JObj (set_ci k s (members j)))\<rparr>"

definition ref_env :: env where
  "ref_env =
     \<lparr>cj = ref_cjson (\<lambda>_. None), max_path_len = 4096, output_max = 32768, output_raw_max = 32768,
      cap_clamp = (\<lambda>n. if n \<le> 0 then 32768 else min (nat n) 32768), max_list_files = 200,
      malloc_ok = (\<lambda>_. True), config_present = True, config_output_bytes = 0,
      session_id = Some ''s1'', run_cwd = Some ''/ws'', proc_cwd = Some ''/'',
      delegation_id = None, guard_root = None, guard_write_root = Some ''/ws'',
      parent_guard_blocks = (\<lambda>_ _. False), readonly_delegate = False,
      isolation_blocks = (\<lambda>_ _. False),
      normalize_path = (\<lambda>p w. if prefix ''/'' p then p else or_else w [] @ ''/'' @ p),
      validate_path = (\<lambda>p. Inr p),
      shell_operator = (\<lambda>t. t \<in> {''&&'', ''||'', '';'', ''|'', ''&'', ''>'', ''<''}),
      shlex_split = (\<lambda>_ _. []), access_x = (\<lambda>_. True), getenv = (\<lambda>_. None), channel_down_json = ''{}'', self_exe = None,
      workspace_root = (\<lambda>_. None), sandbox_conf = SANDBOX_MODE_ON,
      sandbox_effective = SANDBOX_MODE_ON, spawn_ok = (\<lambda>_ _. True),
      pipes_ok = (\<lambda>_. True), fds_fit = True, child_ticks = (\<lambda>_ _. []),
      child_wait = (\<lambda>_. Exited 0),
      ws = WS_SHARED, ws_has_shell = False, ws_has_shell_timeout = False,
      ws_read_all = (\<lambda>_ _. None), ws_stat = (\<lambda>_ _. None), ws_write_ok = (\<lambda>_ _ _. True),
      ws_list = (\<lambda>_ _ _. Some []), ws_exec = (\<lambda>_ _. (0, None)), host_exec = (\<lambda>_ _. (0, None)),
      http_chunks = (\<lambda>_ _ _ _ _. None),
      ws_exec_shell = (\<lambda>_ _. (None, -1)), valid_utf8 = (\<lambda>_. True),
      snapshot_new = (\<lambda>_ _. None), index_find = (\<lambda>_ _. []), symbol_defs = (\<lambda>_ _ _. []), anchor_lines = (\<lambda>s. [s]),
      anchor_digest = (\<lambda>_ _. 0), anchor_tag = (\<lambda>_. ''00''), slop_detect = (\<lambda>_. []), lsp_diags = (\<lambda>_ _ _. []),
      call_int = (\<lambda>_ _ _. 0), call_str = (\<lambda>_ _ _. None),
      call_json = (\<lambda>_ _ _. None)\<rparr>"

end
