(* ===== verification/Child_Path.thy ===== *)
theory Child_Path
  imports Reference_Env
begin

text \<open>
  The \<open>PATH\<close> of a child process (\<open>agent_tools.c\<close>, lines 82 to 148): the directory of the
  \<open>aimee\<close> binary is put in front, from up to three places, unless it is already there.
\<close>

text \<open>The loop of \<open>bash_path_has_dir\<close>, from the entry at \<open>p\<close> on.\<close>

function path_has_dir_loop :: "string \<Rightarrow> string \<Rightarrow> bool" where
  "path_has_dir_loop p dir =
     (if p = [] then False
      else case strchr p CHR '':'' of
             None \<Rightarrow> p = dir
           | Some colon \<Rightarrow>
               if take (length p - length colon) p = dir then True
               else path_has_dir_loop (tl colon) dir)"
  by pat_completeness auto
termination
  by (relation "measure (\<lambda>(p, dir). length p)") (auto dest!: strchr_Some)

declare path_has_dir_loop.simps [simp del]

definition bash_path_has_dir :: "string \<Rightarrow> string \<Rightarrow> bool" where
  "bash_path_has_dir path_env dir = (if dir = [] then False else path_has_dir_loop path_env dir)"

definition bash_prepend_path_dir :: "env \<Rightarrow> string \<Rightarrow> nat \<Rightarrow> string \<Rightarrow> string" where
  "bash_prepend_path_dir E buf buf_len dir =
     (if buf_len = 0 \<or> dir = [] \<or> bash_path_has_dir buf dir then buf
      else let candidate = dir @ ''/aimee'' in
        if length candidate \<ge> max_path_len E \<or> \<not> access_x E candidate then buf
        else let old = cbuf 8192 buf in
          if old \<noteq> [] then cbuf buf_len (dir @ '':'' @ old) else cbuf buf_len dir)"

text \<open>
  The value the child sets \<open>PATH\<close> to; \<open>None\<close> when it sets nothing. \<open>self_exe\<close> is what
  \<open>readlink\<close> stored, if anything.
\<close>

definition bash_prepare_child_path :: "env \<Rightarrow> string option" where
  "bash_prepare_child_path E =
     (let p0 = cbuf 8192 (or_else (getenv E ''PATH'') []);
          p1 = bash_prepend_path_dir E p0 8192 ''/usr/local/bin'';
          p2 = (case getenv E ''HOME'' of
                  Some home \<Rightarrow>
                    if home \<noteq> [] \<and> length (home @ ''/.local/bin'') < max_path_len E
                    then bash_prepend_path_dir E p1 8192 (home @ ''/.local/bin'') else p1
                | None \<Rightarrow> p1);
          p3 = (case self_exe E of
                  Some exe \<Rightarrow>
                    (case after_last CHR ''/'' exe of
                       Some base \<Rightarrow>
                         let dir = take (length exe - length base - 1) exe in
                         if dir \<noteq> [] then bash_prepend_path_dir E p2 8192 dir else p2
                     | None \<Rightarrow> p2)
                | None \<Rightarrow> p2)
      in if p3 \<noteq> [] then Some p3 else None)"

section \<open>Directories of a search path\<close>

text \<open>The entries of a search path, as the C library reads it.\<close>

fun path_dirs :: "string \<Rightarrow> string list" where
  "path_dirs [] = [[]]"
| "path_dirs (c # p) =
     (if c = CHR '':'' then [] # path_dirs p
      else (case path_dirs p of [] \<Rightarrow> [[c]] | d # ds \<Rightarrow> (c # d) # ds))"

lemma path_dirs_nonempty [simp]: "path_dirs p \<noteq> []"
  by (induction p) (auto split: list.split)

lemma path_dirs_split:
  "CHR '':'' \<notin> set d \<Longrightarrow> path_dirs (d @ CHR '':'' # p) = d # path_dirs p"
  by (induction d) auto

lemma path_dirs_single: "CHR '':'' \<notin> set d \<Longrightarrow> path_dirs d = [d]"
  by (induction d) auto

lemma path_has_dir_loop_iff: "dir \<noteq> [] \<Longrightarrow> path_has_dir_loop p dir \<longleftrightarrow> dir \<in> set (path_dirs p)"
proof (induction "length p" arbitrary: p rule: less_induct)
  case less
  show ?case
  proof (cases "p = []")
    case True
    with less.prems show ?thesis by (simp add: path_has_dir_loop.simps)
  next
    case False
    show ?thesis
    proof (cases "strchr p CHR '':''")
      case None
      then have "path_dirs p = [p]" by (simp add: strchr_None_iff path_dirs_single)
      with None False show ?thesis by (auto simp: path_has_dir_loop.simps)
    next
      case (Some colon)
      then obtain d rest where d: "p = d @ CHR '':'' # rest" "colon = CHR '':'' # rest"
          "CHR '':'' \<notin> set d"
        using strchr_Some by blast
      have "path_has_dir_loop p dir \<longleftrightarrow> d = dir \<or> path_has_dir_loop rest dir"
        using Some False d(1,2) by (subst path_has_dir_loop.simps) simp
      moreover have "path_has_dir_loop rest dir \<longleftrightarrow> dir \<in> set (path_dirs rest)"
        using less.hyps [of rest] less.prems d(1) by simp
      moreover have "path_dirs p = d # path_dirs rest"
        using d path_dirs_split by simp
      ultimately show ?thesis by auto
    qed
  qed
qed

lemma has_dir_iff: "bash_path_has_dir p dir \<longleftrightarrow> dir \<noteq> [] \<and> dir \<in> set (path_dirs p)"
  by (simp add: bash_path_has_dir_def path_has_dir_loop_iff)

section \<open>Property\<close>

text \<open>C39. Prepending changes the search path in one of two ways only: not at all, when the
  directory is listed already or holds no runnable \<open>aimee\<close>; or, where nothing is cut off, by
  that one directory in front, every entry the caller had kept behind it in order (an
  originally empty path becomes the directory alone).\<close>

theorem prepend_path_dir_entries:
  assumes "CHR '':'' \<notin> set dir" "length dir + 1 + length buf < buf_len" "buf_len \<le> 8192"
  shows "bash_prepend_path_dir E buf buf_len dir =
      (if dir = [] \<or> dir \<in> set (path_dirs buf) \<or> length dir + 6 \<ge> max_path_len E
          \<or> \<not> access_x E (dir @ ''/aimee'') then buf
       else if buf = [] then dir else dir @ '':'' @ buf)
    \<and> (bash_prepend_path_dir E buf buf_len dir = buf
       \<or> path_dirs (bash_prepend_path_dir E buf buf_len dir)
           = dir # (if buf = [] then [] else path_dirs buf))"
proof -
  have old: "cbuf 8192 buf = buf" using assms by (intro cbuf_id) simp
  have new: "cbuf buf_len (dir @ CHR '':'' # buf) = dir @ CHR '':'' # buf"
      "cbuf buf_len dir = dir"
    using assms by (auto intro!: cbuf_id)
  have eq: "bash_prepend_path_dir E buf buf_len dir =
      (if dir = [] \<or> dir \<in> set (path_dirs buf) \<or> length dir + 6 \<ge> max_path_len E
          \<or> \<not> access_x E (dir @ ''/aimee'') then buf
       else if buf = [] then dir else dir @ '':'' @ buf)"
    using assms old new
    by (auto simp: bash_prepend_path_dir_def has_dir_iff Let_def add.commute)
  show ?thesis
    unfolding eq using assms(1) path_dirs_split [of dir buf] path_dirs_single [of dir] by auto
qed

theorem prepend_path_dir_entries_witness:
  "bash_prepend_path_dir ref_env ''/bin:/usr/bin'' 8192 ''/opt'' = ''/opt:/bin:/usr/bin''"
  using prepend_path_dir_entries [of "''/opt''" "''/bin:/usr/bin''" 8192 ref_env]
  by (simp add: ref_env_def)

end
