(* ===== verification/Bash_Policy.thy ===== *)
theory Bash_Policy
  imports Reference_Env Readonly_Root
begin

text \<open>
  Which shell commands a guarded delegate may run without the sandbox
  (\<open>agent_tools.c\<close>, lines 77 to 557): the read-only command table, the workspace command
  table, and the validators that cut a token list into a chain of commands. Tokens come
  from \<open>shlex_split\<close>, paths are normalised by \<open>normalize_path\<close>; both belong to the
  environment.
\<close>

section \<open>Words and paths\<close>

definition bash_basename :: "string \<Rightarrow> string" where
  "bash_basename path = (case after_last CHR ''/'' path of Some r \<Rightarrow> r | None \<Rightarrow> path)"

definition bash_word_in_list :: "string option \<Rightarrow> string list \<Rightarrow> bool" where
  "bash_word_in_list word words =
     (case word of None \<Rightarrow> False | Some w \<Rightarrow> list_ex (\<lambda>v. w = v) words)"

definition bash_path_under_root :: "string option \<Rightarrow> string option \<Rightarrow> bool" where
  "bash_path_under_root path base =
     (case (path, base) of
        (Some p, Some r) \<Rightarrow> p \<noteq> [] \<and> r \<noteq> [] \<and> prefix r p \<and>
          (case drop (length r) p of [] \<Rightarrow> True | c # _ \<Rightarrow> c = CHR ''/'')
      | _ \<Rightarrow> False)"

definition bash_token_looks_path_like :: "string \<Rightarrow> bool" where
  "bash_token_looks_path_like token =
     (token \<noteq> [] \<and> (strchr token CHR ''/'' \<noteq> None \<or> token = ''.'' \<or> token = ''..''))"

definition bash_path_under_guard_write_root :: "env \<Rightarrow> string \<Rightarrow> string option \<Rightarrow> bool" where
  "bash_path_under_guard_write_root E path workspace =
     (if \<not> nonempty (guard_write_root E) \<or> path = [] then False
      else bash_path_under_root (Some (normalize_path E path workspace)) (guard_write_root E))"

definition bash_guarded_path_token_allowed :: "env \<Rightarrow> string \<Rightarrow> string option \<Rightarrow> bool" where
  "bash_guarded_path_token_allowed E token workspace =
     (if token = [] then True
      else if (case strchr token CHR ''='' of
                 Some (_ # v) \<Rightarrow> v \<noteq> [] \<and> bash_token_looks_path_like v
                   \<and> \<not> bash_path_under_guard_write_root E v workspace
               | _ \<Rightarrow> False) then False
      else if bash_token_looks_path_like token
              \<and> \<not> bash_path_under_guard_write_root E token workspace then False
      else True)"

section \<open>The read-only commands\<close>

definition readonly_git :: "string list" where
  "readonly_git = [''status'', ''diff'', ''show'', ''log'', ''rev-parse'', ''ls-files'', ''branch'',
     ''describe'', ''merge-base'', ''grep'', ''remote'']"

text \<open>The first argument that is neither an option nor the value of \<open>-C\<close> or \<open>-c\<close>.\<close>

function git_subcommand :: "string list \<Rightarrow> string option" where
  "git_subcommand [] = None"
| "git_subcommand (t # ts) =
     (if t = ''-C'' \<or> t = ''-c'' then git_subcommand (tl ts)
      else if prefix ''-C'' t \<and> length t > 2 then git_subcommand ts
      else if prefix ''-'' t then git_subcommand ts
      else Some t)"
  by pat_completeness auto
termination by (relation "measure length") auto

definition bash_git_subcommand_is_readonly :: "string list \<Rightarrow> bool" where
  "bash_git_subcommand_is_readonly tokens =
     bash_word_in_list (git_subcommand (tl tokens)) readonly_git"

definition bash_aimee_subcommand_is_readonly :: "string list \<Rightarrow> bool" where
  "bash_aimee_subcommand_is_readonly tokens =
     (if length tokens < 2 then False
      else let cmd = tokens ! 1; sub = (if length tokens \<ge> 3 then tokens ! 2 else []) in
        if cmd = ''index'' then bash_word_in_list (Some sub)
          [''overview'', ''list'', ''find'', ''structure'', ''callers'', ''blast-radius'']
        else if cmd = ''memory'' then bash_word_in_list (Some sub)
          [''search'', ''list'', ''get'', ''read'']
        else if cmd = ''delegate'' then bash_word_in_list (Some sub)
          [''status'', ''log'', ''--list-roles'']
        else if cmd = ''provider'' then bash_word_in_list (Some sub) [''list'', ''show'']
        else if cmd = ''jobs'' \<or> cmd = ''job'' then bash_word_in_list (Some sub)
          [''list'', ''status'', ''logs'']
        else if cmd = ''status'' \<or> cmd = ''workers'' then True
        else False)"

definition readonly_commands :: "string list" where
  "readonly_commands = [''cat'', ''cut'', ''dirname'', ''echo'', ''file'', ''find'', ''grep'', ''head'',
     ''ls'', ''nl'', ''printf'', ''pwd'', ''rg'', ''sed'', ''sort'', ''stat'', ''tail'', ''test'', ''true'',
     ''wc'', ''uniq'', ''false'', ''basename'', ''readlink'', ''realpath'']"

definition find_actions :: "string list" where
  "find_actions = [''-delete'', ''-exec'', ''-execdir'', ''-ok'', ''-okdir'', ''-fprint'', ''-fprintf'']"

definition bash_command_is_readonly_exec :: "env \<Rightarrow> string list \<Rightarrow> string option \<Rightarrow> bool" where
  "bash_command_is_readonly_exec E tokens workspace =
     (if tokens = [] then False
      else if list_ex (shell_operator E) tokens then False
      else let cmd = bash_basename (hd tokens) in
        if cmd = ''cd'' then length tokens = 2
          \<and> bash_path_under_guard_write_root E (tokens ! 1) workspace
        else if cmd = ''git'' then bash_git_subcommand_is_readonly tokens
        else if cmd = ''aimee'' then bash_aimee_subcommand_is_readonly tokens
        else if \<not> bash_word_in_list (Some cmd) readonly_commands then False
        else if cmd = ''sed'' then \<not> list_ex (\<lambda>t. prefix ''-i'' t) (tl tokens)
        else if cmd = ''find'' then \<not> list_ex (\<lambda>t. t \<in> set find_actions) (tl tokens)
        else True)"

section \<open>The guarded workspace commands\<close>

definition bash_command_paths_stay_in_guarded_workspace ::
  "env \<Rightarrow> string list \<Rightarrow> string option \<Rightarrow> bool" where
  "bash_command_paths_stay_in_guarded_workspace E tokens workspace =
     list_all (\<lambda>t. bash_guarded_path_token_allowed E t workspace) tokens"

definition bash_guarded_fallback_paths_safe :: "env \<Rightarrow> string \<Rightarrow> string option \<Rightarrow> bool" where
  "bash_guarded_fallback_paths_safe E command workspace =
     (let tokens = shlex_split E command 64 in
      if tokens = [] \<or> length tokens \<ge> 64 then False
      else bash_command_paths_stay_in_guarded_workspace E tokens workspace)"

text \<open>The path options of \<open>make\<close>, with their value in the next token or glued on.\<close>

function make_paths_ok :: "env \<Rightarrow> string option \<Rightarrow> string list \<Rightarrow> bool" where
  "make_paths_ok E workspace [] = True"
| "make_paths_ok E workspace (t # ts) =
     (if t = ''-C'' \<or> t = ''--directory'' \<or> t = ''-f'' \<or> t = ''--file'' \<or> t = ''--makefile''
      then (case ts of
              [] \<Rightarrow> False
            | p # ts' \<Rightarrow> if bash_path_under_guard_write_root E p workspace
                        then make_paths_ok E workspace ts' else False)
      else
        let path =
          (if prefix ''-C'' t \<and> length t > 2 then Some (drop 2 t)
           else if prefix ''-f'' t \<and> length t > 2 then Some (drop 2 t)
           else if prefix ''--directory='' t then Some (drop 12 t)
           else if prefix ''--file='' t then Some (drop 7 t)
           else if prefix ''--makefile='' t then Some (drop 11 t)
           else None) in
        if (case path of Some p \<Rightarrow> \<not> bash_path_under_guard_write_root E p workspace | None \<Rightarrow> False)
        then False else make_paths_ok E workspace ts)"
  by pat_completeness auto
termination by (relation "measure (\<lambda>(E, w, ts). length ts)") auto

definition bash_make_path_options_stay_in_workspace ::
  "env \<Rightarrow> string list \<Rightarrow> string option \<Rightarrow> bool" where
  "bash_make_path_options_stay_in_workspace E tokens workspace = make_paths_ok E workspace (tl tokens)"

definition bash_command_is_guarded_workspace_segment ::
  "env \<Rightarrow> string list \<Rightarrow> string option \<Rightarrow> bool" where
  "bash_command_is_guarded_workspace_segment E tokens workspace =
     (if tokens = [] \<or> \<not> nonempty workspace then False
      else if \<not> bash_path_under_root workspace (guard_write_root E) then False
      else if list_ex (shell_operator E) tokens then False
      else if \<not> bash_command_paths_stay_in_guarded_workspace E tokens workspace then False
      else let cmd = bash_basename (hd tokens) in
        if cmd = ''make'' then bash_make_path_options_stay_in_workspace E tokens workspace
        else if cmd \<in> {''mkdir'', ''touch'', ''cp'', ''mv'', ''rm'', ''rmdir''} then True
        else if strchr (hd tokens) CHR ''/'' \<noteq> None then
          (let resolved = normalize_path E (hd tokens) workspace in
           bash_path_under_root (Some resolved) (guard_write_root E) \<and> access_x E resolved)
        else False)"

definition lxc_cmd_safe :: "string option \<Rightarrow> string option \<Rightarrow> string option \<Rightarrow> bool" where
  "lxc_cmd_safe cmd ro rw = (\<not> agent_tools_cmd_refers_to_readonly_root cmd ro rw)"

section \<open>Cutting a command line into a chain\<close>

text \<open>
  A chain is the list of its commands and the operators between them. The code keeps index
  pairs \<open>(start, count)\<close> into the token array; a command here is the slice they denote. Both
  validators run the same loop over the tokens and the end marker, with their own command
  test and their own allowed operators.
\<close>

type_synonym chain = "string list list \<times> string list"

fun chain_loop :: "(string list \<Rightarrow> bool) \<Rightarrow> (string \<Rightarrow> bool) \<Rightarrow> (string \<Rightarrow> bool) \<Rightarrow> nat
    \<Rightarrow> string list list \<Rightarrow> string list \<Rightarrow> string list \<Rightarrow> string list \<Rightarrow> chain option" where
  "chain_loop ok allowed blocked mx cmds ops seg [] =
     (if seg = [] \<or> length cmds \<ge> mx then None
      else if \<not> ok seg then None
      else Some (cmds @ [seg], ops))"
| "chain_loop ok allowed blocked mx cmds ops seg (t # ts) =
     (if allowed t then
        (if seg = [] \<or> length cmds \<ge> mx then None
         else if \<not> ok seg then None
         else if length cmds + 1 \<ge> mx then None
         else chain_loop ok allowed blocked mx (cmds @ [seg]) (ops @ [t]) [] ts)
      else if blocked t then None
      else chain_loop ok allowed blocked mx cmds ops (seg @ [t]) ts)"

definition readonly_ops :: "string \<Rightarrow> bool" where
  "readonly_ops t = (t = ''&&'' \<or> t = '';'' \<or> t = ''|'')"

definition workspace_ops :: "string \<Rightarrow> bool" where
  "workspace_ops t = (t = ''&&'' \<or> t = '';'')"

definition bash_readonly_chain_validate ::
  "env \<Rightarrow> string list \<Rightarrow> nat \<Rightarrow> string option \<Rightarrow> chain option" where
  "bash_readonly_chain_validate E tokens max_commands workspace =
     (if tokens = [] \<or> max_commands = 0 then None
      else chain_loop (\<lambda>seg. bash_command_is_readonly_exec E seg workspace)
             readonly_ops (shell_operator E) max_commands [] [] [] tokens)"

definition bash_workspace_chain_validate ::
  "env \<Rightarrow> string list \<Rightarrow> nat \<Rightarrow> string option \<Rightarrow> chain option" where
  "bash_workspace_chain_validate E tokens max_commands workspace =
     chain_loop (\<lambda>seg. bash_command_is_guarded_workspace_segment E seg workspace)
       workspace_ops (shell_operator E) max_commands [] [] [] tokens"

section \<open>Specification of the chains\<close>

text \<open>The runs of tokens between separators.\<close>

fun segments :: "(string \<Rightarrow> bool) \<Rightarrow> string list \<Rightarrow> string list list" where
  "segments sep [] = [[]]"
| "segments sep (t # ts) =
     (if sep t then [] # segments sep ts
      else (case segments sep ts of [] \<Rightarrow> [[t]] | s # ss \<Rightarrow> (t # s) # ss))"

definition chain_spec :: "(string list \<Rightarrow> bool) \<Rightarrow> (string \<Rightarrow> bool) \<Rightarrow> (string \<Rightarrow> bool) \<Rightarrow> nat
    \<Rightarrow> string list \<Rightarrow> chain option" where
  "chain_spec ok allowed blocked mx tokens =
     (if (\<forall>t \<in> set tokens. blocked t \<longrightarrow> allowed t)
         \<and> (\<forall>s \<in> set (segments allowed tokens). s \<noteq> [] \<and> ok s)
         \<and> length (segments allowed tokens) \<le> mx
      then Some (segments allowed tokens, filter allowed tokens) else None)"

text \<open>Putting the operators back between the commands.\<close>

fun rejoin :: "string list list \<Rightarrow> string list \<Rightarrow> string list" where
  "rejoin (s # ss) (op # ops) = s @ op # rejoin ss ops"
| "rejoin [s] [] = s"
| "rejoin _ _ = []"

lemma segments_nonempty [simp]: "segments sep ts \<noteq> []"
  by (induction ts) (auto split: list.split)

lemma length_segments: "length (segments sep ts) = length (filter sep ts) + 1"
proof (induction ts)
  case (Cons t ts)
  then show ?case by (cases "segments sep ts") auto
qed simp

lemma rejoin_segments: "rejoin (segments sep ts) (filter sep ts) = ts"
proof (induction ts)
  case (Cons t ts)
  show ?case
  proof (cases "sep t")
    case True
    with Cons show ?thesis by simp
  next
    case False
    obtain s ss where s: "segments sep ts = s # ss"
      by (cases "segments sep ts") auto
    show ?thesis
    proof (cases "filter sep ts")
      case Nil
      then have "ss = []" using s length_segments [of sep ts] by simp
      with Nil s Cons False show ?thesis by simp
    next
      case (Cons op ops)
      with s \<open>rejoin (segments sep ts) (filter sep ts) = ts\<close> False show ?thesis by simp
    qed
  qed
qed simp

lemma segments_no_sep: "s \<in> set (segments sep ts) \<Longrightarrow> t \<in> set s \<Longrightarrow> \<not> sep t \<and> t \<in> set ts"
proof (induction ts arbitrary: s)
  case (Cons u ts)
  obtain x xs where x: "segments sep ts = x # xs"
    by (cases "segments sep ts") auto
  show ?case
  proof (cases "sep u")
    case True
    with Cons show ?thesis by auto
  next
    case False
    from Cons.prems(1) False x have "s = u # x \<or> s \<in> set xs" by simp
    then show ?thesis using Cons.IH [of x] Cons.IH [of s] Cons.prems(2) False x by auto
  qed
qed simp

lemma segments_append_front:
  "list_all (\<lambda>t. \<not> sep t) pre \<Longrightarrow>
     segments sep (pre @ ts) = (pre @ hd (segments sep ts)) # tl (segments sep ts)"
proof (induction pre)
  case Nil
  show ?case by (cases "segments sep ts") auto
qed auto

text \<open>The loop computes the specification, from any point of the token list.\<close>

lemma chain_loop_spec:
  assumes "\<And>t. t \<in> set seg \<Longrightarrow> \<not> allowed t"
  shows "chain_loop ok allowed blocked mx cmds ops seg ts =
    (let ss = segments allowed (seg @ ts) in
     if (\<forall>t \<in> set ts. blocked t \<longrightarrow> allowed t) \<and> (\<forall>s \<in> set ss. s \<noteq> [] \<and> ok s)
        \<and> length cmds + length ss \<le> mx
     then Some (cmds @ ss, ops @ filter allowed ts) else None)"
  using assms
proof (induction ts arbitrary: cmds ops seg)
  case Nil
  then have "segments allowed (seg @ []) = [seg]"
    using segments_append_front [of allowed seg "[]"] by (simp add: list_all_iff)
  then show ?case by auto
next
  case (Cons t ts)
  have front: "segments allowed (seg @ t # ts) =
      (if allowed t then seg # segments allowed ts else segments allowed ((seg @ [t]) @ ts))"
    using segments_append_front [of allowed seg "t # ts"] Cons.prems by (simp add: list_all_iff)
  have len: "1 \<le> length (segments allowed ts)" for ts
    by (simp add: length_segments)
  show ?case
  proof (cases "allowed t")
    case True
    let ?ss = "segments allowed ts"
    have L: "chain_loop ok allowed blocked mx cmds ops seg (t # ts) =
        (if seg \<noteq> [] \<and> ok seg \<and> length cmds + 1 < mx
         then chain_loop ok allowed blocked mx (cmds @ [seg]) (ops @ [t]) [] ts else None)"
      using True by auto
    have R: "chain_loop ok allowed blocked mx (cmds @ [seg]) (ops @ [t]) [] ts =
        (if (\<forall>t \<in> set ts. blocked t \<longrightarrow> allowed t) \<and> (\<forall>s \<in> set ?ss. s \<noteq> [] \<and> ok s)
            \<and> length cmds + 1 + length ?ss \<le> mx
         then Some (cmds @ seg # ?ss, ops @ t # filter allowed ts) else None)"
      using Cons.IH [of "[]" "cmds @ [seg]" "ops @ [t]"] by (simp add: Let_def)
    have S: "segments allowed (seg @ t # ts) = seg # ?ss"
      using front True by simp
    have "length cmds + 1 + length ?ss \<le> mx \<Longrightarrow> length cmds + 1 < mx"
      using len [of ts] by linarith
    then show ?thesis
      unfolding L R S Let_def using True by auto
  next
    case False
    with Cons.prems have seg: "\<not> allowed u" if "u \<in> set (seg @ [t])" for u
      using that by auto
    have L: "chain_loop ok allowed blocked mx cmds ops seg (t # ts) =
        (if blocked t then None else chain_loop ok allowed blocked mx cmds ops (seg @ [t]) ts)"
      using False by simp
    have S: "segments allowed (seg @ t # ts) = segments allowed ((seg @ [t]) @ ts)"
      using front False by simp
    have F: "filter allowed (t # ts) = filter allowed ts"
        "(\<forall>u \<in> set (t # ts). blocked u \<longrightarrow> allowed u) \<longleftrightarrow>
           \<not> blocked t \<and> (\<forall>u \<in> set ts. blocked u \<longrightarrow> allowed u)"
      using False by auto
    show ?thesis
      unfolding L S F Let_def
      using Cons.IH [where seg = "seg @ [t]" and cmds = cmds and ops = ops, OF seg]
      by (simp only: Let_def) (simp split: if_split)
  qed
qed

lemma chain_loop_eq_spec:
  "chain_loop ok allowed blocked mx [] [] [] ts = chain_spec ok allowed blocked mx ts"
  using chain_loop_spec [of "[]" allowed ok blocked mx "[]" "[]" ts]
  by (simp add: chain_spec_def Let_def)

text \<open>
  What a caller of either validator relies on: the result is the specified cut of the
  tokens, so every command passed the test and nothing of the line is lost.
\<close>

locale chain_validator =
  fixes validate :: "string list \<Rightarrow> chain option"
    and ok :: "string list \<Rightarrow> bool"
    and allowed :: "string \<Rightarrow> bool"
    and blocked :: "string \<Rightarrow> bool"
    and mx :: nat
  assumes validate_spec: "validate tokens = chain_spec ok allowed blocked mx tokens"
begin

lemma validate_Some_iff:
  "validate tokens = Some (cmds, ops) \<longleftrightarrow>
     cmds = segments allowed tokens \<and> ops = filter allowed tokens
     \<and> (\<forall>t \<in> set tokens. blocked t \<longrightarrow> allowed t)
     \<and> (\<forall>s \<in> set cmds. s \<noteq> [] \<and> ok s) \<and> length cmds \<le> mx"
proof
  assume "validate tokens = Some (cmds, ops)"
  then show "cmds = segments allowed tokens \<and> ops = filter allowed tokens
     \<and> (\<forall>t \<in> set tokens. blocked t \<longrightarrow> allowed t)
     \<and> (\<forall>s \<in> set cmds. s \<noteq> [] \<and> ok s) \<and> length cmds \<le> mx"
    unfolding validate_spec chain_spec_def by (simp split: if_splits)
next
  assume a: "cmds = segments allowed tokens \<and> ops = filter allowed tokens
     \<and> (\<forall>t \<in> set tokens. blocked t \<longrightarrow> allowed t)
     \<and> (\<forall>s \<in> set cmds. s \<noteq> [] \<and> ok s) \<and> length cmds \<le> mx"
  then have "length (segments allowed tokens) \<le> mx" by metis
  with a show "validate tokens = Some (cmds, ops)"
    unfolding validate_spec chain_spec_def by simp
qed

lemma validate_sound:
  assumes "validate tokens = Some (cmds, ops)"
  shows "rejoin cmds ops = tokens" "length cmds = length ops + 1" "length cmds \<le> mx"
    "\<And>s. s \<in> set cmds \<Longrightarrow> s \<noteq> [] \<and> ok s \<and> (\<forall>t \<in> set s. \<not> allowed t \<and> \<not> blocked t)"
    "\<And>op. op \<in> set ops \<Longrightarrow> allowed op"
proof -
  have v: "cmds = segments allowed tokens" "ops = filter allowed tokens"
    "\<forall>t \<in> set tokens. blocked t \<longrightarrow> allowed t" "\<forall>s \<in> set cmds. s \<noteq> [] \<and> ok s" "length cmds \<le> mx"
    using iffD1 [OF validate_Some_iff assms] by blast+
  show j: "rejoin cmds ops = tokens" using v by (simp add: rejoin_segments)
  show "length cmds = length ops + 1" using v by (simp add: length_segments)
  show "length cmds \<le> mx" by (fact v(5))
  show "s \<noteq> [] \<and> ok s \<and> (\<forall>t \<in> set s. \<not> allowed t \<and> \<not> blocked t)" if "s \<in> set cmds" for s
    using that v segments_no_sep [of s allowed tokens] by blast
  show "allowed op" if "op \<in> set ops" for op
    using that v(2) by simp
qed

end

interpretation readonly_chain: chain_validator
  "\<lambda>tokens. bash_readonly_chain_validate E tokens mx workspace"
  "\<lambda>seg. bash_command_is_readonly_exec E seg workspace"
  readonly_ops "shell_operator E" mx
  for E mx workspace
proof
  fix tokens
  show "bash_readonly_chain_validate E tokens mx workspace =
      chain_spec (\<lambda>seg. bash_command_is_readonly_exec E seg workspace) readonly_ops
        (shell_operator E) mx tokens"
    using length_segments [of readonly_ops tokens]
    by (auto simp: bash_readonly_chain_validate_def chain_loop_eq_spec chain_spec_def)
qed

interpretation workspace_chain: chain_validator
  "\<lambda>tokens. bash_workspace_chain_validate E tokens mx workspace"
  "\<lambda>seg. bash_command_is_guarded_workspace_segment E seg workspace"
  workspace_ops "shell_operator E" mx
  for E mx workspace
proof
  fix tokens
  show "bash_workspace_chain_validate E tokens mx workspace =
      chain_spec (\<lambda>seg. bash_command_is_guarded_workspace_segment E seg workspace) workspace_ops
        (shell_operator E) mx tokens"
    by (simp add: bash_workspace_chain_validate_def chain_loop_eq_spec)
qed

section \<open>Lemmas on the command tables\<close>

lemma word_in_list_iff: "bash_word_in_list (Some w) words \<longleftrightarrow> w \<in> set words"
  by (auto simp: bash_word_in_list_def list_ex_iff)

lemma workspace_segment_facts:
  assumes "bash_command_is_guarded_workspace_segment E seg workspace"
  shows "seg \<noteq> []" "bash_path_under_root workspace (guard_write_root E)"
    "\<And>t. t \<in> set seg \<Longrightarrow> \<not> shell_operator E t \<and> bash_guarded_path_token_allowed E t workspace"
proof -
  show "seg \<noteq> []" "bash_path_under_root workspace (guard_write_root E)"
    using assms unfolding bash_command_is_guarded_workspace_segment_def
    by (auto split: if_splits)
  show "\<not> shell_operator E t \<and> bash_guarded_path_token_allowed E t workspace"
    if "t \<in> set seg" for t
    using assms that unfolding bash_command_is_guarded_workspace_segment_def
      bash_command_paths_stay_in_guarded_workspace_def
    by (auto split: if_splits simp: list_ex_iff list_all_iff)
qed

lemma path_token_confined:
  assumes "bash_guarded_path_token_allowed E t workspace" "bash_token_looks_path_like t"
  shows "bash_path_under_root (Some (normalize_path E t workspace)) (guard_write_root E)"
  using assms by (auto simp: bash_guarded_path_token_allowed_def
      bash_path_under_guard_write_root_def bash_token_looks_path_like_def split: if_splits)

text \<open>
  Three ways through the read-only table. The command is looked up by the last component of
  its path but run as written, so any executable called \<open>cat\<close> is a read-only command; the
  in-place switch of \<open>sed\<close> is recognised in its short form only; and \<open>branch\<close> and
  \<open>remote\<close> are accepted with whatever arguments follow.
\<close>

lemma readonly_table_gaps:
  assumes "\<And>t. \<not> shell_operator E t"
  shows "bash_command_is_readonly_exec E [''./evil/cat'', ''x''] w"
    "bash_command_is_readonly_exec E [''sed'', ''--in-place'', ''s/a/b/'', ''f''] w"
    "\<not> bash_command_is_readonly_exec E [''sed'', ''-i'', ''s/a/b/'', ''f''] w"
    "bash_command_is_readonly_exec E [''git'', ''branch'', ''-D'', ''main''] w"
  using assms by (simp_all add: bash_command_is_readonly_exec_def bash_basename_def
      word_in_list_iff readonly_commands_def bash_git_subcommand_is_readonly_def readonly_git_def
      Let_def)

section \<open>Properties\<close>

text \<open>C8. The read-only validator is exactly its specification: it accepts a token list, and
  returns that cut of it, if and only if every shell operator in it is one of the three
  allowed ones, every run of tokens between operators is non-empty and passes the read-only
  command test, and there are at most \<open>mx\<close> commands. Nothing else of the line decides.\<close>

theorem readonly_chain_iff:
  "bash_readonly_chain_validate E tokens mx w = Some (cmds, ops) \<longleftrightarrow>
     cmds = segments readonly_ops tokens \<and> ops = filter readonly_ops tokens
     \<and> (\<forall>t \<in> set tokens. shell_operator E t \<longrightarrow> readonly_ops t)
     \<and> (\<forall>s \<in> set cmds. s \<noteq> [] \<and> bash_command_is_readonly_exec E s w) \<and> length cmds \<le> mx"
  by (rule readonly_chain.validate_Some_iff)

theorem readonly_chain_iff_witness:
  "bash_readonly_chain_validate ref_env [''ls'', ''&&'', ''cat'', ''f'', ''|'', ''wc''] 32 (Some ''/ws'')
     = Some ([[''ls''], [''cat'', ''f''], [''wc'']], [''&&'', ''|''])"
  unfolding readonly_chain_iff
  by (simp add: readonly_ops_def ref_env_def bash_command_is_readonly_exec_def bash_basename_def
      word_in_list_iff readonly_commands_def Let_def)

text \<open>C9. A command line accepted for direct execution in the workspace stays in it: the
  commands and operators rejoin to the whole line, the working directory is under the
  writable root, no command contains a shell operator, and every token of every command that
  looks like a path normalises to the writable root or below.\<close>

theorem workspace_chain_confined:
  assumes "bash_workspace_chain_validate E tokens mx (Some w) = Some (cmds, ops)"
  shows "rejoin cmds ops = tokens \<and> cmds \<noteq> [] \<and> length cmds \<le> mx
    \<and> bash_path_under_root (Some w) (guard_write_root E)
    \<and> (\<forall>s \<in> set cmds. \<forall>t \<in> set s. \<not> shell_operator E t
         \<and> (bash_token_looks_path_like t \<longrightarrow>
              bash_path_under_root (Some (normalize_path E t (Some w))) (guard_write_root E)))"
proof -
  note v = workspace_chain.validate_sound [OF assms]
  have ne: "cmds \<noteq> []" using v(2) by auto
  have seg: "bash_command_is_guarded_workspace_segment E s (Some w)" if "s \<in> set cmds" for s
    using v(4) that by blast
  have root: "bash_path_under_root (Some w) (guard_write_root E)"
    using ne seg workspace_segment_facts(2) by (metis list.set_sel(1))
  have "\<not> shell_operator E t \<and> (bash_token_looks_path_like t \<longrightarrow>
      bash_path_under_root (Some (normalize_path E t (Some w))) (guard_write_root E))"
    if "s \<in> set cmds" "t \<in> set s" for s t
    using workspace_segment_facts(3) [OF seg [OF that(1)] that(2)] path_token_confined by blast
  then show ?thesis using v(1,3) ne root by blast
qed

theorem workspace_chain_confined_witness:
  "bash_workspace_chain_validate ref_env [''rm'', ''/ws/a''] 32 (Some ''/ws'') = Some ([[''rm'', ''/ws/a'']], [])
   \<and> bash_path_under_root (Some (normalize_path ref_env ''/ws/a'' (Some ''/ws''))) (guard_write_root ref_env)"
proof -
  have v: "bash_workspace_chain_validate ref_env [''rm'', ''/ws/a''] 32 (Some ''/ws'') =
      Some ([[''rm'', ''/ws/a'']], [])"
    by (simp add: bash_workspace_chain_validate_def workspace_ops_def ref_env_def
        bash_command_is_guarded_workspace_segment_def bash_path_under_root_def
        bash_command_paths_stay_in_guarded_workspace_def bash_guarded_path_token_allowed_def
        bash_token_looks_path_like_def bash_path_under_guard_write_root_def bash_basename_def Let_def)
  have "bash_token_looks_path_like ''/ws/a''"
    by (simp add: bash_token_looks_path_like_def)
  then show ?thesis
    using v workspace_chain_confined [OF v] by auto
qed

text \<open>The containment test respects path components: a path is under a root exactly when
  it is the root or the root, a slash and something more. A sibling that merely shares the
  root's name as a prefix is outside.\<close>

lemma path_under_root_iff:
  "bash_path_under_root (Some p) (Some r) \<longleftrightarrow> r \<noteq> [] \<and> (p = r \<or> (\<exists>s. p = r @ CHR ''/'' # s))"
  by (auto simp: bash_path_under_root_def prefix_def split: list.splits)

end
