(* ===== verification/Shell_Spec.thy ===== *)
theory Shell_Spec
  imports Main
begin

text \<open>
  What a POSIX shell does with a line of commands joined by \<open>|\<close>, \<open>&&\<close> and \<open>;\<close>: the grammar
  (a list of and-lists of pipelines of simple commands) and a big-step semantics on it. It is
  written from the shell's documentation and mentions nothing of the program; it is the
  specification against which the chain runners of \<open>Bash_Exec\<close> are judged.
\<close>

section \<open>Places and processes\<close>

text \<open>
  A place is where a process runs: the directory changes that led there, the last absolute
  one first. A process is an argument vector at a place.
\<close>

type_synonym place = "string list"

type_synonym process = "place \<times> string list"

definition cd_to :: "place \<Rightarrow> string \<Rightarrow> place" where
  "cd_to p d = (if take 1 d = ''/'' then [d] else p @ [d])"

text \<open>
  The outside of a shell: how the last process of a history ends (\<open>Inl\<close> an exit code,
  \<open>Inr\<close> a signal), and whether a place can be entered at that moment.
\<close>

record shell_env =
  sh_end :: "process list \<Rightarrow> nat + nat"
  sh_cd_ok :: "process list \<Rightarrow> place \<Rightarrow> bool"

fun sh_rc :: "nat + nat \<Rightarrow> int" where
  "sh_rc (Inl n) = int n"
| "sh_rc (Inr sig) = 128 + int sig"

section \<open>Grammar\<close>

type_synonym pipeline = "string list list"
type_synonym and_list = "pipeline list"
type_synonym shell_list = "and_list list"

text \<open>
  Reading a line from the right: \<open>|\<close> puts a command in front of the first pipeline, \<open>&&\<close> a
  new pipeline in front of the first and-list, \<open>;\<close> a new and-list in front of the list.
\<close>

fun sh_attach :: "string \<Rightarrow> string list \<Rightarrow> shell_list \<Rightarrow> shell_list" where
  "sh_attach op cmd ((pl # al) # l) =
     (if op = ''|'' then ((cmd # pl) # al) # l
      else if op = ''&&'' then ([cmd] # pl # al) # l
      else [[cmd]] # (pl # al) # l)"
| "sh_attach op cmd l = [[cmd]] # l"

fun sh_parse :: "string list list \<Rightarrow> string list \<Rightarrow> shell_list" where
  "sh_parse (cmd # cmds) (op # ops) = sh_attach op cmd (sh_parse cmds ops)"
| "sh_parse (cmd # cmds) [] = [[[cmd]]]"
| "sh_parse [] ops = []"

section \<open>Semantics\<close>

text \<open>The state of a shell: where it is and what it has started.\<close>

type_synonym shell_state = "place \<times> process list"

fun sh_simple :: "shell_env \<Rightarrow> string list \<Rightarrow> shell_state \<Rightarrow> int \<times> shell_state" where
  "sh_simple S cmd (p, ps) =
     (if length cmd = 2 \<and> hd cmd = ''cd'' then
        (if sh_cd_ok S ps (cd_to p (cmd ! 1)) then (0, (cd_to p (cmd ! 1), ps)) else (1, (p, ps)))
      else (let ps' = ps @ [(p, cmd)] in (sh_rc (sh_end S ps'), (p, ps'))))"

text \<open>
  The members of a pipeline run at the same time, each in a process of its own at the place of
  the shell, and the pipeline has the status of the last.
\<close>

fun sh_pipeline :: "shell_env \<Rightarrow> pipeline \<Rightarrow> shell_state \<Rightarrow> int \<times> shell_state" where
  "sh_pipeline S [cmd] st = sh_simple S cmd st"
| "sh_pipeline S cmds (p, ps) =
     (let ps' = ps @ map (Pair p) cmds in (sh_rc (sh_end S ps'), (p, ps')))"

text \<open>An and-list stops at the first pipeline that fails.\<close>

fun sh_and_list :: "shell_env \<Rightarrow> and_list \<Rightarrow> shell_state \<Rightarrow> int \<times> shell_state" where
  "sh_and_list S [] st = (0, st)"
| "sh_and_list S (pl # al) st =
     (case sh_pipeline S pl st of (rc, st') \<Rightarrow> if rc = 0 then sh_and_list S al st' else (rc, st'))"

text \<open>A list runs its and-lists one after the other and has the status of the last.\<close>

fun sh_list :: "shell_env \<Rightarrow> int \<Rightarrow> shell_list \<Rightarrow> shell_state \<Rightarrow> int \<times> shell_state" where
  "sh_list S rc [] st = (rc, st)"
| "sh_list S rc (al # l) st = (case sh_and_list S al st of (rc', st') \<Rightarrow> sh_list S rc' l st')"

text \<open>A shell run on a line: its exit status is a byte.\<close>

definition sh_run :: "shell_env \<Rightarrow> shell_list \<Rightarrow> shell_state \<Rightarrow> int \<times> shell_state" where
  "sh_run S l st = (case sh_list S 0 l st of (rc, st') \<Rightarrow> (rc mod 256, st'))"

text \<open>Reading loses no command, and never makes an empty pipeline or and-list.\<close>

lemma sh_attach_shape:
  assumes "l = [] \<or> ([] \<notin> set l \<and> (\<forall>al \<in> set l. [] \<notin> set al))"
  shows "sh_attach op cmd l \<noteq> []" "[] \<notin> set (sh_attach op cmd l)"
    "al \<in> set (sh_attach op cmd l) \<Longrightarrow> [] \<notin> set al"
  using assms by (induction op cmd l rule: sh_attach.induct) (auto split: if_splits)

lemma sh_attach_cmds:
  "[] \<notin> set l \<Longrightarrow> concat (concat (sh_attach op cmd l)) = cmd # concat (concat l)"
  by (induction op cmd l rule: sh_attach.induct) auto

lemma sh_parse_shape:
  "[] \<notin> set (sh_parse cmds ops) \<and> (\<forall>al \<in> set (sh_parse cmds ops). [] \<notin> set al)"
proof (induction cmds ops rule: sh_parse.induct)
  case (1 cmd cmds op ops)
  then have l: "sh_parse cmds ops = [] \<or> ([] \<notin> set (sh_parse cmds ops)
      \<and> (\<forall>al \<in> set (sh_parse cmds ops). [] \<notin> set al))" by blast
  from sh_attach_shape(2,3) [OF l] show ?case by simp
qed auto

lemma sh_parse_cmds:
  "length cmds = length ops + 1 \<Longrightarrow> concat (concat (sh_parse cmds ops)) = cmds"
proof (induction cmds ops rule: sh_parse.induct)
  case (1 cmd cmds op ops)
  with sh_parse_shape [of cmds ops] show ?case by (simp add: sh_attach_cmds)
qed auto

end
