(* ===== verification/Bash_Exec.thy ===== *)
theory Bash_Exec
  imports Bash_Policy Shell_Spec
begin

text \<open>
  How a validated chain runs in the forked child (\<open>agent_tools.c\<close>, lines 317 to 445 and the
  child branches of \<open>guarded_readonly_exec\<close> and \<open>guarded_workspace_exec\<close>): single commands,
  pipelines, \<open>cd\<close>, and the loop over \<open>&&\<close>, \<open>;\<close> and \<open>|\<close>. The child's own history is the list of
  the processes it forked and the directories it changed to. Read through \<open>locate\<close>, which
  turns a history into a place and the processes with theirs, the loops are compared with the
  shell of \<open>Shell_Spec\<close>.
\<close>

section \<open>The child's world\<close>

text \<open>
  A forked command may first change to a directory of its own; the result of that
  \<open>chdir\<close> is ignored, so where it fails the command runs where the child is.
\<close>

datatype child_event = Forked "string option" "string list" | Chdir string

type_synonym child_trace = "child_event list"

record child_env =
  c_pipe_ok :: "child_trace \<Rightarrow> bool"
  c_fork_ok :: "child_trace \<Rightarrow> bool"
  c_wait :: "child_trace \<Rightarrow> string list \<Rightarrow> wait_status"
  c_chdir_ok :: "child_trace \<Rightarrow> string \<Rightarrow> bool"

fun wait_rc :: "wait_status \<Rightarrow> int" where
  "wait_rc (Exited n) = n"
| "wait_rc (Signaled n) = 128 + n"
| "wait_rc OtherStatus = 127"
| "wait_rc WaitFailed = 127"

text \<open>\<open>if (workspace && workspace[0]) (void)chdir(workspace)\<close>: the directory changed to, if any.\<close>

definition chdir_workspace :: "child_env \<Rightarrow> string option \<Rightarrow> child_trace \<Rightarrow> string option" where
  "chdir_workspace C workspace h =
     (if nonempty workspace \<and> c_chdir_ok C h (the workspace) then workspace else None)"

section \<open>Commands, pipelines, cd\<close>

text \<open>
  Starting the members of a pipeline from the left; the flag tells whether all were started.
\<close>

fun pipeline_start :: "child_env \<Rightarrow> string option \<Rightarrow> string list list \<Rightarrow> child_trace
    \<Rightarrow> bool \<times> child_trace" where
  "pipeline_start C workspace [] h = (True, h)"
| "pipeline_start C workspace (cmd # cmds) h =
     (if cmds \<noteq> [] \<and> \<not> c_pipe_ok C h then (False, h)
      else if hd cmd = ''cd'' then (False, h)
      else if \<not> c_fork_ok C h then (False, h)
      else pipeline_start C workspace cmds (h @ [Forked (chdir_workspace C workspace h) cmd]))"

text \<open>The result is the status of the last member; a pipeline that could not be set up is 127.\<close>

definition bash_exec_readonly_pipeline :: "child_env \<Rightarrow> string list list \<Rightarrow> string option
    \<Rightarrow> child_trace \<Rightarrow> int \<times> child_trace" where
  "bash_exec_readonly_pipeline C cmds workspace h =
     (case pipeline_start C workspace cmds h of
        (False, h') \<Rightarrow> (127, h')
      | (True, h') \<Rightarrow> (wait_rc (c_wait C h' (last cmds)), h'))"

definition bash_exec_readonly_segment :: "child_env \<Rightarrow> string list \<Rightarrow> string option
    \<Rightarrow> child_trace \<Rightarrow> int \<times> child_trace" where
  "bash_exec_readonly_segment C cmd workspace h =
     (if \<not> c_fork_ok C h then (127, h)
      else let h' = h @ [Forked (chdir_workspace C workspace h) cmd] in
        (wait_rc (c_wait C h' cmd), h'))"

text \<open>-1 is: not a permitted \<open>cd\<close>.\<close>

definition bash_exec_readonly_cd :: "child_env \<Rightarrow> env \<Rightarrow> string list \<Rightarrow> string option
    \<Rightarrow> child_trace \<Rightarrow> int \<times> child_trace" where
  "bash_exec_readonly_cd C E cmd workspace h =
     (if length cmd \<noteq> 2 \<or> cmd ! 0 \<noteq> ''cd''
         \<or> \<not> bash_path_under_guard_write_root E (cmd ! 1) workspace
      then (-1, h)
      else if c_chdir_ok C h (cmd ! 1) then (0, h @ [Chdir (cmd ! 1)]) else (1, h))"

section \<open>The loops over a chain\<close>

text \<open>A chain as its commands with the operator before each; the first has none.\<close>

definition chain_items :: "chain \<Rightarrow> (string option \<times> string list) list" where
  "chain_items c = zip (None # map Some (snd c)) (fst c)"

abbreviation is_pipe :: "string option \<times> string list \<Rightarrow> bool" where
  "is_pipe x \<equiv> fst x = Some ''|''"

text \<open>One command of the read-only loop: \<open>cd\<close> if it is one, else a process.\<close>

definition run_single :: "child_env \<Rightarrow> env \<Rightarrow> string option \<Rightarrow> string list \<Rightarrow> child_trace
    \<Rightarrow> int \<times> child_trace" where
  "run_single C E workspace cmd h =
     (case bash_exec_readonly_cd C E cmd workspace h of (rc, h') \<Rightarrow>
        if rc < 0 then bash_exec_readonly_segment C cmd None h' else (rc, h'))"

function readonly_chain_run :: "child_env \<Rightarrow> env \<Rightarrow> string option \<Rightarrow> int
    \<Rightarrow> (string option \<times> string list) list \<Rightarrow> child_trace \<Rightarrow> int \<times> child_trace" where
  "readonly_chain_run C E workspace last_rc [] h = (last_rc, h)"
| "readonly_chain_run C E workspace last_rc ((op, cmd) # items) h =
     (if op = Some ''&&'' \<and> last_rc \<noteq> 0 then readonly_chain_run C E workspace last_rc items h
      else if takeWhile is_pipe items \<noteq> [] then
        (case bash_exec_readonly_pipeline C (cmd # map snd (takeWhile is_pipe items)) workspace h of
           (rc, h') \<Rightarrow> readonly_chain_run C E workspace rc (dropWhile is_pipe items) h')
      else
        (case run_single C E workspace cmd h of
           (rc, h') \<Rightarrow> readonly_chain_run C E workspace rc items h'))"
  by pat_completeness auto
termination
  by (relation "measure (\<lambda>(C, E, w, r, items, h). length items)")
     (auto simp: le_imp_less_Suc length_dropWhile_le)

fun workspace_chain_run :: "child_env \<Rightarrow> int \<Rightarrow> (string option \<times> string list) list
    \<Rightarrow> child_trace \<Rightarrow> int \<times> child_trace" where
  "workspace_chain_run C last_rc [] h = (last_rc, h)"
| "workspace_chain_run C last_rc ((op, cmd) # items) h =
     (if op = Some ''&&'' \<and> last_rc \<noteq> 0 then workspace_chain_run C last_rc items h
      else (case bash_exec_readonly_segment C cmd None h of
              (rc, h') \<Rightarrow> workspace_chain_run C rc items h'))"

definition enter_workspace :: "child_env \<Rightarrow> string option \<Rightarrow> child_trace \<Rightarrow> child_trace" where
  "enter_workspace C workspace h =
     (case chdir_workspace C workspace h of None \<Rightarrow> h | Some d \<Rightarrow> h @ [Chdir d])"

text \<open>
  The child of \<open>guarded_readonly_exec\<close>, after it has changed to the workspace: a lone \<open>cd\<close>
  exits with its result, a lone command replaces the child, anything longer runs the loop.
  The exit status is a byte.
\<close>

definition readonly_child :: "child_env \<Rightarrow> env \<Rightarrow> string option \<Rightarrow> chain \<Rightarrow> child_trace
    \<Rightarrow> int \<times> child_trace" where
  "readonly_child C E workspace c h0 =
     (let h = enter_workspace C workspace h0 in
      case fst c of
        [cmd] \<Rightarrow>
          if length cmd = 2 \<and> cmd ! 0 = ''cd'' then
            (case bash_exec_readonly_cd C E cmd workspace h of (rc, h') \<Rightarrow> (rc mod 256, h'))
          else (let h' = h @ [Forked None cmd] in (wait_rc (c_wait C h' cmd), h'))
      | _ \<Rightarrow>
          (case readonly_chain_run C E workspace 0 (chain_items c) h of (rc, h') \<Rightarrow> (rc mod 256, h')))"

definition workspace_child :: "child_env \<Rightarrow> string option \<Rightarrow> chain \<Rightarrow> child_trace
    \<Rightarrow> int \<times> child_trace" where
  "workspace_child C workspace c h0 =
     (let h = enter_workspace C workspace h0 in
      case workspace_chain_run C 0 (chain_items c) h of (rc, h') \<Rightarrow> (rc mod 256, h'))"

section \<open>From a command line to a chain\<close>

text \<open>The parent's half: \<open>Inl\<close> is the message left in \<open>errbuf\<close>.\<close>

definition guarded_readonly_exec :: "env \<Rightarrow> string \<Rightarrow> string option \<Rightarrow> string + chain" where
  "guarded_readonly_exec E command workspace =
     (let tokens = shlex_split E command 64 in
      if tokens = [] then Inl ''empty command''
      else case (if length tokens < 64 then bash_readonly_chain_validate E tokens 32 workspace else None) of
             None \<Rightarrow> Inl ''command is not eligible for read-only direct execution''
           | Some c \<Rightarrow> Inr c)"

definition guarded_workspace_exec :: "env \<Rightarrow> string \<Rightarrow> string option \<Rightarrow> string + chain" where
  "guarded_workspace_exec E command workspace =
     (let tokens = shlex_split E command 64 in
      if tokens = [] then Inl ''empty command''
      else case (if length tokens < 64 then bash_workspace_chain_validate E tokens 32 workspace else None) of
             None \<Rightarrow> Inl ''command is not eligible for guarded workspace execution''
           | Some c \<Rightarrow> Inr c)"

lemma guarded_readonly_commands:
  assumes "guarded_readonly_exec E command w = Inr c"
  shows "cmd \<in> set (fst c) \<Longrightarrow> bash_command_is_readonly_exec E cmd w"
    "length (fst c) = length (snd c) + 1"
proof -
  have v: "bash_readonly_chain_validate E (shlex_split E command 64) 32 w = Some (fst c, snd c)"
    using assms by (auto simp: guarded_readonly_exec_def Let_def split: if_splits option.splits)
  show "bash_command_is_readonly_exec E cmd w" if "cmd \<in> set (fst c)"
    using readonly_chain.validate_sound(4) [OF v that] by blast
  show "length (fst c) = length (snd c) + 1"
    using readonly_chain.validate_sound(2) [OF v] .
qed

lemma guarded_workspace_commands:
  assumes "guarded_workspace_exec E command w = Inr c"
  shows "cmd \<in> set (fst c) \<Longrightarrow> bash_command_is_guarded_workspace_segment E cmd w"
    "length (snd c) + 1 = length (fst c)" "bash_path_under_root w (guard_write_root E)"
    "op \<in> set (snd c) \<Longrightarrow> workspace_ops op"
proof -
  have v: "bash_workspace_chain_validate E (shlex_split E command 64) 32 w = Some (fst c, snd c)"
    using assms by (auto simp: guarded_workspace_exec_def Let_def split: if_splits option.splits)
  show seg: "bash_command_is_guarded_workspace_segment E cmd w" if "cmd \<in> set (fst c)" for cmd
    using workspace_chain.validate_sound(4) [OF v that] by blast
  show "workspace_ops op" if "op \<in> set (snd c)"
    using workspace_chain.validate_sound(5) [OF v that] .
  show len: "length (snd c) + 1 = length (fst c)"
    using workspace_chain.validate_sound(2) [OF v] by simp
  then obtain cmd where "cmd \<in> set (fst c)" by (metis add_is_0 all_not_in_conv length_0_conv set_empty zero_neq_one)
  from workspace_segment_facts(2) [OF seg [OF this]] show "bash_path_under_root w (guard_write_root E)" .
qed

section \<open>Where the processes run\<close>

fun locate_step :: "shell_state \<Rightarrow> child_event \<Rightarrow> shell_state" where
  "locate_step (p, ps) (Forked None cmd) = (p, ps @ [(p, cmd)])"
| "locate_step (p, ps) (Forked (Some d) cmd) = (p, ps @ [(cd_to p d, cmd)])"
| "locate_step (p, ps) (Chdir d) = (cd_to p d, ps)"

text \<open>The place of the child after a history and the processes it started, with theirs.\<close>

definition locate :: "shell_state \<Rightarrow> child_trace \<Rightarrow> shell_state" where
  "locate st h = foldl locate_step st h"

lemma locate_simps [simp]:
  "locate st [] = st"
  "locate st (h @ h') = locate (locate st h) h'"
  "locate st (e # h) = locate (locate_step st e) h"
  by (simp_all add: locate_def)

text \<open>
  The child's world when the outside is the one of a shell that starts in \<open>st\<close>: pipes and
  forks succeed, processes end as they do for the shell, places can be entered or not.
\<close>

fun ended :: "nat + nat \<Rightarrow> wait_status" where
  "ended (Inl n) = Exited (int n)"
| "ended (Inr sig) = Signaled (int sig)"

definition child_of :: "shell_env \<Rightarrow> shell_state \<Rightarrow> child_env" where
  "child_of S st =
     \<lparr>c_pipe_ok = (\<lambda>_. True), c_fork_ok = (\<lambda>_. True),
      c_wait = (\<lambda>h cmd. ended (sh_end S (snd (locate st h)))),
      c_chdir_ok = (\<lambda>h d. sh_cd_ok S (snd (locate st h)) (cd_to (fst (locate st h)) d))\<rparr>"

text \<open>What a run of the child is to a shell: an exit status, a place and processes.\<close>

definition shell_view :: "shell_state \<Rightarrow> int \<times> child_trace \<Rightarrow> int \<times> shell_state" where
  "shell_view st r = (fst r mod 256, locate st (snd r))"

lemma child_of_simps [simp]:
  "c_pipe_ok (child_of S st) h" "c_fork_ok (child_of S st) h"
  "wait_rc (c_wait (child_of S st) h cmd) = sh_rc (sh_end S (snd (locate st h)))"
  "c_chdir_ok (child_of S st) h d \<longleftrightarrow> sh_cd_ok S (snd (locate st h)) (cd_to (fst (locate st h)) d)"
  by (cases "sh_end S (snd (locate st h))"; simp add: child_of_def)+

section \<open>The loop over pipelines\<close>

text \<open>The flat list of commands with the members of a pipeline put together.\<close>

function group_pipes :: "(string option \<times> string list) list
    \<Rightarrow> (string option \<times> string list list) list" where
  "group_pipes [] = []"
| "group_pipes ((op, cmd) # items) =
     (op, cmd # map snd (takeWhile is_pipe items)) # group_pipes (dropWhile is_pipe items)"
  by pat_completeness auto
termination
  by (relation "measure length") (auto simp: le_imp_less_Suc length_dropWhile_le)

definition run_group :: "child_env \<Rightarrow> env \<Rightarrow> string option \<Rightarrow> string list list \<Rightarrow> child_trace
    \<Rightarrow> int \<times> child_trace" where
  "run_group C E workspace cmds h =
     (case cmds of [cmd] \<Rightarrow> run_single C E workspace cmd h
                 | _ \<Rightarrow> bash_exec_readonly_pipeline C cmds workspace h)"

text \<open>
  The loop over pipelines instead of commands: a step of the proof that the loop is a shell,
  not its specification.
\<close>

fun grouped_run :: "child_env \<Rightarrow> env \<Rightarrow> string option \<Rightarrow> int
    \<Rightarrow> (string option \<times> string list list) list \<Rightarrow> child_trace \<Rightarrow> int \<times> child_trace" where
  "grouped_run C E workspace last_rc [] h = (last_rc, h)"
| "grouped_run C E workspace last_rc ((op, cmds) # items) h =
     (if op = Some ''&&'' \<and> last_rc \<noteq> 0 then grouped_run C E workspace last_rc items h
      else (case run_group C E workspace cmds h of
              (rc, h') \<Rightarrow> grouped_run C E workspace rc items h'))"

definition no_guarded_pipeline :: "(string option \<times> string list) list \<Rightarrow> bool" where
  "no_guarded_pipeline items \<longleftrightarrow>
     (\<forall>(op, cmds) \<in> set (group_pipes items). op = Some ''&&'' \<longrightarrow> length cmds = 1)"

lemma no_guarded_pipeline_Cons:
  "no_guarded_pipeline ((op, cmd) # items) \<longleftrightarrow>
     (op = Some ''&&'' \<longrightarrow> takeWhile is_pipe items = []) \<and> no_guarded_pipeline (dropWhile is_pipe items)"
  by (simp add: no_guarded_pipeline_def)

lemma dropWhile_no_take: "takeWhile P xs = [] \<Longrightarrow> dropWhile P xs = xs"
  by (metis append_Nil takeWhile_dropWhile_id)

lemma readonly_chain_run_grouped:
  "no_guarded_pipeline items \<Longrightarrow>
     readonly_chain_run C E workspace rc items h = grouped_run C E workspace rc (group_pipes items) h"
proof (induction C E workspace rc items h rule: readonly_chain_run.induct)
  case (1 C E workspace rc h)
  then show ?case by simp
next
  case (2 C E workspace rc op cmd items h)
  let ?ps = "takeWhile is_pipe items" and ?rest = "dropWhile is_pipe items"
  have g: "group_pipes ((op, cmd) # items) = (op, cmd # map snd ?ps) # group_pipes ?rest"
    by simp
  have np: "no_guarded_pipeline ?rest" "op = Some ''&&'' \<Longrightarrow> ?ps = []"
    using "2.prems" unfolding no_guarded_pipeline_Cons by blast+
  show ?case
  proof (cases "op = Some ''&&'' \<and> rc \<noteq> 0")
    case True
    then have "?rest = items" using np(2) by (simp add: dropWhile_no_take)
    then show ?thesis using True "2.IH"(1) [OF True] np(1) g by simp
  next
    case False
    show ?thesis
    proof (cases "?ps = []")
      case True
      then have r: "?rest = items" by (simp add: dropWhile_no_take)
      obtain rc' h' where s: "run_single C E workspace cmd h = (rc', h')" by fastforce
      have "readonly_chain_run C E workspace rc' items h' =
          grouped_run C E workspace rc' (group_pipes items) h'"
        using "2.IH"(3) [OF False] True s np(1) r by simp
      then show ?thesis
        using False True s r g by (auto simp: run_group_def)
    next
      case ps: False
      then obtain p ps where p: "map snd ?ps = p # ps" by (cases ?ps) auto
      obtain rc' h' where s: "bash_exec_readonly_pipeline C (cmd # map snd ?ps) workspace h = (rc', h')"
        by fastforce
      have "readonly_chain_run C E workspace rc' ?rest h' =
          grouped_run C E workspace rc' (group_pipes ?rest) h'"
        using "2.IH"(2) [OF False ps s [symmetric]] s np(1) by simp
      then show ?thesis
        using False ps s g p by (auto simp: run_group_def)
    qed
  qed
qed


section \<open>The loop is a shell\<close>

text \<open>
  The commands the validators let through: no empty one, and a \<open>cd\<close> has one permitted operand.
\<close>

definition runnable :: "env \<Rightarrow> string option \<Rightarrow> string list \<Rightarrow> bool" where
  "runnable E w cmd \<longleftrightarrow> cmd \<noteq> []
     \<and> (hd cmd = ''cd'' \<longrightarrow> length cmd = 2 \<and> bash_path_under_guard_write_root E (cmd ! 1) w)"

lemma bash_basename_cd: "bash_basename ''cd'' = ''cd''"
  by (simp add: bash_basename_def)

lemma readonly_exec_runnable:
  "bash_command_is_readonly_exec E cmd w \<Longrightarrow> runnable E w cmd"
  by (auto simp: bash_command_is_readonly_exec_def runnable_def bash_basename_cd Let_def
      split: if_splits)

lemma workspace_segment_no_cd:
  assumes "bash_command_is_guarded_workspace_segment E cmd w"
  shows "cmd \<noteq> []" "hd cmd \<noteq> ''cd''"
  using assms
  by (auto simp: bash_command_is_guarded_workspace_segment_def bash_basename_cd Let_def
      split: if_splits)

lemma run_single_shell:
  assumes "runnable E w cmd" "run_single (child_of S st) E w cmd h = (rc, h')"
  shows "sh_simple S cmd (locate st h) = (rc, locate st h')"
proof (cases "hd cmd = ''cd''")
  case True
  then have "length cmd = 2" "cmd ! 0 = ''cd''" "bash_path_under_guard_write_root E (cmd ! 1) w"
    using assms(1) by (auto simp: runnable_def hd_conv_nth)
  then show ?thesis using True assms(2)
    by (cases "locate st h")
       (auto simp: run_single_def bash_exec_readonly_cd_def split: if_splits)
next
  case False
  then have "\<not> (length cmd = 2 \<and> cmd ! 0 = ''cd'')"
    using assms(1) by (auto simp: runnable_def hd_conv_nth)
  then show ?thesis using False assms(2)
    by (cases "locate st h")
       (auto simp: run_single_def bash_exec_readonly_cd_def bash_exec_readonly_segment_def
          chdir_workspace_def Let_def)
qed

lemma pipeline_start_shell:
  assumes "take 1 d = ''/''" "\<forall>cmd \<in> set cmds. hd cmd \<noteq> ''cd''"
    "locate st h = ([d], ps)"
  shows "\<exists>h'. pipeline_start (child_of S st) (Some d) cmds h = (True, h')
    \<and> locate st h' = ([d], ps @ map (Pair [d]) cmds)"
  using assms(2,3)
proof (induction cmds arbitrary: h ps)
  case (Cons cmd cmds)
  let ?h = "h @ [Forked (chdir_workspace (child_of S st) (Some d) h) cmd]"
  have l: "locate st ?h = ([d], ps @ [([d], cmd)])"
    using Cons.prems(2) assms(1) by (auto simp: chdir_workspace_def cd_to_def)
  have "\<exists>h'. pipeline_start (child_of S st) (Some d) cmds ?h = (True, h')
      \<and> locate st h' = ([d], (ps @ [([d], cmd)]) @ map (Pair [d]) cmds)"
    by (rule Cons.IH [OF _ l]) (use Cons.prems(1) in auto)
  then show ?case using Cons.prems(1) by auto
qed simp

lemma run_group_shell:
  assumes "take 1 d = ''/''" "pl \<noteq> []" "\<forall>cmd \<in> set pl. runnable E (Some d) cmd"
    and pipe: "length pl \<noteq> 1 \<longrightarrow> fst (locate st h) = [d] \<and> (\<forall>cmd \<in> set pl. hd cmd \<noteq> ''cd'')"
    and run: "run_group (child_of S st) E (Some d) pl h = (rc, h')"
  shows "sh_pipeline S pl (locate st h) = (rc, locate st h')"
    "\<not> (length pl = 1 \<and> hd (hd pl) = ''cd'') \<Longrightarrow> fst (locate st h') = fst (locate st h)"
proof -
  have "sh_pipeline S pl (locate st h) = (rc, locate st h')
    \<and> (\<not> (length pl = 1 \<and> hd (hd pl) = ''cd'') \<longrightarrow> fst (locate st h') = fst (locate st h))"
  proof (cases "\<exists>cmd. pl = [cmd]")
    case True
    then obtain cmd where pl: "pl = [cmd]" by blast
    then have s: "sh_simple S cmd (locate st h) = (rc, locate st h')"
      using run assms(3) run_single_shell [of E "Some d" cmd S st h rc h']
      by (simp add: run_group_def)
    have "hd cmd \<noteq> ''cd'' \<longrightarrow> fst (locate st h') = fst (locate st h)"
      using s by (cases "locate st h"; cases "locate st h'") (auto simp: Let_def)
    with s pl show ?thesis by simp
  next
    case False
    then obtain a b cs where pl: "pl = a # b # cs"
      using assms(2) by (metis neq_Nil_conv)
    obtain ps where at: "locate st h = ([d], ps)" and ncd: "\<forall>cmd \<in> set pl. hd cmd \<noteq> ''cd''"
      using pipe pl by (cases "locate st h") auto
    from pipeline_start_shell [OF assms(1) ncd at, of S] obtain h2 where
      h2: "pipeline_start (child_of S st) (Some d) pl h = (True, h2)"
        "locate st h2 = ([d], ps @ map (Pair [d]) pl)" by auto
    with run pl have "h' = h2" "rc = sh_rc (sh_end S (ps @ map (Pair [d]) pl))"
      by (simp_all add: run_group_def bash_exec_readonly_pipeline_def del: pipeline_start.simps)
    with h2 at pl show ?thesis by (simp add: Let_def)
  qed
  then show "sh_pipeline S pl (locate st h) = (rc, locate st h')"
    "\<not> (length pl = 1 \<and> hd (hd pl) = ''cd'') \<Longrightarrow> fst (locate st h') = fst (locate st h)"
    by blast+
qed

text \<open>
  A pipeline of several commands changes back to the workspace in each member; that is what a
  shell does as long as no \<open>cd\<close> went before, and none is a member.
\<close>

fun pipes_then_cd :: "pipeline list \<Rightarrow> bool" where
  "pipes_then_cd [] = True"
| "pipes_then_cd (pl # pls) =
     ((if length pl = 1 then hd (hd pl) = ''cd'' \<longrightarrow> list_all (\<lambda>pl. length pl = 1) pls
       else list_all (\<lambda>cmd. hd cmd \<noteq> ''cd'') pl) \<and> pipes_then_cd pls)"

abbreviation is_and :: "string option \<times> 'a \<Rightarrow> bool" where
  "is_and x \<equiv> fst x = Some ''&&''"

function group_ands :: "(string option \<times> pipeline) list \<Rightarrow> shell_list" where
  "group_ands [] = []"
| "group_ands ((op, pl) # g) = (pl # map snd (takeWhile is_and g)) # group_ands (dropWhile is_and g)"
  by pat_completeness auto
termination
  by (relation "measure length") (auto simp: le_imp_less_Suc length_dropWhile_le)

lemma grouped_run_shell:
  assumes "take 1 d = ''/''"
    "\<forall>(op, pl) \<in> set g. pl \<noteq> [] \<and> (\<forall>cmd \<in> set pl. runnable E (Some d) cmd)"
    "pipes_then_cd (map snd g)"
    "list_all (\<lambda>x. length (snd x) = 1) g \<or> fst (locate st h) = [d]"
    "grouped_run (child_of S st) E (Some d) rc g h = (rc', h')"
  shows "(rc', locate st h') =
    (case (if rc = 0 then sh_and_list S (map snd (takeWhile is_and g)) (locate st h)
           else (rc, locate st h)) of
       (rc1, st1) \<Rightarrow> sh_list S rc1 (group_ands (dropWhile is_and g)) st1)"
  using assms(2-)
proof (induction g arbitrary: rc h)
  case Nil
  then show ?case by simp
next
  case (Cons x g)
  obtain op pl where x: "x = (op, pl)" by fastforce
  let ?al = "map snd (takeWhile is_and g)" and ?l = "group_ands (dropWhile is_and g)"
  have wf: "\<forall>(op, pl) \<in> set g. pl \<noteq> [] \<and> (\<forall>cmd \<in> set pl. runnable E (Some d) cmd)"
    using Cons.prems(1) by auto
  have pcd: "pipes_then_cd (map snd g)" using Cons.prems(2) by simp
  show ?case
  proof (cases "op = Some ''&&'' \<and> rc \<noteq> 0")
    case True
    have "list_all (\<lambda>x. length (snd x) = 1) g \<or> fst (locate st h) = [d]" using Cons.prems(3) by auto
    from Cons.IH [OF wf pcd this] Cons.prems(4) True x show ?thesis by simp
  next
    case False
    obtain rc1 h1 where r: "run_group (child_of S st) E (Some d) pl h = (rc1, h1)" by fastforce
    have pipe: "length pl \<noteq> 1 \<longrightarrow> fst (locate st h) = [d] \<and> (\<forall>cmd \<in> set pl. hd cmd \<noteq> ''cd'')"
      using Cons.prems(2,3) x by (auto simp: list_all_iff)
    have pl: "pl \<noteq> []" "\<forall>cmd \<in> set pl. runnable E (Some d) cmd"
      using Cons.prems(1) x by auto
    note sh = run_group_shell [OF assms(1) pl pipe r]
    have at: "list_all (\<lambda>x. length (snd x) = 1) g \<or> fst (locate st h1) = [d]"
    proof (cases "length pl = 1 \<and> hd (hd pl) = ''cd''")
      case True
      then show ?thesis using Cons.prems(2) x by (simp add: list.pred_map comp_def)
    next
      case False
      then show ?thesis using sh(2) Cons.prems(3) by auto
    qed
    have "grouped_run (child_of S st) E (Some d) rc1 g h1 = (rc', h')"
      using Cons.prems(4) False x r by auto
    from Cons.IH [OF wf pcd at this]
    have tail: "(rc', locate st h') =
      (case sh_and_list S (pl # ?al) (locate st h) of (rc2, st2) \<Rightarrow> sh_list S rc2 ?l st2)"
      by (simp only: sh_and_list.simps sh(1) prod.case)
    show ?thesis
    proof (cases "op = Some ''&&''")
      case True
      with False have "rc = 0" by simp
      with True x tail show ?thesis by simp
    next
      case op: False
      with x tail show ?thesis by (auto split: prod.splits)
    qed
  qed
qed


lemma sh_parse_groups:
  "length cmds = length ops + 1 \<Longrightarrow>
     sh_parse cmds ops = group_ands (group_pipes (zip (x # map Some ops) cmds))"
proof (induction cmds ops arbitrary: x rule: sh_parse.induct)
  case (1 cmd cmds op ops)
  then obtain c' cs where cmds: "cmds = c' # cs" by (cases cmds) auto
  let ?rest = "zip (map Some ops) cs"
  have "sh_parse cmds ops = group_ands (group_pipes (zip (Some op # map Some ops) cmds))"
    using 1 by simp
  then show ?case by (auto simp: cmds)
qed (auto simp: length_Suc_conv)

lemma concat_group_ands: "concat (group_ands g) = map snd g"
proof (induction g rule: group_ands.induct)
  case (2 op pl g)
  then show ?case
    by simp (metis map_append takeWhile_dropWhile_id)
qed simp

lemma group_pipes_cmds:
  "(op, pl) \<in> set (group_pipes items) \<Longrightarrow> pl \<noteq> [] \<and> set pl \<subseteq> snd ` set items"
proof (induction items rule: group_pipes.induct)
  case (2 op' cmd items)
  let ?t = "takeWhile is_pipe items" and ?d = "dropWhile is_pipe items"
  have "set ?t \<subseteq> set items" "set ?d \<subseteq> set items"
    by (auto dest: set_takeWhileD set_dropWhileD)
  then have sub: "snd ` set ?t \<subseteq> snd ` set items" "snd ` set ?d \<subseteq> snd ` set items"
    by (simp_all add: image_mono)
  consider "pl = cmd # map snd ?t" | "(op, pl) \<in> set (group_pipes ?d)"
    using "2.prems" by auto
  then show ?case
  proof cases
    case 1
    then show ?thesis using sub(1) by auto
  next
    case 2
    from "2.IH" [OF this] sub(2) have "pl \<noteq> [] \<and> set pl \<subseteq> snd ` set items" by blast
    then show ?thesis by auto
  qed
qed simp

text \<open>
  The lines on which the loop is a shell: behind \<open>&&\<close> stand single commands only, no
  pipeline of several commands has a \<open>cd\<close> before it or in it, and no \<open>cd\<close> has an option or
  \<open>-\<close> for an operand, which the shell would not take as a path.
\<close>

definition cd_of_path :: "string list \<Rightarrow> bool" where
  "cd_of_path cmd \<longleftrightarrow> (hd cmd = ''cd'' \<longrightarrow> take 1 (cmd ! 1) \<noteq> ''-'')"

definition loop_form :: "shell_list \<Rightarrow> bool" where
  "loop_form L \<longleftrightarrow> list_all (\<lambda>al. list_all (\<lambda>pl. length pl = 1) (tl al)) L \<and> pipes_then_cd (concat L)
     \<and> list_all cd_of_path (concat (concat L))"

lemma group_ands_guarded:
  "list_all (\<lambda>al. list_all (\<lambda>pl. length pl = 1) (tl al)) (group_ands g) \<Longrightarrow>
   g \<noteq> [] \<longrightarrow> \<not> is_and (hd g) \<Longrightarrow> (op, pl) \<in> set g \<Longrightarrow> op = Some ''&&'' \<Longrightarrow> length pl = 1"
proof (induction g rule: group_ands.induct)
  case (2 op' pl' g)
  let ?t = "takeWhile is_and g" and ?d = "dropWhile is_and g"
  have all: "list_all (\<lambda>pl. length pl = 1) (map snd ?t)"
    "list_all (\<lambda>al. list_all (\<lambda>pl. length pl = 1) (tl al)) (group_ands ?d)"
    using "2.prems"(1) by simp_all
  have d: "?d \<noteq> [] \<longrightarrow> \<not> is_and (hd ?d)" using hd_dropWhile [of is_and g] by auto
  have "(op, pl) \<in> set g" using "2.prems"(2,3,4) by auto
  then have "(op, pl) \<in> set ?t \<or> (op, pl) \<in> set ?d"
    by (metis Un_iff set_append takeWhile_dropWhile_id)
  then show ?case
  proof
    assume "(op, pl) \<in> set ?t"
    then show ?thesis using all(1) by (auto simp: list_all_iff)
  next
    assume "(op, pl) \<in> set ?d"
    then show ?thesis using "2.IH" [OF all(2) d] "2.prems"(4) by blast
  qed
qed simp

lemma chain_items_cmds: "snd ` set (chain_items c) \<subseteq> set (fst c)"
  by (auto simp: chain_items_def dest: set_zip_rightD)

lemma chain_run_shell:
  assumes w: "take 1 w = ''/''" and len: "length cmds = length ops + 1"
    and cmds: "\<forall>cmd \<in> set cmds. runnable E (Some w) cmd"
    and form: "loop_form (sh_parse cmds ops)"
    and at: "fst (locate st h) = [w]"
    and run: "readonly_chain_run (child_of S st) E (Some w) 0 (chain_items (cmds, ops)) h = (rc, h')"
  shows "sh_list S 0 (sh_parse cmds ops) (locate st h) = (rc, locate st h')"
proof -
  let ?items = "chain_items (cmds, ops)"
  let ?g = "group_pipes ?items"
  have L: "sh_parse cmds ops = group_ands ?g"
    using sh_parse_groups [OF len] by (simp add: chain_items_def)
  obtain c cs where c: "cmds = c # cs" using len by (cases cmds) auto
  then have hd: "?g \<noteq> [] \<longrightarrow> \<not> is_and (hd ?g)" by (simp add: chain_items_def)
  have np: "no_guarded_pipeline ?items"
    using group_ands_guarded [OF _ hd] form L by (auto simp: no_guarded_pipeline_def loop_form_def)
  have wf: "\<forall>(op, pl) \<in> set ?g. pl \<noteq> [] \<and> (\<forall>cmd \<in> set pl. runnable E (Some w) cmd)"
  proof clarify
    fix op pl
    assume "(op, pl) \<in> set ?g"
    from group_pipes_cmds [OF this] chain_items_cmds [of "(cmds, ops)"] cmds
    show "pl \<noteq> [] \<and> (\<forall>cmd \<in> set pl. runnable E (Some w) cmd)"
      unfolding fst_conv by blast
  qed
  have "pipes_then_cd (map snd ?g)"
    using form by (simp add: loop_form_def L concat_group_ands)
  from grouped_run_shell [OF w wf this, of st h S 0 rc h'] at
  have "(rc, locate st h') = sh_list S 0 (group_ands ?g) (locate st h)"
    using run readonly_chain_run_grouped [OF np] c by (simp add: chain_items_def)
  with L show ?thesis by simp
qed


section \<open>What a child does\<close>

text \<open>The command an event comes from, and the directories a process may change to itself.\<close>

fun ev_cmd :: "child_event \<Rightarrow> string list" where
  "ev_cmd (Forked d cmd) = cmd"
| "ev_cmd (Chdir d) = [''cd'', d]"

fun ev_at :: "string option \<Rightarrow> child_event \<Rightarrow> bool" where
  "ev_at w (Forked d cmd) \<longleftrightarrow> d = None \<or> d = w"
| "ev_at w (Chdir d) \<longleftrightarrow> True"

definition child_runs :: "string option \<Rightarrow> string list list \<Rightarrow> child_trace \<Rightarrow> int \<times> child_trace \<Rightarrow> bool" where
  "child_runs w cmds h r \<longleftrightarrow>
     (\<exists>evs. snd r = h @ evs \<and> subseq (map ev_cmd evs) cmds \<and> list_all (ev_at w) evs)"

lemma child_runsI:
  "snd r = h @ evs \<Longrightarrow> subseq (map ev_cmd evs) cmds \<Longrightarrow> list_all (ev_at w) evs \<Longrightarrow> child_runs w cmds h r"
  by (auto simp: child_runs_def)

lemma child_runs_trans:
  assumes "child_runs w xs h (rc, h')" "child_runs w ys h' r"
  shows "child_runs w (xs @ ys) h r"
proof -
  obtain u v where "h' = h @ u" "subseq (map ev_cmd u) xs" "list_all (ev_at w) u"
      "snd r = h' @ v" "subseq (map ev_cmd v) ys" "list_all (ev_at w) v"
    using assms by (auto simp: child_runs_def)
  then show ?thesis by (intro child_runsI [of _ _ "u @ v"]) (simp_all add: list_emb_append_mono)
qed

lemma child_runs_mono: "child_runs w xs h r \<Longrightarrow> subseq xs ys \<Longrightarrow> child_runs w ys h r"
  unfolding child_runs_def by (meson subseq_order.trans)

lemma chdir_workspace_cases: "chdir_workspace C w h = None \<or> chdir_workspace C w h = w"
  by (simp add: chdir_workspace_def)

lemma pipeline_start_runs: "child_runs w cmds h (rc, snd (pipeline_start C w cmds h))"
proof (induction cmds arbitrary: h)
  case Nil
  then show ?case by (simp add: child_runs_def)
next
  case (Cons cmd cmds)
  let ?e = "Forked (chdir_workspace C w h) cmd"
  have "child_runs w [cmd] h (rc, h @ [?e])"
    using chdir_workspace_cases [of C w h] by (intro child_runsI [of _ _ "[?e]"]) simp_all
  from child_runs_trans [OF this Cons.IH]
  have "child_runs w (cmd # cmds) h (rc, snd (pipeline_start C w cmds (h @ [?e])))" by simp
  moreover have "child_runs w (cmd # cmds) h (rc, h)" by (simp add: child_runs_def)
  ultimately show ?case by (cases "cmds = []") simp_all
qed

lemma pipeline_runs: "child_runs w cmds h (bash_exec_readonly_pipeline C cmds w h)"
  using pipeline_start_runs [of w cmds h _ C]
  by (auto simp: bash_exec_readonly_pipeline_def child_runs_def split: prod.splits bool.splits)

lemma single_runs: "child_runs w [cmd] h (run_single C E w cmd h)"
proof -
  have seg: "child_runs w [cmd] h (bash_exec_readonly_segment C cmd None h)"
    by (auto simp: child_runs_def bash_exec_readonly_segment_def chdir_workspace_def Let_def)
  show ?thesis
  proof (cases "length cmd = 2 \<and> cmd ! 0 = ''cd''")
    case True
    then have "cmd = [''cd'', cmd ! 1]" by (auto simp: length_Suc_conv numeral_2_eq_2)
    then have "child_runs w [cmd] h (rc, h @ [Chdir (cmd ! 1)])" for rc
      by (intro child_runsI [of _ _ "[Chdir (cmd ! 1)]"]) simp_all
    moreover have "child_runs w [cmd] h (rc, h)" for rc
      by (simp add: child_runs_def)
    ultimately show ?thesis using seg
      by (auto simp: run_single_def bash_exec_readonly_cd_def)
  next
    case False
    with seg show ?thesis by (auto simp: run_single_def bash_exec_readonly_cd_def)
  qed
qed

lemma readonly_run_runs:
  "child_runs w (map snd items) h (readonly_chain_run C E w rc items h)"
proof (induction C E w rc items h rule: readonly_chain_run.induct)
  case (1 C E workspace rc h)
  then show ?case by (simp add: child_runs_def)
next
  case (2 C E workspace rc op cmd items h)
  let ?ps = "takeWhile is_pipe items" and ?rest = "dropWhile is_pipe items"
  show ?case
  proof (cases "op = Some ''&&'' \<and> rc \<noteq> 0")
    case True
    then show ?thesis using child_runs_mono [OF "2.IH"(1) [OF True], of "cmd # map snd items"]
      by (simp add: list_emb_Cons)
  next
    case False
    show ?thesis
    proof (cases "?ps = []")
      case True
      obtain rc' h' where s: "run_single C E workspace cmd h = (rc', h')" by fastforce
      have "child_runs workspace [cmd] h (rc', h')" using single_runs [of workspace cmd h C E] s by simp
      from child_runs_trans [OF this] "2.IH"(3) [OF False] True s
      have "child_runs workspace ([cmd] @ map snd items) h (readonly_chain_run C E workspace rc' items h')"
        by simp
      then show ?thesis using False True s by auto
    next
      case ps: False
      let ?pl = "cmd # map snd ?ps"
      obtain rc' h' where s: "bash_exec_readonly_pipeline C ?pl workspace h = (rc', h')" by fastforce
      have "child_runs workspace ?pl h (rc', h')" using pipeline_runs [of workspace ?pl h C] s by simp
      from child_runs_trans [OF this] "2.IH"(2) [OF False ps s [symmetric]] s
      have "child_runs workspace (?pl @ map snd ?rest) h (readonly_chain_run C E workspace rc' ?rest h')"
        by simp
      moreover have "?pl @ map snd ?rest = cmd # map snd items"
        by (metis append_Cons map_append takeWhile_dropWhile_id)
      ultimately show ?thesis using False ps s by auto
    qed
  qed
qed

lemma readonly_child_runs:
  assumes "length (fst c) = length (snd c) + 1" "\<forall>cmd \<in> set (fst c). runnable E w cmd"
  shows "child_runs w (fst c) (enter_workspace C w h) (readonly_child C E w c h)"
proof -
  let ?h = "enter_workspace C w h"
  have items: "map snd (chain_items c) = fst c"
    using assms(1) by (simp add: chain_items_def)
  have run: "child_runs w (fst c) ?h (case readonly_chain_run C E w 0 (chain_items c) ?h of (rc, h') \<Rightarrow> (rc mod 256, h'))"
    using readonly_run_runs [of w "chain_items c" ?h C E 0] items
    by (auto simp: child_runs_def split: prod.splits)
  show ?thesis
  proof (cases "\<exists>cmd. fst c = [cmd]")
    case True
    then obtain cmd where c: "fst c = [cmd]" by blast
    show ?thesis
    proof (cases "length cmd = 2 \<and> cmd ! 0 = ''cd''")
      case True
      then have "bash_exec_readonly_cd C E cmd w ?h = run_single C E w cmd ?h"
        using assms(2) c by (auto simp: run_single_def bash_exec_readonly_cd_def runnable_def hd_conv_nth)
      then show ?thesis using True c single_runs [of w cmd ?h C E]
        by (auto simp: readonly_child_def Let_def child_runs_def split: prod.splits)
    next
      case False
      then show ?thesis using c
        by (auto simp: readonly_child_def Let_def child_runs_def)
    qed
  next
    case False
    then show ?thesis using run
      by (auto simp: readonly_child_def Let_def split: list.splits)
  qed
qed

text \<open>With one \<open>cd\<close> at most, a child that starts in a directory has been in one other.\<close>

lemma locate_no_cd:
  assumes "take 1 w = ''/''" "list_all (ev_at (Some w)) evs"
    "\<forall>e \<in> set evs. hd (ev_cmd e) \<noteq> ''cd''" "q \<in> A" "[w] \<in> A" "fst ` set ps \<subseteq> A"
  shows "fst ` set (snd (locate (q, ps) evs)) \<subseteq> A"
  using assms(2-)
proof (induction evs arbitrary: ps)
  case (Cons e evs)
  show ?case
  proof (cases e)
    case (Forked d cmd)
    let ?p = "if d = None then q else [w]"
    have step: "locate_step (q, ps) e = (q, ps @ [(?p, cmd)])"
      using Cons.prems(1) assms(1) Forked by (auto simp: cd_to_def)
    show ?thesis
      using Cons.IH [of "ps @ [(?p, cmd)]"] Cons.prems step by auto
  next
    case (Chdir d)
    with Cons.prems(2) show ?thesis by simp
  qed
qed simp

lemma locate_one_cd:
  assumes "take 1 w = ''/''" "list_all (ev_at (Some w)) evs"
    "length (filter (\<lambda>e. hd (ev_cmd e) = ''cd'') evs) \<le> 1"
    "\<forall>d. Chdir d \<in> set evs \<longrightarrow> cd_to [w] d \<in> A" "[w] \<in> A" "fst ` set ps \<subseteq> A"
  shows "fst ` set (snd (locate ([w], ps) evs)) \<subseteq> A"
  using assms(2-)
proof (induction evs arbitrary: ps)
  case (Cons e evs)
  show ?case
  proof (cases e)
    case (Forked d cmd)
    have step: "locate_step ([w], ps) e = ([w], ps @ [([w], cmd)])"
      using Cons.prems(1) assms(1) Forked by (auto simp: cd_to_def)
    show ?thesis
      using Cons.IH [of "ps @ [([w], cmd)]"] Cons.prems step by (auto split: if_splits)
  next
    case (Chdir d)
    with Cons.prems have "\<forall>e \<in> set evs. hd (ev_cmd e) \<noteq> ''cd''" "cd_to [w] d \<in> A"
      by (auto simp: filter_empty_conv)
    with Cons.prems Chdir locate_no_cd [OF assms(1), of evs "cd_to [w] d" A ps] show ?thesis
      by simp
  qed
qed simp


section \<open>Properties\<close>

text \<open>C18. Inside the lines named by \<open>loop_form\<close>, and in a workspace that can be entered, the
  child of a read-only command line does what a shell started in the workspace does with the
  same line: the same processes at the same places in the same order, the same place at the
  end, the same exit status. Pipelines, \<open>&&\<close>, \<open>;\<close> and \<open>cd\<close> are those of the shell's own
  semantics.\<close>

theorem readonly_chain_matches_shell:
  assumes "guarded_readonly_exec E command (Some w) = Inr c" "prefix ''/'' w"
    "loop_form (sh_parse (fst c) (snd c))" "sh_cd_ok S [] [w]"
  shows "shell_view (p, []) (readonly_child (child_of S (p, [])) E (Some w) c [])
    = sh_run S (sh_parse (fst c) (snd c)) ([w], [])"
proof -
  let ?C = "child_of S (p, [])" and ?L = "sh_parse (fst c) (snd c)"
  have w: "take 1 w = ''/''" "w \<noteq> []" using assms(2) by (auto simp: prefix_def)
  have cd: "cd_to p w = [w]" using w by (simp add: cd_to_def)
  have h: "enter_workspace ?C (Some w) [] = [Chdir w]" "locate (p, []) [Chdir w] = ([w], [])"
    using w assms(4) by (auto simp: enter_workspace_def chdir_workspace_def cd_to_def)
  have cmds: "\<forall>cmd \<in> set (fst c). runnable E (Some w) cmd"
    using guarded_readonly_commands(1) [OF assms(1)] readonly_exec_runnable by blast
  have len: "length (fst c) = length (snd c) + 1"
    using guarded_readonly_commands(2) [OF assms(1)] by simp
  show ?thesis
  proof (cases "\<exists>cmd. fst c = [cmd]")
    case True
    then obtain cmd where c: "fst c = [cmd]" "snd c = []" using len by auto
    obtain rc h' where r: "run_single ?C E (Some w) cmd [Chdir w] = (rc, h')" by fastforce
    have "runnable E (Some w) cmd" using cmds c by simp
    from run_single_shell [OF this r] have "sh_simple S cmd ([w], []) = (rc, locate (p, []) h')"
      unfolding h(2) .
    moreover have "readonly_child ?C E (Some w) c [] = (rc mod 256, h')
        \<or> readonly_child ?C E (Some w) c [] = (rc, h')"
      using r c h(1) cmds
      by (auto simp: readonly_child_def run_single_def bash_exec_readonly_cd_def runnable_def
          bash_exec_readonly_segment_def chdir_workspace_def Let_def hd_conv_nth split: if_splits)
    ultimately show ?thesis using c
      by (auto simp: shell_view_def sh_run_def simp del: sh_simple.simps split: prod.splits if_splits)
  next
    case False
    obtain rc h' where r: "readonly_chain_run ?C E (Some w) 0 (chain_items c) [Chdir w] = (rc, h')"
      by fastforce
    have "sh_list S 0 ?L (locate (p, []) [Chdir w]) = (rc, locate (p, []) h')"
      by (rule chain_run_shell [OF w(1) len cmds assms(3)]) (simp_all add: r cd)
    obtain a b cs where "fst c = a # b # cs"
      using False len by (metis Suc_eq_plus1 length_0_conv nat.distinct(1) neq_Nil_conv)
    then have "readonly_child ?C E (Some w) c [] = (rc mod 256, h')"
      using r h(1) by (simp add: readonly_child_def)
    with \<open>sh_list S 0 ?L _ = _\<close> cd show ?thesis
      by (simp add: shell_view_def sh_run_def)
  qed
qed


text \<open>A shell outside for the witnesses: \<open>false\<close> ends with 1, every place can be entered.\<close>

definition ref_shell :: shell_env where
  "ref_shell = \<lparr>sh_end = (\<lambda>ps. Inl (if snd (last ps) = [''false''] then 1 else 0)),
     sh_cd_ok = (\<lambda>_ _. True)\<rparr>"

theorem readonly_chain_matches_shell_witness:
  "let E = ref_env\<lparr>shlex_split := (\<lambda>_ _. [''ls'', ''|'', ''wc'', '';'', ''cd'', ''sub'', ''&&'', ''cat'', ''f''])\<rparr>;
       c = ([[''ls''], [''wc''], [''cd'', ''sub''], [''cat'', ''f'']], [''|'', '';'', ''&&'']) in
   guarded_readonly_exec E ''ls | wc; cd sub && cat f'' (Some ''/ws'') = Inr c
     \<and> shell_view ([''/''], []) (readonly_child (child_of ref_shell ([''/''], [])) E (Some ''/ws'') c [])
       = (0, [''/ws'', ''sub''],
          [([''/ws''], [''ls'']), ([''/ws''], [''wc'']), ([''/ws'', ''sub''], [''cat'', ''f''])])"
proof -
  let ?E = "ref_env\<lparr>shlex_split := (\<lambda>_ _. [''ls'', ''|'', ''wc'', '';'', ''cd'', ''sub'', ''&&'', ''cat'', ''f''])\<rparr>"
  let ?c = "([[''ls''], [''wc''], [''cd'', ''sub''], [''cat'', ''f'']], [''|'', '';'', ''&&''])"
  have v: "guarded_readonly_exec ?E ''ls | wc; cd sub && cat f'' (Some ''/ws'') = Inr ?c"
    by (simp add: guarded_readonly_exec_def bash_readonly_chain_validate_def readonly_ops_def
        ref_env_def bash_command_is_readonly_exec_def bash_basename_def word_in_list_iff
        readonly_commands_def bash_path_under_guard_write_root_def bash_path_under_root_def Let_def)
  have L: "sh_parse (fst ?c) (snd ?c) = [[[[''ls''], [''wc'']]], [[[''cd'', ''sub'']], [[''cat'', ''f'']]]]"
    by simp
  have "loop_form (sh_parse (fst ?c) (snd ?c))" "sh_cd_ok ref_shell [] [''/ws'']"
    unfolding L by (simp_all add: loop_form_def cd_of_path_def ref_shell_def)
  from readonly_chain_matches_shell [OF v _ this, of "[''/'']"]
  have "shell_view ([''/''], []) (readonly_child (child_of ref_shell ([''/''], [])) ?E (Some ''/ws'') ?c [])
      = sh_run ref_shell (sh_parse (fst ?c) (snd ?c)) ([''/ws''], [])" by simp
  also have "\<dots> = (0, [''/ws'', ''sub''],
          [([''/ws''], [''ls'']), ([''/ws''], [''wc'']), ([''/ws'', ''sub''], [''cat'', ''f''])])"
    unfolding L by (simp add: sh_run_def ref_shell_def cd_to_def Let_def)
  finally show ?thesis using v by (simp add: Let_def)
qed

text \<open>C19. Whatever the outside does, the child of a read-only command line starts commands of
  the line only, in their order and each at most once, and each passed the read-only test.
  When the workspace can be entered and the line holds at most one \<open>cd\<close>, every process runs
  in the workspace or in the directory the operand of that \<open>cd\<close> names from the workspace,
  which the test had normalised into the writable root.\<close>

theorem readonly_child_confined:
  assumes "guarded_readonly_exec E command w = Inr c"
  shows "\<exists>evs. snd (readonly_child C E w c h) = enter_workspace C w h @ evs
    \<and> subseq (map ev_cmd evs) (fst c)
    \<and> (\<forall>cmd \<in> set (map ev_cmd evs). bash_command_is_readonly_exec E cmd w)
    \<and> (\<forall>d p. w = Some d \<and> prefix ''/'' d \<and> c_chdir_ok C h d
         \<and> length (filter (\<lambda>cmd. hd cmd = ''cd'') (fst c)) \<le> 1
       \<longrightarrow> enter_workspace C w h = h @ [Chdir d]
         \<and> fst ` set (snd (locate (p, []) (Chdir d # evs)))
           \<subseteq> insert [d] (cd_to [d] ` {x. bash_path_under_guard_write_root E x (Some d)}))"
proof -
  have len: "length (fst c) = length (snd c) + 1"
    using guarded_readonly_commands(2) [OF assms] .
  have ro: "\<forall>cmd \<in> set (fst c). bash_command_is_readonly_exec E cmd w"
    using guarded_readonly_commands(1) [OF assms] by blast
  then have ok: "\<forall>cmd \<in> set (fst c). runnable E w cmd"
    using readonly_exec_runnable by blast
  obtain evs where evs: "snd (readonly_child C E w c h) = enter_workspace C w h @ evs"
      "subseq (map ev_cmd evs) (fst c)" "list_all (ev_at w) evs"
    using readonly_child_runs [OF len ok, of C h] by (auto simp: child_runs_def)
  have sub: "set (map ev_cmd evs) \<subseteq> set (fst c)"
    using list_emb_set [OF evs(2)] by blast
  have "enter_workspace C w h = h @ [Chdir d]
      \<and> fst ` set (snd (locate (p, []) (Chdir d # evs)))
        \<subseteq> insert [d] (cd_to [d] ` {x. bash_path_under_guard_write_root E x (Some d)})"
    if d: "w = Some d" "prefix ''/'' d" "c_chdir_ok C h d"
      and one: "length (filter (\<lambda>cmd. hd cmd = ''cd'') (fst c)) \<le> 1" for d p
  proof
    let ?A = "insert [d] (cd_to [d] ` {x. bash_path_under_guard_write_root E x (Some d)})"
    have abs: "take 1 d = ''/''" using d(2) by (auto simp: prefix_def)
    show "enter_workspace C w h = h @ [Chdir d]"
      using d by (cases d) (auto simp: enter_workspace_def chdir_workspace_def)
    have "length (filter (\<lambda>cmd. hd cmd = ''cd'') (map ev_cmd evs)) \<le> 1"
      using list_emb_length [OF subseq_filter [OF evs(2)]] one by (meson le_trans)
    then have cds: "length (filter (\<lambda>e. hd (ev_cmd e) = ''cd'') evs) \<le> 1"
      by (simp add: filter_map comp_def)
    have "cd_to [d] x \<in> ?A" if "Chdir x \<in> set evs" for x
    proof -
      have "[''cd'', x] \<in> set (fst c)" using sub that by force
      then have "bash_path_under_guard_write_root E x (Some d)"
        using ok d(1) by (auto simp: runnable_def)
      then show ?thesis by blast
    qed
    then have chd: "\<forall>x. Chdir x \<in> set evs \<longrightarrow> cd_to [d] x \<in> ?A" by blast
    have "locate (p, []) (Chdir d # evs) = locate ([d], []) evs"
      using abs by (simp add: cd_to_def)
    then show "fst ` set (snd (locate (p, []) (Chdir d # evs))) \<subseteq> ?A"
      using locate_one_cd [OF abs evs(3) [unfolded d(1)] cds chd, of "[]"] by simp
  qed
  with evs ro sub show ?thesis by (intro exI [of _ evs]) blast
qed

theorem readonly_child_confined_witness:
  "let E = ref_env\<lparr>shlex_split := (\<lambda>_ _. [''cd'', ''sub'', '';'', ''ls''])\<rparr>;
       c = ([[''cd'', ''sub''], [''ls'']], ['';'']);
       C = child_of ref_shell ([''/''], []) in
   guarded_readonly_exec E ''cd sub; ls'' (Some ''/ws'') = Inr c
     \<and> snd (readonly_child C E (Some ''/ws'') c []) = [Chdir ''/ws'', Chdir ''sub'', Forked None [''ls'']]
     \<and> fst ` set (snd (locate ([''/''], []) [Chdir ''/ws'', Chdir ''sub'', Forked None [''ls'']]))
       \<subseteq> insert [''/ws''] (cd_to [''/ws''] ` {x. bash_path_under_guard_write_root E x (Some ''/ws'')})"
proof -
  let ?E = "ref_env\<lparr>shlex_split := (\<lambda>_ _. [''cd'', ''sub'', '';'', ''ls''])\<rparr>"
  let ?c = "([[''cd'', ''sub''], [''ls'']], ['';''])" and ?C = "child_of ref_shell ([''/''], [])"
  have v: "guarded_readonly_exec ?E ''cd sub; ls'' (Some ''/ws'') = Inr ?c"
    by (simp add: guarded_readonly_exec_def bash_readonly_chain_validate_def readonly_ops_def
        ref_env_def bash_command_is_readonly_exec_def bash_basename_def word_in_list_iff
        readonly_commands_def bash_path_under_guard_write_root_def bash_path_under_root_def Let_def)
  have run: "snd (readonly_child ?C ?E (Some ''/ws'') ?c []) = [Chdir ''/ws'', Chdir ''sub'', Forked None [''ls'']]"
    "enter_workspace ?C (Some ''/ws'') [] = [Chdir ''/ws'']" "c_chdir_ok ?C [] ''/ws''"
    by (simp_all add: readonly_child_def chain_items_def run_single_def bash_exec_readonly_cd_def
        bash_exec_readonly_segment_def ref_shell_def ref_env_def enter_workspace_def
        chdir_workspace_def bash_path_under_guard_write_root_def bash_path_under_root_def Let_def)
  from readonly_child_confined [OF v, of ?C "[]"] obtain evs where
    evs: "snd (readonly_child ?C ?E (Some ''/ws'') ?c []) = enter_workspace ?C (Some ''/ws'') [] @ evs"
    and at: "\<forall>d p. Some ''/ws'' = Some d \<and> prefix ''/'' d \<and> c_chdir_ok ?C [] d
         \<and> length (filter (\<lambda>cmd. hd cmd = ''cd'') (fst ?c)) \<le> 1
       \<longrightarrow> enter_workspace ?C (Some ''/ws'') [] = [] @ [Chdir d]
         \<and> fst ` set (snd (locate (p, []) (Chdir d # evs)))
           \<subseteq> insert [d] (cd_to [d] ` {x. bash_path_under_guard_write_root ?E x (Some d)})"
    by blast
  have "evs = [Chdir ''sub'', Forked None [''ls'']]"
    using evs run(1,2) by simp
  with at [rule_format, of "''/ws''" "[''/'']"] run(3) v run(1) show ?thesis
    by (simp add: Let_def del: locate_simps)
qed


text \<open>
  A workspace chain has no pipe and no \<open>cd\<close>, so the shorter loop agrees with the read-only one
  and the line always has the form on which that is a shell.
\<close>

lemma workspace_run_readonly:
  "\<forall>(op, cmd) \<in> set items. op \<noteq> Some ''|'' \<and> cmd \<noteq> [] \<and> hd cmd \<noteq> ''cd'' \<Longrightarrow>
     workspace_chain_run C rc items h = readonly_chain_run C E w rc items h"
proof (induction C rc items h rule: workspace_chain_run.induct)
  case (2 C rc op cmd items h)
  have no: "takeWhile is_pipe items = []"
    using "2.prems" by (cases items) auto
  have single: "run_single C E w cmd h = bash_exec_readonly_segment C cmd None h"
    using "2.prems" by (auto simp: run_single_def bash_exec_readonly_cd_def hd_conv_nth)
  show ?case
  proof (cases "op = Some ''&&'' \<and> rc \<noteq> 0")
    case True
    then show ?thesis using "2.IH"(1) [OF True] "2.prems" by simp
  next
    case False
    obtain rc' h' where s: "bash_exec_readonly_segment C cmd None h = (rc', h')" by fastforce
    show ?thesis using "2.IH"(2) [OF False s [symmetric]] "2.prems" False s no single by auto
  qed
qed simp

lemma sh_parse_no_pipe:
  "''|'' \<notin> set ops \<Longrightarrow> \<forall>al \<in> set (sh_parse cmds ops). \<forall>pl \<in> set al. length pl = 1"
proof (induction cmds ops rule: sh_parse.induct)
  case (1 cmd cmds op ops)
  then show ?case
    by (cases "(op, cmd, sh_parse cmds ops)" rule: sh_attach.cases) auto
qed auto

lemma pipes_then_cd_single:
  "\<forall>pl \<in> set pls. length pl = 1 \<Longrightarrow> pipes_then_cd pls"
  by (induction pls) (auto simp: list_all_iff)

lemma workspace_chain_form:
  assumes "''|'' \<notin> set ops" "length cmds = length ops + 1" "\<forall>cmd \<in> set cmds. cmd \<noteq> [] \<and> hd cmd \<noteq> ''cd''"
  shows "loop_form (sh_parse cmds ops)"
proof -
  have all: "\<forall>al \<in> set (sh_parse cmds ops). \<forall>pl \<in> set al. length pl = 1"
    by (rule sh_parse_no_pipe [OF assms(1)])
  then have "pipes_then_cd (concat (sh_parse cmds ops))"
    by (intro pipes_then_cd_single) auto
  moreover have "\<forall>al \<in> set (sh_parse cmds ops). \<forall>pl \<in> set (tl al). length pl = 1"
    using all by (metis list.sel(2) list.set_sel(2))
  moreover have "list_all cd_of_path (concat (concat (sh_parse cmds ops)))"
    unfolding sh_parse_cmds [OF assms(2)] using assms(3) by (simp add: list_all_iff cd_of_path_def)
  ultimately show ?thesis by (simp add: loop_form_def list_all_iff)
qed

text \<open>C20. In a workspace that can be entered, the child of a workspace command line does what
  a shell started there does with the line: the same processes at the same places in the same
  order and the same exit status, with a command behind \<open>&&\<close> skipped exactly when the shell
  skips it. Every command of the line passed the workspace test, and all processes run in the
  workspace.\<close>

theorem workspace_child_runs_chain:
  assumes "guarded_workspace_exec E command (Some w) = Inr c" "prefix ''/'' w" "sh_cd_ok S [] [w]"
  shows "shell_view (p, []) (workspace_child (child_of S (p, [])) (Some w) c [])
      = sh_run S (sh_parse (fst c) (snd c)) ([w], [])
    \<and> (\<forall>cmd \<in> set (fst c). bash_command_is_guarded_workspace_segment E cmd (Some w))"
proof -
  let ?C = "child_of S (p, [])" and ?L = "sh_parse (fst c) (snd c)"
  have w: "take 1 w = ''/''" "w \<noteq> []" using assms(2) by (auto simp: prefix_def)
  have cd: "cd_to p w = [w]" using w by (simp add: cd_to_def)
  have h: "enter_workspace ?C (Some w) [] = [Chdir w]"
    using w assms(3) cd by (auto simp: enter_workspace_def chdir_workspace_def)
  note seg = guarded_workspace_commands(1) [OF assms(1)]
  have len: "length (fst c) = length (snd c) + 1"
    using guarded_workspace_commands(2) [OF assms(1)] by simp
  have ops: "''|'' \<notin> set (snd c)"
    using guarded_workspace_commands(4) [OF assms(1)] by (auto simp: workspace_ops_def)
  have nc: "\<forall>cmd \<in> set (fst c). cmd \<noteq> [] \<and> hd cmd \<noteq> ''cd''"
    using workspace_segment_no_cd seg by blast
  then have cmds: "\<forall>cmd \<in> set (fst c). runnable E (Some w) cmd"
    by (simp add: runnable_def)
  have items: "\<forall>(op, cmd) \<in> set (chain_items c). op \<noteq> Some ''|'' \<and> cmd \<noteq> [] \<and> hd cmd \<noteq> ''cd''"
    using nc ops
    by (auto simp: chain_items_def dest: set_zip_leftD set_zip_rightD)
  obtain rc h' where r: "readonly_chain_run ?C E (Some w) 0 (chain_items c) [Chdir w] = (rc, h')"
    by fastforce
  have "sh_list S 0 ?L (locate (p, []) [Chdir w]) = (rc, locate (p, []) h')"
    by (rule chain_run_shell [OF w(1) len cmds workspace_chain_form [OF ops len nc]]) (simp_all add: r cd)
  moreover have "workspace_child ?C (Some w) c [] = (rc mod 256, h')"
    using workspace_run_readonly [OF items, of ?C 0 "[Chdir w]" E "Some w"] r h
    by (simp add: workspace_child_def)
  ultimately show ?thesis using seg cd
    by (simp add: shell_view_def sh_run_def)
qed

theorem workspace_child_runs_chain_witness:
  "let E = ref_env\<lparr>shlex_split := (\<lambda>_ _. [''mkdir'', ''a'', ''&&'', ''touch'', ''b''])\<rparr>;
       c = ([[''mkdir'', ''a''], [''touch'', ''b'']], [''&&'']) in
   guarded_workspace_exec E ''mkdir a && touch b'' (Some ''/ws'') = Inr c
   \<and> shell_view ([''/''], []) (workspace_child (child_of ref_shell ([''/''], [])) (Some ''/ws'') c [])
     = (0, [''/ws''], [([''/ws''], [''mkdir'', ''a'']), ([''/ws''], [''touch'', ''b''])])"
proof -
  let ?E = "ref_env\<lparr>shlex_split := (\<lambda>_ _. [''mkdir'', ''a'', ''&&'', ''touch'', ''b''])\<rparr>"
  let ?c = "([[''mkdir'', ''a''], [''touch'', ''b'']], [''&&''])"
  have v: "guarded_workspace_exec ?E ''mkdir a && touch b'' (Some ''/ws'') = Inr ?c"
    by (simp add: guarded_workspace_exec_def bash_workspace_chain_validate_def workspace_ops_def
        ref_env_def bash_command_is_guarded_workspace_segment_def bash_path_under_root_def
        bash_command_paths_stay_in_guarded_workspace_def bash_guarded_path_token_allowed_def
        bash_token_looks_path_like_def bash_basename_def Let_def)
  have "sh_cd_ok ref_shell [] [''/ws'']" by (simp add: ref_shell_def)
  from workspace_child_runs_chain [OF v _ this, of "[''/'']"]
  have "shell_view ([''/''], []) (workspace_child (child_of ref_shell ([''/''], [])) (Some ''/ws'') ?c [])
      = sh_run ref_shell (sh_parse (fst ?c) (snd ?c)) ([''/ws''], [])" by simp
  also have "\<dots> = (0, [''/ws''], [([''/ws''], [''mkdir'', ''a'']), ([''/ws''], [''touch'', ''b''])])"
    by (simp add: sh_run_def ref_shell_def Let_def)
  finally show ?thesis using v by (simp add: Let_def)
qed

section \<open>Where the loop and a shell part\<close>

text \<open>
  The test for \<open>&&\<close> looks at one command at a time. In \<open>false && cat a | wc\<close> the failed
  \<open>false\<close> skips \<open>cat a\<close>, and the loop then comes to \<open>wc\<close>, whose operator is \<open>|\<close>: it runs.
  A shell runs neither.
\<close>

lemma guarded_pipeline_tail_runs:
  "shell_view ([''/ws''], []) (readonly_chain_run (child_of ref_shell ([''/ws''], [])) ref_env (Some ''/ws'') 0
      (chain_items ([[''false''], [''cat'', ''a''], [''wc'']], [''&&'', ''|''])) [])
     = (0, [''/ws''], [([''/ws''], [''false'']), ([''/ws''], [''wc''])])"
  "sh_run ref_shell (sh_parse [[''false''], [''cat'', ''a''], [''wc'']] [''&&'', ''|'']) ([''/ws''], [])
     = (1, [''/ws''], [([''/ws''], [''false''])])"
  by (simp_all add: chain_items_def run_single_def bash_exec_readonly_cd_def sh_run_def
      bash_exec_readonly_segment_def chdir_workspace_def shell_view_def ref_shell_def Let_def)

text \<open>
  A pipeline changes back to the workspace in each member, so \<open>cd sub ; ls | wc\<close> does not list
  \<open>sub\<close>, as a shell would; and a \<open>cd\<close> is judged against the workspace, not against the
  directory an earlier \<open>cd\<close> has reached, so repeating one that stays inside may leave it.
\<close>

lemma cd_then_pipeline:
  assumes "guard_write_root E = Some ''/ws''" "normalize_path E ''sub'' (Some ''/ws'') = ''/ws/sub''"
  shows "shell_view ([''/ws''], []) (readonly_chain_run (child_of ref_shell ([''/ws''], [])) E (Some ''/ws'') 0
      (chain_items ([[''cd'', ''sub''], [''ls''], [''wc'']], ['';'', ''|''])) [])
     = (0, [''/ws'', ''sub''], [([''/ws''], [''ls'']), ([''/ws''], [''wc''])])"
  "sh_run ref_shell (sh_parse [[''cd'', ''sub''], [''ls''], [''wc'']] ['';'', ''|'']) ([''/ws''], [])
     = (0, [''/ws'', ''sub''], [([''/ws'', ''sub''], [''ls'']), ([''/ws'', ''sub''], [''wc''])])"
  using assms by (simp_all add: chain_items_def run_single_def bash_exec_readonly_cd_def Let_def
      bash_exec_readonly_pipeline_def bash_path_under_guard_write_root_def sh_run_def
      chdir_workspace_def cd_to_def shell_view_def bash_path_under_root_def ref_shell_def)

lemma cd_twice_leaves_root:
  assumes "guard_write_root E = Some ''/ws''" "normalize_path E ''..'' (Some ''/ws/a'') = ''/ws''"
  shows "shell_view ([''/ws/a''], []) (readonly_chain_run (child_of ref_shell ([''/ws/a''], [])) E (Some ''/ws/a'') 0
      (chain_items ([[''cd'', ''..''], [''cd'', ''..''], [''ls'']], ['';'', '';''])) [])
     = (0, [''/ws/a'', ''..'', ''..''], [([''/ws/a'', ''..'', ''..''], [''ls''])])"
  using assms by (simp add: chain_items_def run_single_def bash_exec_readonly_cd_def cd_to_def Let_def
      bash_exec_readonly_segment_def chdir_workspace_def shell_view_def
      bash_path_under_guard_write_root_def bash_path_under_root_def ref_shell_def)

text \<open>
  The result of \<open>chdir\<close> to the workspace is not looked at: where it cannot be entered, a
  validated command runs in the directory the agent itself is in.
\<close>

lemma workspace_not_entered:
  assumes "\<not> sh_cd_ok S [] [''/ws'']"
  shows "snd (snd (shell_view ([''/home''], [])
      (workspace_child (child_of S ([''/home''], [])) (Some ''/ws'') ([[''rm'', ''f'']], []) [])))
    = [([''/home''], [''rm'', ''f''])]"
  using assms by (simp add: workspace_child_def chain_items_def bash_exec_readonly_segment_def
      chdir_workspace_def enter_workspace_def shell_view_def cd_to_def Let_def)

end
