(* ===== verification/Bash_Tool.thy ===== *)
theory Bash_Tool
  imports Bash_Exec Child_Path
begin

text \<open>
  The shell tool itself (\<open>tool_bash\<close>, \<open>agent_tools.c\<close>, lines 723 to 1139, the Linux build):
  which of the detached, container, guarded, sandboxed and plain routes a command takes, how
  the two pipes of the child are read under a deadline, and the result. A child that was
  started is a \<open>Spawn\<close> event; killing and reaping it are \<open>Call\<close> events.
\<close>

section \<open>Answers\<close>

definition bash_result :: "string \<Rightarrow> string \<Rightarrow> int \<Rightarrow> cjson" where
  "bash_result out err code =
     JObj [(''stdout'', JStr out), (''stderr'', JStr err), (''exit_code'', jint code)]"

text \<open>The constant answers are written as JSON text.\<close>

definition bash_error_json :: "string \<Rightarrow> string" where
  "bash_error_json msg =
     ''{\"stdout\":\"\",\"stderr\":\"'' @ msg @ ''\",\"exit_code\":-1}''"

section \<open>The detached and the container routes\<close>

definition bash_detached :: "env \<Rightarrow> string \<Rightarrow> string option action" where
  "bash_detached E command =
     do {
       (out, code) \<leftarrow> perform (ExecShell command) (\<lambda>h. ws_exec_shell E h command);
       ret (Some (case out of
                    None \<Rightarrow> channel_down_json E
                  | Some s \<Rightarrow> print_or E (bash_result s [] code) ''{}''))
     }"

fun quote_body :: "string \<Rightarrow> string" where
  "quote_body [] = []"
| "quote_body (c # cs) =
     (if c = CHR 0x27 then [CHR 0x27, CHR 0x5C, CHR 0x27, CHR 0x27] @ quote_body cs
      else c # quote_body cs)"

definition container_command :: "string option \<Rightarrow> string \<Rightarrow> string" where
  "container_command cwd command =
     (case cwd of
        Some d \<Rightarrow> if d \<noteq> [] then ''cd '' @ [CHR 0x27] @ quote_body d @ [CHR 0x27] @ '' && '' @ command
                  else command
      | None \<Rightarrow> command)"

text \<open>Where the builder of the wrapped command has no memory, the command goes as it is.\<close>

definition wrapped_command :: "env \<Rightarrow> string option \<Rightarrow> string \<Rightarrow> string" where
  "wrapped_command E cwd command =
     (if nonempty cwd \<and> malloc_ok E (length (container_command cwd command) + 1)
      then container_command cwd command else command)"

lemma wrapped_command_eq:
  "malloc_ok E (length (container_command cwd command) + 1) \<Longrightarrow>
     wrapped_command E cwd command = container_command cwd command"
  by (cases cwd) (auto simp: wrapped_command_def container_command_def)

definition bash_container :: "env \<Rightarrow> string \<Rightarrow> int \<Rightarrow> string option action" where
  "bash_container E command timeout_ms =
     (let cmd = wrapped_command E (run_cwd E) command in
      do {
        (out, code) \<leftarrow> perform (if ws_has_shell_timeout E then ExecShellTimeout cmd timeout_ms
                               else ExecShell cmd) (\<lambda>h. ws_exec_shell E h cmd);
        (if code = 0 then emit (Call ''sandbox_learned_observe'' [opt_str (run_cwd E), JStr command])
         else ret ());
        ret (Some (if code = -1 \<and> out = None
                   then bash_error_json ''sandbox exec failed: could not run the command in the delegate container''
                   else print_or E (bash_result (or_else out []) [] code) ''{}''))
      })"

section \<open>Starting a child on this host\<close>

definition try_spawn :: "env \<Rightarrow> spawn_route \<Rightarrow> string \<Rightarrow> bool action" where
  "try_spawn E route command =
     do {
       ok \<leftarrow> ask (\<lambda>h. spawn_ok E h route);
       (if ok then do { emit (Spawn route command); ret True } else ret False)
     }"

text \<open>The directory the route works in: the delegation's, else the process's own.\<close>

definition bash_cwd :: "env \<Rightarrow> string option" where
  "bash_cwd E =
     (let cwd = (if nonempty (run_cwd E) then cbuf (max_path_len E) (the (run_cwd E))
                 else or_else (proc_cwd E) []) in
      if cwd = [] then None else Some cwd)"

definition guarded_workspace_dir :: "env \<Rightarrow> string option" where
  "guarded_workspace_dir E =
     (case bash_cwd E of
        None \<Rightarrow> None
      | Some cwd \<Rightarrow>
          if bash_path_under_root (Some cwd) (guard_write_root E) then Some cwd
          else (case workspace_root E cwd of Some r \<Rightarrow> Some r | None \<Rightarrow> Some cwd))"

definition sandbox_workspace_dir :: "env \<Rightarrow> string option" where
  "sandbox_workspace_dir E =
     (case bash_cwd E of None \<Rightarrow> None | Some cwd \<Rightarrow> workspace_root E cwd)"

text \<open>A direct route: validate, then fork; the string is what is left in the error buffer.\<close>

definition direct_route :: "env \<Rightarrow> (chain \<Rightarrow> spawn_route) \<Rightarrow> string + chain \<Rightarrow> string
    \<Rightarrow> (bool \<times> string) action" where
  "direct_route E route validated command =
     (case validated of
        Inl err \<Rightarrow> ret (False, err)
      | Inr c \<Rightarrow> do {
          ok \<leftarrow> try_spawn E (route c) command;
          ret (ok, if ok then [] else ''fork failed'')
        })"

definition fallback_allowed :: "env \<Rightarrow> string option \<Rightarrow> string \<Rightarrow> bool" where
  "fallback_allowed E w command =
     (w \<noteq> None \<and> guard_write_root E \<noteq> None
      \<and> lxc_cmd_safe (Some command) (guard_root E) (guard_write_root E)
      \<and> bash_path_under_root w (guard_write_root E)
      \<and> bash_guarded_fallback_paths_safe E command w)"

definition guarded_spawn :: "env \<Rightarrow> string option \<Rightarrow> string \<Rightarrow> (bool \<times> string) action" where
  "guarded_spawn E w command =
     do {
       (ok1, err1) \<leftarrow> direct_route E (\<lambda>c. ReadonlyChain c w) (guarded_readonly_exec E command w) command;
       if ok1 then ret (True, err1) else do {
         (ok2, err2) \<leftarrow> direct_route E (\<lambda>c. WorkspaceChain c w) (guarded_workspace_exec E command w) command;
         if ok2 then ret (True, err2) else do {
           ok3 \<leftarrow> try_spawn E (SandboxReadonly w) command;
           if ok3 then ret (True, err2)
           else if fallback_allowed E w command then do {
             ok4 \<leftarrow> try_spawn E (PlainShell w) command;
             ret (ok4, if ok4 then [] else err2)
           }
           else ret (False, err2)
         }
       }
     }"

definition guarded_failed_json :: "string \<Rightarrow> string" where
  "guarded_failed_json err =
     cbuf 512 (bash_error_json (''parent worktree write guard requires isolated shell execution; sandbox fallback could not start; ''
       @ (if err \<noteq> [] then err else ''direct fallback could not start'')))"

text \<open>The answer when no child could be started.\<close>

definition bash_start :: "env \<Rightarrow> string \<Rightarrow> (string option) action" where
  "bash_start E command =
     (if nonempty (guard_root E) then do {
        (ok, err) \<leftarrow> guarded_spawn E (guarded_workspace_dir E) command;
        ret (if ok then None else Some (guarded_failed_json err))
      }
      else if sandbox_conf E \<noteq> SANDBOX_MODE_OFF then do {
        ok \<leftarrow> try_spawn E (SandboxPlain (sandbox_workspace_dir E)) command;
        ret (if ok then None else Some (bash_error_json ''fork failed''))
      }
      else do {
        ok \<leftarrow> try_spawn E (PlainShell (run_cwd E)) command;
        ret (if ok then None else Some (bash_error_json ''fork failed''))
      })"

section \<open>Reading the pipes\<close>

text \<open>One pipe: what was kept, the size of the buffer, whether the end was seen, what waits.\<close>

record stream =
  s_buf :: string
  s_cap :: nat
  s_open :: bool
  s_pend :: string

definition stream_grow :: "env \<Rightarrow> nat \<Rightarrow> stream \<Rightarrow> stream" where
  "stream_grow E rawcap st =
     (if length (s_buf st) = s_cap st \<and> s_cap st < rawcap then
        let ncap = (if s_cap st * 2 > rawcap then rawcap else s_cap st * 2) in
        if malloc_ok E (ncap + 1) then st\<lparr>s_cap := ncap\<rparr> else st
      else st)"

text \<open>\<open>read\<close> into the rest of the buffer, or into 4096 bytes that are dropped.\<close>

definition stream_read :: "env \<Rightarrow> nat \<Rightarrow> stream \<Rightarrow> stream" where
  "stream_read E rawcap st0 =
     (let st = stream_grow E rawcap st0;
          room = (if length (s_buf st) < s_cap st then s_cap st - length (s_buf st) else 4096);
          got = take room (s_pend st) in
      if got = [] then st\<lparr>s_open := False\<rparr>
      else if length (s_buf st) < s_cap st
      then st\<lparr>s_buf := s_buf st @ got, s_pend := drop room (s_pend st)\<rparr>
      else st\<lparr>s_pend := drop room (s_pend st)\<rparr>)"

definition stream_arrive :: "string \<Rightarrow> stream \<Rightarrow> stream" where
  "stream_arrive bs st = st\<lparr>s_pend := s_pend st @ bs\<rparr>"

datatype capture_end = CapClosed | CapTimedOut | CapCancelled

text \<open>
  The loop, over what the outside does in each iteration; when the iterations before the
  deadline are used up and a pipe is still open, the time is over.
\<close>

fun capture_loop :: "env \<Rightarrow> nat \<Rightarrow> tick list \<Rightarrow> stream \<Rightarrow> stream
    \<Rightarrow> capture_end \<times> stream \<times> stream" where
  "capture_loop E rawcap [] out err =
     (if \<not> s_open out \<and> \<not> s_open err then (CapClosed, out, err) else (CapTimedOut, out, err))"
| "capture_loop E rawcap (t # ts) out err =
     (if \<not> s_open out \<and> \<not> s_open err then (CapClosed, out, err)
      else if t_cancel t then (CapCancelled, out, err)
      else
        let out1 = stream_arrive (t_out t) out; err1 = stream_arrive (t_err t) err in
        case t_sel t of
          SelEintr \<Rightarrow> capture_loop E rawcap ts out1 err1
        | SelFail \<Rightarrow> (CapTimedOut, out1, err1)
        | SelNone \<Rightarrow> capture_loop E rawcap ts out1 err1
        | SelReady ro re \<Rightarrow> capture_loop E rawcap ts
            (if s_open out1 \<and> ro then stream_read E rawcap out1 else out1)
            (if s_open err1 \<and> re then stream_read E rawcap err1 else err1))"

definition stream_init :: "nat \<Rightarrow> stream" where
  "stream_init cap = \<lparr>s_buf = [], s_cap = cap, s_open = True, s_pend = []\<rparr>"

definition kill_and_wait :: "unit action" where
  "kill_and_wait = do { emit (Call ''bash_kill_child_tree'' []); emit (Call ''waitpid'' []) }"

definition bash_capture :: "env \<Rightarrow> int \<Rightarrow> string option action" where
  "bash_capture E timeout_ms =
     (let rawcap = output_raw_max E in
      if \<not> malloc_ok E (rawcap + 1) then do {
        kill_and_wait;
        ret (Some ''error: out of memory'')
      }
      else if \<not> fds_fit E then do {
        kill_and_wait;
        ret (Some (bash_error_json ''fd exceeds FD_SETSIZE''))
      }
      else do {
        ticks \<leftarrow> ask (\<lambda>h. child_ticks E h timeout_ms);
        let (how, out, err) = capture_loop E rawcap ticks (stream_init rawcap) (stream_init rawcap);
        status \<leftarrow> (if how = CapClosed then perform (Call ''waitpid'' []) (child_wait E)
                   else do { kill_and_wait; ret OtherStatus });
        ret (cj_print (cj E) (bash_result (c_view (s_buf out))
               (if how = CapCancelled then ''delegate cancelled during bash execution''
                else c_view (s_buf err))
               (case status of Exited n \<Rightarrow> n | _ \<Rightarrow> -1)))
      })"

definition bash_local :: "env \<Rightarrow> string \<Rightarrow> int \<Rightarrow> string option action" where
  "bash_local E command timeout_ms =
     do {
       pipes \<leftarrow> ask (pipes_ok E);
       if \<not> pipes then ret (Some (bash_error_json ''pipe failed''))
       else if sandbox_effective E = SANDBOX_MODE_OFF \<and> delegation_id E \<noteq> None
       then ret (Some (bash_error_json ''refused: a delegated shell requires sandbox isolation, but the sandbox is disabled (sandbox.mode=off); running unsandboxed on the aimee-server host is not permitted''))
       else do {
         failed \<leftarrow> bash_start E command;
         case failed of
           Some msg \<Rightarrow> ret (Some msg)
         | None \<Rightarrow> bash_capture E timeout_ms
       }
     }"

definition tool_bash :: "env \<Rightarrow> string \<Rightarrow> int \<Rightarrow> string option action" where
  "tool_bash E command timeout_ms =
     (if ws E = WS_DETACHED \<and> ws_has_shell E then bash_detached E command
      else if ws E = WS_CONTAINER \<and> ws_has_shell E then bash_container E command timeout_ms
      else bash_local E command timeout_ms)"

section \<open>The capture loop\<close>

text \<open>
  The history of one pipe: what has arrived is what was read followed by what waits, the
  buffer is the front of what was read, and once the end was seen everything that had
  arrived by some iteration has been read.
\<close>

definition stream_ok :: "nat \<Rightarrow> ('t \<Rightarrow> string) \<Rightarrow> 't list \<Rightarrow> stream \<Rightarrow> bool" where
  "stream_ok cap f past st \<longleftrightarrow>
     (\<exists>consumed. concat (map f past) = consumed @ s_pend st \<and> s_buf st = take cap consumed
        \<and> s_cap st = cap
        \<and> (\<not> s_open st \<longrightarrow> (\<exists>n \<le> length past. consumed = concat (map f (take n past)))))"

lemma stream_ok_init: "stream_ok cap f [] (stream_init cap)"
  by (simp add: stream_ok_def stream_init_def)

lemma stream_ok_arrive:
  assumes "stream_ok cap f past st"
  shows "stream_ok cap f (past @ [t]) (stream_arrive (f t) st)"
proof -
  obtain consumed where c: "concat (map f past) = consumed @ s_pend st" "s_buf st = take cap consumed"
      "s_cap st = cap" "\<not> s_open st \<Longrightarrow> \<exists>n \<le> length past. consumed = concat (map f (take n past))"
    using assms by (auto simp: stream_ok_def)
  have "\<exists>n \<le> length (past @ [t]). consumed = concat (map f (take n (past @ [t])))" if closed: "\<not> s_open st"
  proof -
    obtain n where "n \<le> length past" "consumed = concat (map f (take n past))"
      using c(4) [OF closed] by blast
    then show ?thesis by (intro exI [of _ n]) simp
  qed
  with c show ?thesis
    unfolding stream_ok_def by (intro exI [of _ consumed]) (simp add: stream_arrive_def)
qed

lemma stream_grow_id: "s_cap st = rawcap \<Longrightarrow> stream_grow E rawcap st = st"
  by (simp add: stream_grow_def)

lemma stream_ok_read:
  assumes "stream_ok cap f past st" "s_open st"
  shows "stream_ok cap f past (stream_read E cap st)"
proof -
  obtain consumed where c: "concat (map f past) = consumed @ s_pend st" "s_buf st = take cap consumed"
      "s_cap st = cap"
    using assms(1) by (auto simp: stream_ok_def)
  note g = stream_grow_id [OF c(3), of E]
  let ?room = "if length (s_buf st) < cap then cap - length (s_buf st) else 4096"
  let ?got = "take ?room (s_pend st)"
  show ?thesis
  proof (cases "?got = []")
    case True
    then have "s_pend st = []" by (auto split: if_splits)
    moreover have "stream_read E cap st = st\<lparr>s_open := False\<rparr>"
      using \<open>s_pend st = []\<close> by (simp add: stream_read_def Let_def g)
    ultimately show ?thesis
      using c unfolding stream_ok_def
      by (intro exI [of _ consumed]) (auto intro!: exI [of _ "length past"])
  next
    case False
    show ?thesis
    proof (cases "length (s_buf st) < cap")
      case True
      then have len: "length consumed < cap" using c(2) by (auto simp: min_def split: if_splits)
      let ?n = "cap - length consumed"
      have buf: "s_buf st = consumed" using c(2) len by simp
      have "stream_read E cap st =
          st\<lparr>s_buf := consumed @ take ?n (s_pend st), s_pend := drop ?n (s_pend st)\<rparr>"
        using False len by (simp add: stream_read_def Let_def g c(3) buf)
      moreover have "consumed @ take ?n (s_pend st) = take cap (consumed @ take ?n (s_pend st))"
        using len by simp
      ultimately show ?thesis
        using c(1,3) assms(2) unfolding stream_ok_def
        by (intro exI [of _ "consumed @ take ?n (s_pend st)"]) simp
    next
      case full: False
      then have "take cap consumed = take cap (consumed @ ?got)"
        using c(2) by (auto simp: min_def split: if_splits)
      moreover have "stream_read E cap st = st\<lparr>s_pend := drop ?room (s_pend st)\<rparr>"
        using full False by (simp add: stream_read_def Let_def g c(3))
      ultimately show ?thesis
        using c assms(2) unfolding stream_ok_def by (intro exI [of _ "consumed @ ?got"]) simp
    qed
  qed
qed

lemma capture_loop_ok:
  assumes "capture_loop E cap ts out err = (how, out', err')"
    and "stream_ok cap t_out past out" "stream_ok cap t_err past err"
  shows "\<exists>n \<le> length ts. stream_ok cap t_out (past @ take n ts) out'
    \<and> stream_ok cap t_err (past @ take n ts) err'
    \<and> (how = CapClosed \<longrightarrow> \<not> s_open out' \<and> \<not> s_open err')"
  using assms
proof (induction ts arbitrary: out err past)
  case Nil
  then show ?case by (auto split: if_splits)
next
  case (Cons t ts)
  let ?o1 = "stream_arrive (t_out t) out" and ?e1 = "stream_arrive (t_err t) err"
  have now: "\<exists>n \<le> length (t # ts). P (past @ take n (t # ts))" if "P past" for P :: "tick list \<Rightarrow> bool"
    using that by (intro exI [of _ 0]) simp
  have one: "\<exists>n \<le> length (t # ts). P (past @ take n (t # ts))" if "P (past @ [t])" for P :: "tick list \<Rightarrow> bool"
    using that by (intro exI [of _ 1]) simp
  have later: "\<exists>n \<le> length (t # ts). P (past @ take n (t # ts))"
    if "\<exists>n \<le> length ts. P ((past @ [t]) @ take n ts)" for P :: "tick list \<Rightarrow> bool"
  proof -
    from that obtain n where "n \<le> length ts" "P ((past @ [t]) @ take n ts)" by blast
    then show ?thesis by (intro exI [of _ "Suc n"]) simp
  qed
  have arr: "stream_ok cap t_out (past @ [t]) ?o1" "stream_ok cap t_err (past @ [t]) ?e1"
    using Cons.prems(2,3) by (simp_all add: stream_ok_arrive)
  show ?case
  proof (cases "\<not> s_open out \<and> \<not> s_open err \<or> t_cancel t")
    case True
    then have "out' = out" "err' = err" "how = CapClosed \<longrightarrow> \<not> s_open out \<and> \<not> s_open err"
      using Cons.prems(1) by (auto split: if_splits)
    with Cons.prems(2,3) show ?thesis by (intro now) simp
  next
    case go: False
    show ?thesis
    proof (cases "t_sel t")
      case SelEintr
      with go Cons.prems(1) have "capture_loop E cap ts ?o1 ?e1 = (how, out', err')" by auto
      from Cons.IH [OF this arr] show ?thesis by (rule later)
    next
      case SelFail
      with go Cons.prems(1) have "how = CapTimedOut" "out' = ?o1" "err' = ?e1" by auto
      with arr show ?thesis by (intro one) simp
    next
      case SelNone
      with go Cons.prems(1) have "capture_loop E cap ts ?o1 ?e1 = (how, out', err')" by auto
      from Cons.IH [OF this arr] show ?thesis by (rule later)
    next
      case (SelReady ro re)
      let ?o2 = "if s_open ?o1 \<and> ro then stream_read E cap ?o1 else ?o1"
      let ?e2 = "if s_open ?e1 \<and> re then stream_read E cap ?e1 else ?e1"
      have l: "capture_loop E cap ts ?o2 ?e2 = (how, out', err')"
        using SelReady go Cons.prems(1) by (auto simp: Let_def)
      have "stream_ok cap t_out (past @ [t]) ?o2" "stream_ok cap t_err (past @ [t]) ?e2"
        using arr by (simp_all add: stream_ok_read)
      from Cons.IH [OF l this] show ?thesis by (rule later)
    qed
  qed
qed

lemma stream_ok_buf:
  assumes "stream_ok cap f past st"
  shows "length (s_buf st) \<le> cap" "prefix (s_buf st) (concat (map f past))"
    "\<not> s_open st \<Longrightarrow> \<exists>n. s_buf st = take cap (concat (map f (take n past)))"
proof -
  obtain consumed where c: "concat (map f past) = consumed @ s_pend st" "s_buf st = take cap consumed"
      "\<not> s_open st \<Longrightarrow> \<exists>n \<le> length past. consumed = concat (map f (take n past))"
    using assms by (auto simp: stream_ok_def)
  show "length (s_buf st) \<le> cap" using c(2) by simp
  show "prefix (s_buf st) (concat (map f past))"
    unfolding c(1) c(2) using take_is_prefix prefix_order.trans by (metis prefix_append prefixI)
  show "\<exists>n. s_buf st = take cap (concat (map f (take n past)))" if "\<not> s_open st"
    using c that by blast
qed

section \<open>What tool\_bash starts\<close>

definition guarded_route :: "env \<Rightarrow> string option \<Rightarrow> string \<Rightarrow> spawn_route \<Rightarrow> bool" where
  "guarded_route E w command route =
     (case route of
        ReadonlyChain c v \<Rightarrow> v = w \<and> guarded_readonly_exec E command w = Inr c
      | WorkspaceChain c v \<Rightarrow> v = w \<and> guarded_workspace_exec E command w = Inr c
      | SandboxReadonly v \<Rightarrow> v = w
      | SandboxPlain v \<Rightarrow> False
      | PlainShell v \<Rightarrow> v = w \<and> fallback_allowed E w command)"

lemma run_try_spawn:
  "run_state (try_spawn E route command) h =
     (spawn_ok E h route, if spawn_ok E h route then h @ [Spawn route command] else h)"
  by (simp add: try_spawn_def)

lemma run_direct_route:
  "run_state (direct_route E route v command) h =
     (case v of
        Inl err \<Rightarrow> ((False, err), h)
      | Inr c \<Rightarrow> if spawn_ok E h (route c) then ((True, []), h @ [Spawn (route c) command])
               else ((False, ''fork failed''), h))"
  by (simp add: direct_route_def run_try_spawn split: sum.split)

lemma run_if: "run_state (if c then a else b) h = (if c then run_state a h else run_state b h)"
  by simp

lemma guarded_spawn_run:
  obtains (started) route where "run_state (guarded_spawn E w command) h = ((True, []), h @ [Spawn route command])"
      "guarded_route E w command route" "spawn_ok E h route"
    | (sandboxed) err where "run_state (guarded_spawn E w command) h =
        ((True, err), h @ [Spawn (SandboxReadonly w) command])" "spawn_ok E h (SandboxReadonly w)"
    | (failed) err where "run_state (guarded_spawn E w command) h = ((False, err), h)"
proof -
  let ?ro = "guarded_readonly_exec E command w" and ?wx = "guarded_workspace_exec E command w"
  note run = guarded_spawn_def run_direct_route run_try_spawn run_if
  show thesis
  proof (cases "\<exists>c. ?ro = Inr c \<and> spawn_ok E h (ReadonlyChain c w)")
    case True
    then obtain c where "?ro = Inr c" "spawn_ok E h (ReadonlyChain c w)" by blast
    then show thesis by (intro started [of "ReadonlyChain c w"]) (simp_all add: run guarded_route_def)
  next
    case ro: False
    then obtain err1 where r1: "run_state (direct_route E (\<lambda>c. ReadonlyChain c w) ?ro command) h =
        ((False, err1), h)"
      by (cases ?ro) (auto simp: run_direct_route)
    show thesis
    proof (cases "\<exists>c. ?wx = Inr c \<and> spawn_ok E h (WorkspaceChain c w)")
      case True
      then obtain c where c: "?wx = Inr c" "spawn_ok E h (WorkspaceChain c w)" by blast
      then have "run_state (direct_route E (\<lambda>c. WorkspaceChain c w) ?wx command) h =
          ((True, []), h @ [Spawn (WorkspaceChain c w) command])"
        by (simp add: run_direct_route)
      then show thesis using c
        by (intro started [of "WorkspaceChain c w"]) (simp_all add: guarded_spawn_def r1 guarded_route_def)
    next
      case wx: False
      then obtain err2 where r2: "run_state (direct_route E (\<lambda>c. WorkspaceChain c w) ?wx command) h =
          ((False, err2), h)"
        by (cases ?wx) (auto simp: run_direct_route)
      show thesis
      proof (cases "spawn_ok E h (SandboxReadonly w)")
        case True
        then show thesis
          by (intro sandboxed [of err2]) (simp_all add: guarded_spawn_def r1 r2 run_try_spawn)
      next
        case sb: False
        show thesis
        proof (cases "fallback_allowed E w command \<and> spawn_ok E h (PlainShell w)")
          case True
          then show thesis using sb
            by (intro started [of "PlainShell w"])
               (simp_all add: guarded_spawn_def r1 r2 run_try_spawn guarded_route_def)
        next
          case False
          then show thesis using sb
            by (intro failed [of err2]) (auto simp: guarded_spawn_def r1 r2 run_try_spawn)
        qed
      qed
    qed
  qed
qed

text \<open>The gate every child of the local route has passed.\<close>

definition spawn_gate :: "env \<Rightarrow> string \<Rightarrow> spawn_route \<Rightarrow> bool" where
  "spawn_gate E command route \<longleftrightarrow>
     \<not> (sandbox_effective E = SANDBOX_MODE_OFF \<and> delegation_id E \<noteq> None) \<and>
     (if nonempty (guard_root E) then guarded_route E (guarded_workspace_dir E) command route
      else if sandbox_conf E \<noteq> SANDBOX_MODE_OFF then route = SandboxPlain (sandbox_workspace_dir E)
      else route = PlainShell (run_cwd E))"

lemma bash_start_run:
  assumes "\<not> (sandbox_effective E = SANDBOX_MODE_OFF \<and> delegation_id E \<noteq> None)"
  obtains (started) route where "run_state (bash_start E command) h = (None, h @ [Spawn route command])"
      "spawn_gate E command route"
    | (failed) msg where "run_state (bash_start E command) h = (Some msg, h)"
proof (cases "nonempty (guard_root E)")
  case guarded: True
  show thesis
  proof (cases rule: guarded_spawn_run [of E "guarded_workspace_dir E" command h])
    case (started route)
    with guarded assms that(1) [of route] show thesis by (simp add: bash_start_def spawn_gate_def)
  next
    case (sandboxed err)
    with guarded assms that(1) [of "SandboxReadonly (guarded_workspace_dir E)"] show thesis
      by (simp add: bash_start_def spawn_gate_def guarded_route_def)
  next
    case (failed err)
    with guarded that(2) show thesis by (simp add: bash_start_def)
  qed
next
  case unguarded: False
  let ?route = "if sandbox_conf E \<noteq> SANDBOX_MODE_OFF then SandboxPlain (sandbox_workspace_dir E)
    else PlainShell (run_cwd E)"
  have run: "run_state (bash_start E command) h =
      (if spawn_ok E h ?route then (None, h @ [Spawn ?route command])
       else (Some (bash_error_json ''fork failed''), h))"
    using unguarded by (simp add: bash_start_def run_try_spawn)
  have gate: "spawn_gate E command ?route"
    using unguarded assms by (simp add: spawn_gate_def)
  show thesis
  proof (cases "spawn_ok E h ?route")
    case True
    with run have "run_state (bash_start E command) h = (None, h @ [Spawn ?route command])" by simp
    then show thesis using gate by (rule that(1))
  next
    case False
    with run have "run_state (bash_start E command) h = (Some (bash_error_json ''fork failed''), h)" by simp
    then show thesis by (rule that(2))
  qed
qed

abbreviation waited :: event where
  "waited \<equiv> Call ''waitpid'' []"

abbreviation killed :: event where
  "killed \<equiv> Call ''bash_kill_child_tree'' []"

lemma bash_capture_trace:
  "trace_of (bash_capture E t) h = h @ [waited] \<or> trace_of (bash_capture E t) h = h @ [killed, waited]"
  by (auto simp: bash_capture_def trace_of_def kill_and_wait_def Let_def run_if split: prod.split)

lemma bash_local_run:
  obtains (none) "trace_of (bash_local E command t) h = h"
    | (child) route rest where "trace_of (bash_local E command t) h = h @ Spawn route command # rest"
      "rest \<in> {[waited], [killed, waited]}" "spawn_gate E command route"
proof (cases "pipes_ok E h \<and> \<not> (sandbox_effective E = SANDBOX_MODE_OFF \<and> delegation_id E \<noteq> None)")
  case True
  then have off: "\<not> (sandbox_effective E = SANDBOX_MODE_OFF \<and> delegation_id E \<noteq> None)" by blast
  show thesis
  proof -
    consider (started) route where "run_state (bash_start E command) h = (None, h @ [Spawn route command])"
        "spawn_gate E command route"
      | (failed) msg where "run_state (bash_start E command) h = (Some msg, h)"
      using bash_start_run [OF off, of command h] by metis
    then show thesis
    proof cases
      case started
      have "trace_of (bash_local E command t) h = trace_of (bash_capture E t) (h @ [Spawn route command])"
        using True started(1) off by (auto simp: bash_local_def trace_of_def run_if)
      then show thesis
        using bash_capture_trace [of E t "h @ [Spawn route command]"] child [of route] started(2) by auto
  next
      case failed
      with True off none show thesis by (auto simp: bash_local_def trace_of_def run_if)
    qed
  qed
next
  case False
  with none show thesis by (auto simp: bash_local_def trace_of_def)
qed

text \<open>The same for the whole tool: nothing is forked on this host by the first two routes.\<close>

lemma tool_bash_trace:
  "\<exists>evs. trace_of (tool_bash E command t) h = h @ evs
    \<and> ((\<forall>route c. Spawn route c \<notin> set evs) \<and> waited \<notin> set evs
       \<or> (\<exists>route rest. evs = Spawn route command # rest \<and> rest \<in> {[waited], [killed, waited]}
            \<and> spawn_gate E command route
            \<and> \<not> (ws_has_shell E \<and> (ws E = WS_DETACHED \<or> ws E = WS_CONTAINER))))"
proof (cases "ws_has_shell E \<and> (ws E = WS_DETACHED \<or> ws E = WS_CONTAINER)")
  case True
  let ?P = "\<lambda>e. (\<forall>route c. e \<noteq> Spawn route c) \<and> e \<noteq> waited"
  have "emits ?P (tool_bash E command t)"
    using True unfolding tool_bash_def bash_detached_def bash_container_def
    by (auto simp: Let_def intro!: emits_intros)
  from emits_trace [OF this, of h] obtain evs where
    e: "trace_of (tool_bash E command t) h = h @ evs" "list_all ?P evs" by blast
  from e(2) have "\<forall>route c. Spawn route c \<notin> set evs" "waited \<notin> set evs"
    unfolding list_all_iff by blast+
  with e(1) show ?thesis by (intro exI [of _ evs]) blast
next
  case False
  then have local: "tool_bash E command t = bash_local E command t" by (auto simp: tool_bash_def)
  show ?thesis
  proof (cases rule: bash_local_run [of E command t h])
    case none
    with local show ?thesis by auto
  next
    case (child route rest)
    with local False show ?thesis by (intro exI [of _ "Spawn route command # rest"]) auto
  qed
qed

lemma tool_bash_spawn:
  assumes "Spawn route c \<in> set (drop (length h) (trace_of (tool_bash E command t) h))"
  shows "c = command \<and> spawn_gate E command route
    \<and> \<not> (ws_has_shell E \<and> (ws E = WS_DETACHED \<or> ws E = WS_CONTAINER))"
  using tool_bash_trace [of E command t h] assms by auto

section \<open>Words of a shell line\<close>

text \<open>
  The first word of a POSIX shell line: single quotes keep everything up to the next one, a
  backslash outside quotes keeps the next character, a blank or an operator ends the word.
\<close>

definition sh_meta :: "char \<Rightarrow> bool" where
  "sh_meta c = (c \<in> set '' ;&|<>()'' \<or> c = CHR 0x09 \<or> c = CHR 0x0A)"

fun sh_word :: "bool \<Rightarrow> string \<Rightarrow> (string \<times> string) option" where
  "sh_word quoted [] = (if quoted then None else Some ([], []))"
| "sh_word quoted (c # cs) =
     (if quoted then
        (if c = CHR 0x27 then sh_word False cs
         else map_option (\<lambda>(w, r). (c # w, r)) (sh_word True cs))
      else if c = CHR 0x27 then sh_word True cs
      else if c = CHR 0x5C then
        (case cs of [] \<Rightarrow> None
         | d # ds \<Rightarrow> map_option (\<lambda>(w, r). (d # w, r)) (sh_word False ds))
      else if sh_meta c then Some ([], c # cs)
      else map_option (\<lambda>(w, r). (c # w, r)) (sh_word False cs))"

lemma sh_word_quote_body:
  "sh_word True (quote_body d @ CHR 0x27 # rest) = map_option (\<lambda>(w, r). (d @ w, r)) (sh_word False rest)"
proof (induction d)
  case Nil
  then show ?case by (simp add: option.map_ident case_prod_eta)
next
  case (Cons c d)
  then show ?case by (auto simp: option.map_comp comp_def split_beta)
qed

text \<open>A guarded delegate, the sandbox on but unable to start, as in an LXC guest.\<close>

definition lxc_env :: env where
  "lxc_env = ref_env\<lparr>delegation_id := Some ''d1'', guard_root := Some ''/parent'',
     shlex_split := (\<lambda>_ _. [''wget'', ''x'']),
     spawn_ok := (\<lambda>_ route. case route of PlainShell _ \<Rightarrow> True | _ \<Rightarrow> False)\<rparr>"

lemma lxc_fallback_runs:
  "trace_of (tool_bash lxc_env ''wget x'' 1000) [] = [Spawn (PlainShell (Some ''/ws'')) ''wget x'', killed, waited]"
proof -
  have dir: "guarded_workspace_dir lxc_env = Some ''/ws''"
    by (simp add: guarded_workspace_dir_def bash_cwd_def lxc_env_def ref_env_def cbuf_def
        bash_path_under_root_def)
  have ro: "guarded_readonly_exec lxc_env ''wget x'' (Some ''/ws'') =
      Inl ''command is not eligible for read-only direct execution''"
    by (simp add: guarded_readonly_exec_def bash_readonly_chain_validate_def readonly_ops_def lxc_env_def
        ref_env_def bash_command_is_readonly_exec_def bash_basename_def word_in_list_iff
        readonly_commands_def Let_def)
  have wx: "guarded_workspace_exec lxc_env ''wget x'' (Some ''/ws'') =
      Inl ''command is not eligible for guarded workspace execution''"
    by (simp add: guarded_workspace_exec_def bash_workspace_chain_validate_def workspace_ops_def
        lxc_env_def ref_env_def bash_command_is_guarded_workspace_segment_def bash_basename_def Let_def)
  have fb: "fallback_allowed lxc_env (Some ''/ws'') ''wget x''"
    by (simp add: fallback_allowed_def lxc_cmd_safe_def agent_tools_cmd_refers_to_readonly_root_def
        ro_scan.simps bash_path_under_root_def bash_guarded_fallback_paths_safe_def
        bash_command_paths_stay_in_guarded_workspace_def bash_guarded_path_token_allowed_def
        bash_token_looks_path_like_def lxc_env_def ref_env_def Let_def)
  have "run_state (guarded_spawn lxc_env (Some ''/ws'') ''wget x'') [] =
      ((True, []), [Spawn (PlainShell (Some ''/ws'')) ''wget x''])"
    using fb by (simp add: guarded_spawn_def direct_route_def ro wx run_try_spawn)
       (simp add: lxc_env_def)
  then show ?thesis
    by (simp add: tool_bash_def bash_local_def bash_start_def dir trace_of_def)
       (simp add: lxc_env_def ref_env_def bash_capture_def kill_and_wait_def stream_init_def Let_def trace_of_def)
qed

section \<open>Properties\<close>



text \<open>C29. The working directory survives the quoting of the container route: in the command
  handed to the container, the word after \<open>cd\<close> is read back by a shell as exactly the
  directory, whatever characters it contains, and what follows it is \<open>&&\<close> and the command.\<close>

theorem container_cwd_roundtrip:
  "container_command (Some (c # d)) command =
     ''cd '' @ drop 3 (container_command (Some (c # d)) command)
   \<and> sh_word False (drop 3 (container_command (Some (c # d)) command)) = Some (c # d, '' && '' @ command)"
proof -
  have "sh_word False (drop 3 (container_command (Some (c # d)) command)) =
      sh_word True (quote_body (c # d) @ CHR 0x27 # '' && '' @ command)"
    by (simp add: container_command_def)
  also have "\<dots> = Some (c # d, '' && '' @ command)"
    by (simp only: sh_word_quote_body) (simp add: sh_meta_def)
  finally show ?thesis by (simp add: container_command_def)
qed

text \<open>C4. A delegated shell outside a parent guard never runs unsandboxed: when a delegation is
  active, and the effective mode is off whenever the configured one is, every child started
  on this host is started through the sandbox.\<close>

theorem delegated_shell_isolated:
  assumes "delegation_id E \<noteq> None" "\<not> nonempty (guard_root E)"
    and "sandbox_conf E = SANDBOX_MODE_OFF \<Longrightarrow> sandbox_effective E = SANDBOX_MODE_OFF"
    and "Spawn route c \<in> set (drop (length h) (trace_of (tool_bash E command t) h))"
  shows "route = SandboxPlain (sandbox_workspace_dir E) \<and> sandbox_effective E \<noteq> SANDBOX_MODE_OFF"
  using tool_bash_spawn [OF assms(4)] assms(1-3) by (auto simp: spawn_gate_def split: if_splits)

theorem delegated_shell_isolated_witness:
  "let E = ref_env\<lparr>delegation_id := Some ''d1''\<rparr> in
   trace_of (tool_bash E ''ls'' 1000) [] = [Spawn (SandboxPlain None) ''ls'', killed, waited]
   \<and> SandboxPlain None = SandboxPlain (sandbox_workspace_dir E)"
proof -
  let ?E = "ref_env\<lparr>delegation_id := Some ''d1''\<rparr>"
  have run: "trace_of (tool_bash ?E ''ls'' 1000) [] = [Spawn (SandboxPlain None) ''ls'', killed, waited]"
    by (simp add: tool_bash_def bash_local_def bash_start_def try_spawn_def ref_env_def trace_of_def
        sandbox_workspace_dir_def bash_cwd_def cbuf_def bash_capture_def kill_and_wait_def
        stream_init_def Let_def)
  then show ?thesis
    using delegated_shell_isolated [where E = ?E and route = "SandboxPlain None" and c = "''ls''"
        and h = "[]" and command = "''ls''" and t = 1000]
    by (simp add: ref_env_def Let_def)
qed

text \<open>C3. Under a parent guard every child passed one of four gates: a chain of commands from
  the read-only table; a chain of workspace commands, in a directory under the writable
  root; the sandbox with the parent mounted read-only; or a plain shell whose command does
  not refer to the parent, in a directory under the writable root, with every path-like token
  normalising into it.\<close>

theorem guarded_shell_gates:
  assumes "nonempty (guard_root E)"
    and "Spawn route c \<in> set (drop (length h) (trace_of (tool_bash E command t) h))"
  shows "let w = guarded_workspace_dir E in
    (\<exists>ch. route = ReadonlyChain ch w \<and> (\<forall>cmd \<in> set (fst ch). bash_command_is_readonly_exec E cmd w))
    \<or> (\<exists>ch. route = WorkspaceChain ch w \<and> bash_path_under_root w (guard_write_root E)
         \<and> (\<forall>cmd \<in> set (fst ch). bash_command_is_guarded_workspace_segment E cmd w))
    \<or> route = SandboxReadonly w
    \<or> (route = PlainShell w \<and> bash_path_under_root w (guard_write_root E)
         \<and> \<not> agent_tools_cmd_refers_to_readonly_root (Some command) (guard_root E) (guard_write_root E)
         \<and> (\<forall>tok \<in> set (shlex_split E command 64). bash_token_looks_path_like tok \<longrightarrow>
              bash_path_under_root (Some (normalize_path E tok w)) (guard_write_root E)))"
proof -
  let ?w = "guarded_workspace_dir E"
  have gate: "guarded_route E ?w command route"
    using tool_bash_spawn [OF assms(2)] assms(1) by (simp add: spawn_gate_def)
  show ?thesis
  proof (cases route)
    case (ReadonlyChain ch v)
    with gate have "guarded_readonly_exec E command ?w = Inr ch" "v = ?w" by (auto simp: guarded_route_def)
    then show ?thesis
      using ReadonlyChain guarded_readonly_commands by (auto simp: Let_def)
  next
    case (WorkspaceChain ch v)
    with gate have "guarded_workspace_exec E command ?w = Inr ch" "v = ?w" by (auto simp: guarded_route_def)
    then show ?thesis
      using WorkspaceChain guarded_workspace_commands by (auto simp: Let_def)
  next
    case (SandboxReadonly v)
    with gate show ?thesis by (simp add: guarded_route_def Let_def)
  next
    case (SandboxPlain v)
    with gate show ?thesis by (simp add: guarded_route_def)
  next
    case (PlainShell v)
    with gate have f: "v = ?w" "fallback_allowed E ?w command" by (auto simp: guarded_route_def)
    then have "bash_guarded_fallback_paths_safe E command ?w" by (simp add: fallback_allowed_def)
    then have "\<forall>tok \<in> set (shlex_split E command 64). bash_guarded_path_token_allowed E tok ?w"
      by (auto simp: bash_guarded_fallback_paths_safe_def Let_def list_all_iff
          bash_command_paths_stay_in_guarded_workspace_def split: if_splits)
    then show ?thesis
      using PlainShell f path_token_confined
      by (auto simp: Let_def fallback_allowed_def lxc_cmd_safe_def)
  qed
qed

theorem guarded_shell_gates_witness:
  "trace_of (tool_bash lxc_env ''wget x'' 1000) [] = [Spawn (PlainShell (Some ''/ws'')) ''wget x'', killed, waited]
   \<and> \<not> agent_tools_cmd_refers_to_readonly_root (Some ''wget x'') (guard_root lxc_env) (guard_write_root lxc_env)"
proof -
  have run: "trace_of (tool_bash lxc_env ''wget x'' 1000) [] =
      [Spawn (PlainShell (Some ''/ws'')) ''wget x'', killed, waited]"
    by (rule lxc_fallback_runs)
  show ?thesis
    using run guarded_shell_gates [where E = lxc_env and route = "PlainShell (Some ''/ws'')"
        and c = "''wget x''" and h = "[]" and command = "''wget x''" and t = 1000]
    by (simp add: lxc_env_def Let_def)
qed

text \<open>C17. No child is left behind: a shell call starts at most one child on this host, and the
  call that starts one waits for it exactly once, after a kill or not, before it returns;
  a call that starts none waits for none.\<close>

theorem bash_child_reaped:
  "\<exists>evs. trace_of (tool_bash E command t) h = h @ evs
    \<and> ((\<forall>route c. Spawn route c \<notin> set evs) \<and> Call ''waitpid'' [] \<notin> set evs
       \<or> (\<exists>route. evs = [Spawn route command, Call ''waitpid'' []]
            \<or> evs = [Spawn route command, Call ''bash_kill_child_tree'' [], Call ''waitpid'' []]))"
  using tool_bash_trace [of E command t h] by blast

end
