(* ===== verification/File_Tools.thy ===== *)
theory File_Tools
  imports Reference_Env
begin

text \<open>
  The file tools: reading a window of a file, writing, listing
  (\<open>agent_tools.c\<close>, lines 689 to 717 and 1141 to 1499) and the two edits of
  \<open>agent_tools_dispatch.c\<close> (lines 306 to 574). File contents come from the workspace
  provider; snapshots, the diff and the anchored edit plan are services of the environment.
\<close>

section \<open>Paths\<close>

definition windows_absolute :: "string \<Rightarrow> bool" where
  "windows_absolute p =
     (case p of c # d # e # _ \<Rightarrow> isalpha c \<and> d = CHR '':'' \<and> (e = CHR 0x5C \<or> e = CHR ''/'')
      | _ \<Rightarrow> False)"

definition path_in_thread_cwd :: "env \<Rightarrow> string \<Rightarrow> string" where
  "path_in_thread_cwd E path =
     (if path = [] \<or> hd path = CHR ''/'' then path
      else if windows_absolute path then path
      else if \<not> nonempty (run_cwd E) then path
      else cbuf (max_path_len E) (the (run_cwd E) @ ''/'' @ path))"

text \<open>A message printed into a buffer of 512 bytes.\<close>

definition err_path :: "string \<Rightarrow> string \<Rightarrow> string" where
  "err_path msg path = cbuf 512 (msg @ path)"

section \<open>Reading\<close>

definition tool_buffer_looks_binary :: "string \<Rightarrow> bool" where
  "tool_buffer_looks_binary buf =
     list_ex (\<lambda>c. let n = (of_char c :: nat) in
        n = 0 \<or> n = 127 \<or> n < 32 \<and> n \<noteq> 10 \<and> n \<noteq> 13 \<and> n \<noteq> 9) buf"

text \<open>The sample is read at the start of the stream and the position restored.\<close>

definition tool_file_looks_binary :: "string \<Rightarrow> bool" where
  "tool_file_looks_binary data = tool_buffer_looks_binary (take 4096 data)"

text \<open>The index of the last newline at or below \<open>cut\<close>, 0 when there is none above 0.\<close>

fun cut_back :: "string \<Rightarrow> nat \<Rightarrow> nat" where
  "cut_back s 0 = 0"
| "cut_back s (Suc n) = (if s ! Suc n \<noteq> CHR 0x0A then cut_back s n else Suc n)"

definition truncate_formatted :: "env \<Rightarrow> nat \<Rightarrow> string \<Rightarrow> string" where
  "truncate_formatted E cap s =
     (if length s > cap then
        let cut = cut_back s cap;
            kept = take (if cut > 0 then cut + 1 else cap) s in
        if malloc_ok E (length kept + 96)
        then kept @ ''[truncated at '' @ show_nat cap @ '' bytes; re-read with offset/limit for more]'' @ [CHR 0x0A]
        else kept
      else s)"

text \<open>\<open>fgets\<close> into 4096 bytes: up to a newline, included, or 4095 characters.\<close>

fun fgets :: "nat \<Rightarrow> string \<Rightarrow> string \<times> string" where
  "fgets 0 s = ([], s)"
| "fgets (Suc n) [] = ([], [])"
| "fgets (Suc n) (c # s) =
     (if c = CHR 0x0A then ([c], s) else (case fgets n s of (l, r) \<Rightarrow> (c # l, r)))"

lemma fgets_append: "fst (fgets n s) @ snd (fgets n s) = s"
  by (induction n s rule: fgets.induct) (auto split: prod.splits)

lemma fgets_shorter: "s \<noteq> [] \<Longrightarrow> 0 < n \<Longrightarrow> length (snd (fgets n s)) < length s"
proof -
  assume "s \<noteq> []" "0 < n"
  then have "fst (fgets n s) \<noteq> []"
    by (cases n; cases s) (auto split: prod.splits)
  then show ?thesis using fgets_append [of n s] by (metis length_append length_greater_0_conv less_add_same_cancel2)
qed

function raw_read_loop :: "nat \<Rightarrow> int \<Rightarrow> nat \<Rightarrow> nat \<Rightarrow> nat \<Rightarrow> string \<Rightarrow> string \<Rightarrow> string" where
  "raw_read_loop cap offset max_lines line_num lines_read buf data =
     (if data = [] then buf
      else let line = c_view (fst (fgets 4095 data)); rest = snd (fgets 4095 data);
               line_num = line_num + 1 in
        if offset > 0 \<and> int line_num \<le> offset
        then raw_read_loop cap offset max_lines line_num lines_read buf rest
        else if length buf + length line \<ge> cap then buf @ take (cap - length buf) line
        else if lines_read + 1 \<ge> max_lines then buf @ line
        else raw_read_loop cap offset max_lines line_num (lines_read + 1) (buf @ line) rest)"
  by pat_completeness auto
termination
  by (relation "measure (\<lambda>(cap, offset, mx, lno, lr, buf, data). length data)") (auto simp: fgets_shorter)

declare raw_read_loop.simps [simp del]

definition tool_read_file :: "env \<Rightarrow> string \<Rightarrow> int \<Rightarrow> int \<Rightarrow> bool \<Rightarrow> string action" where
  "tool_read_file E path offset limit raw =
     do {
       proposal \<leftarrow> (if starts_with path ''proposal:''
                   then ask (\<lambda>h. Some (or_else (call_str E h ''resolve_proposal_path'' [JStr (drop 9 path)]) (drop 9 path)))
                   else ret None);
       let actual = path_in_thread_cwd E (or_else proposal path);
       case validate_path E actual of
         Inl err \<Rightarrow> ret err
       | Inr resolved \<Rightarrow> do {
           content \<leftarrow> ask (\<lambda>h. ws_read_all E h actual);
           case content of
             None \<Rightarrow> ret (err_path ''error: cannot open '' actual)
           | Some data \<Rightarrow>
               if \<not> malloc_ok E (length data) then ret ''error: out of memory''
               else if tool_file_looks_binary data
               then ret (err_path ''error: binary file omitted: '' actual)
               else if \<not> raw then do {
                 snap \<leftarrow> perform (SnapshotCreate resolved) (\<lambda>h. snapshot_new E h resolved);
                 formatted \<leftarrow> ask (\<lambda>h. call_str E h ''anchor_format_read''
                   [JStr data, jint offset, jint limit, opt_str snap]);
                 ret (case formatted of
                        None \<Rightarrow> ''error: out of memory''
                      | Some s \<Rightarrow> truncate_formatted E (agent_tool_output_cap E) s)
               }
               else if \<not> malloc_ok E (agent_tool_output_cap E + 1) then ret ''error: out of memory''
               else ret (raw_read_loop (agent_tool_output_cap E) offset
                           (if limit > 0 then nat limit else 100000) 0 0 [] data)
         }
     }"

section \<open>Writing\<close>

definition ro_delegate_msg :: string where
  "ro_delegate_msg = ''error: write blocked: read-only delegate (not write-capable)''"

definition tool_write_file :: "env \<Rightarrow> string \<Rightarrow> string \<Rightarrow> string action" where
  "tool_write_file E path content =
     (let actual = path_in_thread_cwd E path in
      case validate_path E actual of
        Inl err \<Rightarrow> ret err
      | Inr resolved \<Rightarrow>
          if readonly_delegate E then ret ro_delegate_msg
          else if parent_guard_blocks E actual None
          then ret ''error: write blocked: parent worktree is read-only for delegates''
          else if \<not> valid_utf8 E content
          then ret ''error: content is not valid UTF-8; refusing text-file write''
          else do {
            old \<leftarrow> ask (\<lambda>h. case ws_stat E h actual of
                          Some sz \<Rightarrow> if sz > 0 \<and> sz < 1024 * 1024 then ws_read_all E h actual else None
                        | None \<Rightarrow> None);
            written \<leftarrow> perform (WriteAll actual content) (\<lambda>h. ws_write_ok E h actual content);
            if \<not> written then ret (err_path ''error: cannot write '' actual)
            else ask (\<lambda>h.
              let d = [opt_str (map_option c_view old), JStr content] in
              if call_int E h ''diff_compute'' d = 0
                 \<and> (call_int E h ''diff_additions'' d > 0 \<or> call_int E h ''diff_deletions'' d > 0)
              then
                let unified = call_str E h ''diff_format_unified'' d;
                    payload = JObj ([(''status'', JStr ''ok''), (''path'', JStr actual),
                        (''changed'', JBool True),
                        (''summary'', JStr (or_else (call_str E h ''diff_format_summary'' d) ''changed'')),
                        (''diff'', or_else (call_json E h ''diff_result_to_json'' d) JNull)]
                      @ (if nonempty unified then [(''unified_diff'', JStr (the unified))] else []))
                in print_or E payload ''error: out of memory''
              else ''ok'')
          })"

text \<open>
  \<open>auto_snapshot_record\<close>: the snapshot id, 0 for none. The id of the turn's snapshot lives
  with the caller; a fresh one is stored and the file recorded.
\<close>

definition auto_snapshot_record :: "env \<Rightarrow> string \<Rightarrow> int action" where
  "auto_snapshot_record E path =
     (if \<not> config_present E then ret 0
      else do {
        enabled \<leftarrow> ask (\<lambda>h. call_int E h ''config_rewind_auto_snapshot'' []);
        if enabled = 0 then ret 0
        else if \<not> nonempty (session_id E) then ret 0
        else do {
          db \<leftarrow> ask (\<lambda>h. call_int E h ''db1_init'' []);
          if db \<noteq> 0 then ret 0
          else do {
            have_id \<leftarrow> ask (\<lambda>h. call_int E h ''agent_tools_get_snap_id'' []);
            snap_id \<leftarrow> (if have_id > 0 then ret have_id
              else do {
                turn \<leftarrow> ask (\<lambda>h. call_int E h ''agent_tools_get_turn'' []);
                let args = [opt_str (session_id E), jint (if turn \<ge> 0 then turn else 0),
                  JStr (if turn \<ge> 0 then ''auto:turn'' @ show_int turn else ''auto'')];
                new_id \<leftarrow> perform (Call ''db1_fsnap_get_or_create'' args)
                  (\<lambda>h. call_int E h ''db1_fsnap_get_or_create'' args);
                emit (Call ''agent_tools_set_snap_id'' [jint new_id]);
                ret new_id
              });
            (if snap_id > 0 then emit (Call ''db1_fsnap_record_file'' [jint snap_id, JStr path])
             else ret ());
            ret snap_id
          }
        }
      })"

section \<open>Listing\<close>

text \<open>Whole entries with a newline each, while they fit and the limit allows.\<close>

fun list_entries :: "nat \<Rightarrow> nat \<Rightarrow> string \<Rightarrow> string list \<Rightarrow> string" where
  "list_entries bufsz 0 buf es = buf"
| "list_entries bufsz (Suc n) buf [] = buf"
| "list_entries bufsz (Suc n) buf (e # es) =
     (if length buf + length e + 1 \<ge> bufsz then buf
      else list_entries bufsz n (buf @ e @ [CHR 0x0A]) es)"

definition tool_list_files :: "env \<Rightarrow> string \<Rightarrow> string option \<Rightarrow> string action" where
  "tool_list_files E path pattern =
     (if (case pattern of Some p \<Rightarrow> strstr p ''..'' \<noteq> None | None \<Rightarrow> False)
      then ret (''error: pattern must not contain '..'' @ [CHR 0x27])
      else
        let actual = path_in_thread_cwd E path in
        case validate_path E actual of
          Inl err \<Rightarrow> ret err
        | Inr resolved \<Rightarrow> ask (\<lambda>h.
            let first = ws_list E h actual pattern;
                listed = (if first = Some [] \<and> (case pattern of Some p \<Rightarrow> starts_with p ''**/'' | None \<Rightarrow> False)
                          then ws_list E h actual (map_option (drop 3) pattern) else first) in
            case listed of
              None \<Rightarrow> ''error: glob failed''
            | Some es \<Rightarrow>
                if \<not> malloc_ok E (agent_tool_output_cap E + 1) then ''error: out of memory''
                else list_entries (agent_tool_output_cap E) (max_list_files E) [] es))"

section \<open>The string edit\<close>

text \<open>Occurrences that do not overlap, counted from the left; the empty pattern is refused before.\<close>

function count_occurrences :: "string \<Rightarrow> string \<Rightarrow> nat" where
  "count_occurrences old p =
     (if old = [] then 0
      else case strstr p old of
             None \<Rightarrow> 0
           | Some m \<Rightarrow> 1 + count_occurrences old (drop (length old) m))"
  by pat_completeness auto
termination
proof (relation "measure (\<lambda>(old, p). length p)")
  fix old p m :: string
  assume "old \<noteq> []" "strstr p old = Some m"
  then have "length m \<le> length p" "m \<noteq> []"
    by (auto dest: strstr_length strstr_Some)
  with \<open>old \<noteq> []\<close> show "((old, drop (length old) m), old, p) \<in> measure (\<lambda>(old, p). length p)"
    by (cases old; cases m) auto
qed simp

declare count_occurrences.simps [simp del]

fun replace_loop :: "string \<Rightarrow> string \<Rightarrow> nat \<Rightarrow> string \<Rightarrow> string" where
  "replace_loop old new 0 src = src"
| "replace_loop old new (Suc reps) src =
     (case strstr src old of
        None \<Rightarrow> src
      | Some m \<Rightarrow> take (length src - length m) src @ new
                  @ replace_loop old new reps (drop (length old) m))"

text \<open>
  The size of the output buffer, \<open>content_len + reps * new_len - reps * old_len + 1\<close>, in
  \<open>size_t\<close>: each step may wrap.
\<close>

definition edit_out_size :: "nat \<Rightarrow> nat \<Rightarrow> nat \<Rightarrow> nat \<Rightarrow> 64 word" where
  "edit_out_size content_len reps new_len old_len =
     of_nat content_len + of_nat reps * of_nat new_len - of_nat reps * of_nat old_len + 1"

definition tool_edit_file :: "env \<Rightarrow> string option \<Rightarrow> string option \<Rightarrow> string option \<Rightarrow> bool \<Rightarrow> string action" where
  "tool_edit_file E path old_string new_string replace_all =
     (if \<not> nonempty path then ret ''error: missing 'path' parameter''
      else if \<not> nonempty old_string then ret ''error: missing or empty 'old_string' parameter''
      else if readonly_delegate E then ret ro_delegate_msg
      else
        let old = the old_string; new = or_else new_string []; actual = path_in_thread_cwd E (the path) in
        do {
          st_size \<leftarrow> ask (\<lambda>h. ws_stat E h actual);
          content \<leftarrow> ask (\<lambda>h. ws_read_all E h actual);
          (case (st_size, content) of
             (None, _) \<Rightarrow> ret (err_path ''error: cannot open '' actual)
           | (Some n, c) \<Rightarrow>
               if n \<ge> 8 * 1024 * 1024
               then ret ''error: file too large to edit (limit 8MB); use write_file instead''
               else (case c of
                   None \<Rightarrow> ret (err_path ''error: cannot open '' actual)
                 | Some bytes \<Rightarrow>
                     let text = c_view bytes; count = count_occurrences old text in
                     if count = 0
                     then ret ''error: old_string not found in file; read the file and copy the exact text (including whitespace and indentation) into old_string''
                     else if count > 1 \<and> \<not> replace_all
                     then ret (cbuf 256 (''error: old_string occurs '' @ show_nat count
                       @ '' times; add surrounding context to make it unique, or set replace_all=true to replace every occurrence''))
                     else
                       let reps = (if replace_all then count else 1) in
                       if \<not> malloc_ok E (unat (edit_out_size (length text) reps (length new) (length old)))
                       then ret ''error: out of memory''
                       else tool_write_file E (the path) (replace_loop old new reps text)))
        })"

section \<open>The anchored edit\<close>

definition EDIT_LARGE_SPAN_LINES :: int where
  "EDIT_LARGE_SPAN_LINES = 8"

text \<open>The ordinal of an anchor, by the environment's \<open>anchor_parse\<close>.\<close>

definition anchor_ordinal :: "env \<Rightarrow> trace \<Rightarrow> string option \<Rightarrow> int option" where
  "anchor_ordinal E h a =
     (case a of None \<Rightarrow> None | Some s \<Rightarrow> j_int (call_json E h ''anchor_parse'' [JStr s]))"

fun max_span :: "env \<Rightarrow> trace \<Rightarrow> cjson list \<Rightarrow> int \<Rightarrow> int" where
  "max_span E h [] mx = mx"
| "max_span E h (e # es) mx =
     (if j_str (arg E e ''op'') = Some ''replace_range'' \<or> j_str (arg E e ''op'') = Some ''delete_range'' then
        (case (anchor_ordinal E h (j_str (arg E e ''from'')), anchor_ordinal E h (j_str (arg E e ''to''))) of
           (Some fo, Some to_ord) \<Rightarrow>
             max_span E h es (if to_ord - fo + 1 > mx then to_ord - fo + 1 else mx)
         | _ \<Rightarrow> max_span E h es mx)
      else max_span E h es mx)"

definition large_span_advisory :: string where
  "large_span_advisory = ''large multi-line rewrite: for a whole function/type prefer edit_symbol (the server resolves the span from the symbol name) over a hand-built replace_range '' @ [CHR 0xE2, CHR 0x80, CHR 0x94] @ '' small models anchor multi-line ranges unreliably.''"

definition add_span_advisory :: "env \<Rightarrow> trace \<Rightarrow> cjson option \<Rightarrow> string \<Rightarrow> string" where
  "add_span_advisory E h edits result =
     (if starts_with result ''error:'' \<or> strstr result ''\"status\":\"stale_anchor\"'' \<noteq> None then result
      else if max_span E h (if is_arr edits then j_children edits else []) 0 \<ge> EDIT_LARGE_SPAN_LINES
      then (case cj_parse (cj E) result of
              None \<Rightarrow> result
            | Some rj \<Rightarrow> print_or E (cj_add (cj E) rj ''advisory'' (JStr large_span_advisory)) result)
      else result)"

text \<open>
  The plan of the environment: a rejection object, or the new text of the file.
\<close>

definition edit_anchored_plan :: "env \<Rightarrow> trace \<Rightarrow> string \<Rightarrow> string \<Rightarrow> cjson option \<Rightarrow> cjson + string" where
  "edit_anchored_plan E h content snapshot_id edits =
     (let a = [JStr content, JStr snapshot_id, or_else edits JNull] in
      if call_int E h ''edit_anchored_plan'' a \<noteq> 0
      then Inl (or_else (call_json E h ''edit_anchored_plan.reject'' a) JNull)
      else Inr (or_else (call_str E h ''edit_anchored_plan.new_text'' a) []))"

text \<open>
  The absolute path the blast radius is asked for. The code hands \<open>normalize_path\<close> the buffer
  \<open>cwd_path\<close> as the working directory, and that buffer holds the joined path of the file (or,
  when the path was not joined, nothing at all: here \<open>None\<close>).
\<close>

definition dry_run_abs_path :: "env \<Rightarrow> string \<Rightarrow> string" where
  "dry_run_abs_path E path =
     normalize_path E path
       (if path_in_thread_cwd E path = path then None else Some (path_in_thread_cwd E path))"

definition dry_run_payload :: "env \<Rightarrow> trace \<Rightarrow> string \<Rightarrow> string \<Rightarrow> string \<Rightarrow> string \<Rightarrow> cjson" where
  "dry_run_payload E h path actual content new_text =
     (let d = [JStr content, JStr new_text];
          unified = call_str E h ''diff_format_unified'' d;
          diff = (if call_int E h ''diff_compute'' d = 0
            then [(''summary'', JStr (or_else (call_str E h ''diff_format_summary'' d) ''no change'')),
                  (''diff'', or_else (call_json E h ''diff_result_to_json'' d) JNull)]
                 @ (if nonempty unified then [(''unified_diff'', JStr (the unified))] else [])
            else []);
          blast = call_str E h ''blast_radius_advisory'' [JStr (dry_run_abs_path E path)] in
      JObj ([(''status'', JStr ''dry_run''), (''path'', JStr actual)] @ diff
        @ (case blast of Some b \<Rightarrow> [(''blast_radius'', JStr b)] | None \<Rightarrow> [])))"

definition tool_edit_file_anchored :: "env \<Rightarrow> string option \<Rightarrow> string option \<Rightarrow> cjson option \<Rightarrow> bool
    \<Rightarrow> string action" where
  "tool_edit_file_anchored E path snapshot_id edits dry_run =
     (if \<not> nonempty path then ret ''error: missing 'path' parameter''
      else if \<not> nonempty snapshot_id
      then ret ''error: missing 'snapshot_id'; read the file first to obtain one''
      else
        let actual = path_in_thread_cwd E (the path); snap = the snapshot_id in
        do {
          st_size \<leftarrow> ask (\<lambda>h. ws_stat E h actual);
          read \<leftarrow> ask (\<lambda>h. ws_read_all E h actual);
          (case (st_size, read) of
             (None, _) \<Rightarrow> ret (err_path ''error: cannot open '' actual)
           | (Some n, c) \<Rightarrow>
               if n \<ge> 8 * 1024 * 1024
               then ret ''error: file too large to edit (limit 8MB); use write_file instead''
               else (case c of
                   None \<Rightarrow> ret (err_path ''error: cannot open '' actual)
                 | Some content \<Rightarrow> do {
                     known \<leftarrow> ask (\<lambda>h. call_int E h ''anchor_snapshot_get_copy'' [JStr snap]);
                     if known = 0 then ret (print_or E (JObj [(''status'', JStr ''snapshot_expired''),
                       (''path'', JStr actual),
                       (''hint'', JStr ''snapshot_id unknown or evicted; re-read the file to mint a fresh snapshot, then retry the edits against it'')])
                       ''error: out of memory'')
                     else do {
                       plan \<leftarrow> ask (\<lambda>h. edit_anchored_plan E h content snap edits);
                       case plan of
                         Inl reject \<Rightarrow> do {
                           fresh \<leftarrow> (case validate_path E actual of
                               Inl _ \<Rightarrow> ret None
                             | Inr resolved \<Rightarrow> perform (SnapshotCreate resolved) (\<lambda>h. snapshot_new E h resolved));
                           ret (print_or E
                             (cj_add (cj E)
                               (case fresh of Some f \<Rightarrow> cj_add (cj E) reject ''snapshot_id'' (JStr f) | None \<Rightarrow> reject)
                               ''path'' (JStr actual)) ''error: out of memory'')
                         }
                       | Inr new_text \<Rightarrow>
                           if dry_run
                           then ask (\<lambda>h. print_or E (dry_run_payload E h (the path) actual (c_view content) new_text)
                                  ''error: out of memory'')
                           else do {
                             result \<leftarrow> tool_write_file E (the path) new_text;
                             ask (\<lambda>h. add_span_advisory E h edits result)
                           }
                     }
                   }))
        })"

section \<open>The slop advisory\<close>

text \<open>
  A finding is its line, the label of its category and an excerpt. Text results get a
  notice built in a buffer of 2048 bytes, in which \<open>wpos\<close> follows what \<open>snprintf\<close> would
  have printed; the final copy takes \<open>wpos + 1\<close> bytes of the buffer. \<open>None\<close> stands for a
  copy that reads past the buffer.
\<close>

type_synonym slop_finding = "int \<times> string \<times> string"

definition slop_entry :: "slop_finding \<Rightarrow> string" where
  "slop_entry f =
     (case f of (line, category, excerpt) \<Rightarrow>
        CHR 0x0A # ''  line '' @ show_int line @ '' ['' @ category @ ''] '' @ excerpt)"

definition slop_header :: "nat \<Rightarrow> string" where
  "slop_header n = [CHR 0x0A, CHR 0x0A] @ ''slop advisory ('' @ show_nat n @ '' finding(s)):''"

fun slop_loop :: "nat \<Rightarrow> string \<Rightarrow> slop_finding list \<Rightarrow> nat \<times> string" where
  "slop_loop wpos buf [] = (wpos, buf)"
| "slop_loop wpos buf (f # fs) =
     (if wpos < 2048 - 80
      then slop_loop (wpos + length (slop_entry f)) (buf @ take (2048 - wpos - 1) (slop_entry f)) fs
      else (wpos, buf))"

definition slop_notice :: "slop_finding list \<Rightarrow> string option" where
  "slop_notice slop =
     (case slop_loop (length (slop_header (length slop))) (cbuf 2048 (slop_header (length slop))) slop of
        (wpos, buf) \<Rightarrow> if wpos + 1 \<le> 2048 then Some buf else None)"

definition append_write_slop_advisory :: "env \<Rightarrow> string option \<Rightarrow> slop_finding list \<Rightarrow> string option option" where
  "append_write_slop_advisory E result slop =
     (case result of
        None \<Rightarrow> Some None
      | Some r \<Rightarrow>
          if slop = [] then Some (Some r)
          else (case cj_parse (cj E) r of
              Some (JObj kvs) \<Rightarrow>
                Some (Some (print_or E (cj_add (cj E) (JObj kvs) ''slop_advisory''
                  (JArr (map (\<lambda>(line, category, excerpt).
                     JObj [(''line'', jint line), (''category'', JStr category), (''excerpt'', JStr excerpt)]) slop))) r))
            | _ \<Rightarrow> map_option (\<lambda>notice. Some (if malloc_ok E (length r + length notice + 1) then r @ notice else r))
                   (slop_notice slop)))"

section \<open>Lemmas on the reads\<close>

text \<open>The lines of a text, each with its newline: a line ends at a newline and nowhere else.\<close>

fun lines_of :: "string \<Rightarrow> string list" where
  "lines_of [] = []"
| "lines_of (c # s) =
     (if c = CHR 0x0A then [c] # lines_of s
      else (case lines_of s of [] \<Rightarrow> [[c]] | l # ls \<Rightarrow> (c # l) # ls))"

lemma concat_lines_of: "concat (lines_of s) = s"
  by (induction s) (auto split: list.split)

lemma lines_of_ne: "l \<in> set (lines_of s) \<Longrightarrow> l \<noteq> []"
  by (induction s arbitrary: l) (auto split: if_splits list.splits)

lemma take_lines:
  "i < length s \<Longrightarrow> s ! i = CHR 0x0A \<Longrightarrow> \<exists>k. take (Suc i) s = concat (take k (lines_of s))"
proof (induction s arbitrary: i)
  case (Cons c s)
  show ?case
  proof (cases i)
    case 0
    then show ?thesis using Cons.prems by (intro exI [of _ 1]) simp
  next
    case (Suc j)
    then obtain k where k: "take (Suc j) s = concat (take k (lines_of s))"
      using Cons.IH [of j] Cons.prems by auto
    have "s \<noteq> []" using Cons.prems(1) Suc by auto
    then obtain l ls where l: "lines_of s = l # ls"
      using concat_lines_of [of s] by (cases "lines_of s") auto
    have "take (Suc j) s \<noteq> []" using \<open>s \<noteq> []\<close> by simp
    then have "k \<noteq> 0" using k by (cases k) auto
    then obtain k' where "k = Suc k'" by (cases k) auto
    then have "take (Suc i) (c # s) = concat (take (if c = CHR 0x0A then Suc k else k) (lines_of (c # s)))"
      using Suc k l by simp
    then show ?thesis by blast
  qed
qed simp

text \<open>What \<open>fgets\<close> makes of a file: a step of the proofs.\<close>

function raw_chunks :: "string \<Rightarrow> string list" where
  "raw_chunks data =
     (if data = [] then [] else fst (fgets 4095 data) # raw_chunks (snd (fgets 4095 data)))"
  by pat_completeness auto
termination by (relation "measure length") (auto simp: fgets_shorter)

declare raw_chunks.simps [simp del]

lemma concat_raw_chunks: "concat (raw_chunks data) = data"
proof (induction data rule: raw_chunks.induct)
  case (1 data)
  show ?case
  proof (cases "data = []")
    case True
    then show ?thesis by (subst raw_chunks.simps) simp
  next
    case False
    have "concat (raw_chunks data) = fst (fgets 4095 data) @ concat (raw_chunks (snd (fgets 4095 data)))"
      using False by (subst raw_chunks.simps) simp
    also have "\<dots> = fst (fgets 4095 data) @ snd (fgets 4095 data)"
      by (simp only: "1.IH" [OF False])
    finally show ?thesis by (simp only: fgets_append)
  qed
qed

lemma fgets_line:
  "lines_of s = l # ls \<Longrightarrow> length l \<le> n \<Longrightarrow> fst (fgets n s) = l \<and> lines_of (snd (fgets n s)) = ls"
proof (induction n s arbitrary: l ls rule: fgets.induct)
  case (3 n c s)
  show ?case
  proof (cases "c = CHR 0x0A")
    case True
    then show ?thesis using "3.prems" by simp
  next
    case False
    show ?thesis
    proof (cases "lines_of s")
      case Nil
      then have "s = []" using concat_lines_of [of s] by simp
      with "3.prems"(1) False have "l = [c]" "ls = []" by simp_all
      then show ?thesis using \<open>s = []\<close> False by (cases n) simp_all
    next
      case (Cons l' ls')
      then have "l = c # l'" "ls = ls'" using "3.prems"(1) False by simp_all
      with "3.IH" [OF False Cons] "3.prems"(2) False show ?thesis by (auto split: prod.split)
    qed
  qed
next
  case (1 s)
  then show ?case using lines_of_ne [of "[]" s] by auto
qed simp

text \<open>As long as no line is longer than the buffer, the chunks are the lines.\<close>

lemma raw_chunks_lines:
  "\<forall>l \<in> set (lines_of data). length l \<le> 4095 \<Longrightarrow> raw_chunks data = lines_of data"
proof (induction data rule: raw_chunks.induct)
  case (1 data)
  show ?case
  proof (cases "lines_of data")
    case Nil
    then have "data = []" using concat_lines_of [of data] by simp
    then show ?thesis by (simp add: raw_chunks.simps)
  next
    case (Cons l ls)
    then have ne: "data \<noteq> []" by auto
    have f: "fst (fgets 4095 data) = l" "lines_of (snd (fgets 4095 data)) = ls"
      using fgets_line [OF Cons] "1.prems" Cons by simp_all
    have "raw_chunks (snd (fgets 4095 data)) = ls"
      using "1.IH" [OF ne] f(2) "1.prems" Cons by simp
    then show ?thesis using ne f(1) Cons by (subst raw_chunks.simps) simp
  qed
qed

lemma fgets_full:
  "length l = n \<Longrightarrow> CHR 0x0A \<notin> set l \<Longrightarrow> fgets n (l @ r) = (l, r)"
  by (induction l arbitrary: n) auto

text \<open>A longer line counts as several: the rest of it is the next line of the window.\<close>

lemma long_line_counts_twice:
  assumes "length l = 4095" "CHR 0x0A \<notin> set l"
  shows "raw_chunks (l @ r) = l # raw_chunks r"
proof -
  have "l \<noteq> []" using assms(1) by auto
  then show ?thesis using fgets_full [OF assms] by (subst raw_chunks.simps) simp
qed

lemma raw_read_loop_window:
  assumes "lines_read < mx" "length buf \<le> cap" "cap = 0 \<or> length buf < cap"
  shows "raw_read_loop cap offset mx lno lines_read buf data =
    take cap (buf @ concat (map c_view (take (mx - lines_read) (drop (nat offset - lno) (raw_chunks data)))))"
  using assms
proof (induction cap offset mx lno lines_read buf data rule: raw_read_loop.induct)
  case (1 cap offset mx lno lines_read buf data)
  let ?line = "c_view (fst (fgets 4095 data))" and ?rest = "snd (fgets 4095 data)"
  show ?case
  proof (cases "data = []")
    case True
    then show ?thesis using "1.prems"
      by (subst raw_read_loop.simps) (simp add: raw_chunks.simps)
  next
    case ne: False
    have ch: "raw_chunks data = fst (fgets 4095 data) # raw_chunks ?rest"
      using ne by (subst raw_chunks.simps) simp
    show ?thesis
    proof (cases "offset > 0 \<and> int (lno + 1) \<le> offset")
      case skip: True
      then have d: "nat offset - lno = Suc (nat offset - (lno + 1))" by auto
      have "raw_read_loop cap offset mx lno lines_read buf data =
          raw_read_loop cap offset mx (lno + 1) lines_read buf ?rest"
        using ne skip by (subst raw_read_loop.simps) (simp add: Let_def)
      also have "\<dots> = take cap (buf @ concat (map c_view
          (take (mx - lines_read) (drop (nat offset - (lno + 1)) (raw_chunks ?rest)))))"
        using "1.IH"(1) [OF ne refl refl refl skip] "1.prems" by simp
      finally show ?thesis by (simp add: ch d)
    next
      case read: False
      then have d: "nat offset - lno = 0" "nat offset - (lno + 1) = 0" by auto
      obtain k where k: "mx - lines_read = Suc k" using "1.prems"(1) by (metis Suc_diff_Suc)
      have R: "take cap (buf @ concat (map c_view (take (mx - lines_read) (drop (nat offset - lno) (raw_chunks data)))))
          = take cap (buf @ ?line @ concat (map c_view (take k (raw_chunks ?rest))))"
        by (simp add: ch d k)
      show ?thesis
      proof (cases "length buf + length ?line \<ge> cap")
        case True
        have "raw_read_loop cap offset mx lno lines_read buf data = buf @ take (cap - length buf) ?line"
          using ne read True by (subst raw_read_loop.simps) (auto simp: Let_def)
        then show ?thesis unfolding R using "1.prems"(2) True by simp
      next
        case fits: False
        show ?thesis
        proof (cases "lines_read + 1 \<ge> mx")
          case True
          then have "k = 0" using k by simp
          have "raw_read_loop cap offset mx lno lines_read buf data = buf @ ?line"
            using ne read fits True by (subst raw_read_loop.simps) (auto simp: Let_def)
          then show ?thesis unfolding R using \<open>k = 0\<close> fits by simp
        next
          case more: False
          then have km: "mx - (lines_read + 1) = k" using k by simp
          have "raw_read_loop cap offset mx lno lines_read buf data =
              raw_read_loop cap offset mx (lno + 1) (lines_read + 1) (buf @ ?line) ?rest"
            using ne read fits more by (subst raw_read_loop.simps) (auto simp: Let_def)
          also have "\<dots> = take cap ((buf @ ?line) @ concat (map c_view
              (take (mx - (lines_read + 1)) (drop (nat offset - (lno + 1)) (raw_chunks ?rest)))))"
            using "1.IH"(2) [OF ne refl refl refl read _ more] fits more by simp
          finally show ?thesis unfolding R by (simp only: km d drop_0 append_assoc)
        qed
      qed
    qed
  qed
qed

lemma cut_back_spec:
  "cut_back s n \<le> n \<and> (cut_back s n > 0 \<longrightarrow> s ! cut_back s n = CHR 0x0A)
     \<and> (\<forall>i. cut_back s n < i \<and> i \<le> n \<longrightarrow> s ! i \<noteq> CHR 0x0A)"
proof (induction n)
  case (Suc n)
  show ?case
  proof (cases "s ! Suc n = CHR 0x0A")
    case False
    then have "cut_back s (Suc n) = cut_back s n" by simp
    with Suc False show ?thesis by (metis le_SucE le_SucI)
  next
    case True
    then have "cut_back s (Suc n) = Suc n" by simp
    with True show ?thesis by auto
  qed
qed simp

section \<open>Lemmas on the string edit\<close>

text \<open>The parts of a text between the occurrences, and putting a separator between them.\<close>

function pieces :: "string \<Rightarrow> string \<Rightarrow> string list" where
  "pieces old p =
     (if old = [] then [p]
      else case strstr p old of
             None \<Rightarrow> [p]
           | Some m \<Rightarrow> take (length p - length m) p # pieces old (drop (length old) m))"
  by pat_completeness auto
termination
proof (relation "measure (\<lambda>(old, p). length p)")
  fix old p m :: string
  assume "old \<noteq> []" "strstr p old = Some m"
  then have "length m \<le> length p" "m \<noteq> []"
    by (auto dest: strstr_length strstr_Some)
  with \<open>old \<noteq> []\<close> show "((old, drop (length old) m), old, p) \<in> measure (\<lambda>(old, p). length p)"
    by (cases old; cases m) auto
qed simp

declare pieces.simps [simp del]

fun join :: "string \<Rightarrow> string list \<Rightarrow> string" where
  "join sep [] = []"
| "join sep [p] = p"
| "join sep (p # q # ps) = p @ sep @ join sep (q # ps)"

lemma join_Cons: "ps \<noteq> [] \<Longrightarrow> join sep (p # ps) = p @ sep @ join sep ps"
  by (cases ps) auto

lemma pieces_not_Nil [simp]: "pieces old p \<noteq> []"
  by (subst pieces.simps) (auto split: option.split)

lemma strstr_split:
  assumes "strstr p old = Some m"
  shows "p = take (length p - length m) p @ old @ drop (length old) m"
proof -
  obtain pre where "p = pre @ m" "prefix old m"
    using strstr_Some [OF assms] by blast
  then show ?thesis by (auto simp: prefix_def)
qed

lemma strstr_before:
  assumes "strstr p old = Some m" "old \<noteq> []"
  shows "\<not> sublist old (take (length p - length m) p)"
proof
  let ?pre = "take (length p - length m) p"
  assume "sublist old ?pre"
  then obtain u v where uv: "?pre = u @ old @ v" by (auto simp: sublist_def)
  have p: "p = ?pre @ m" using strstr_Some [OF assms(1)] by auto
  then have "p = u @ (old @ v @ m)" using uv by simp
  moreover have "length u < length ?pre" using uv assms(2) by simp
  ultimately show False using strstr_first [OF assms(1) p] by (metis prefixI)
qed

lemma pieces_facts:
  "old \<noteq> [] \<Longrightarrow> join old (pieces old p) = p
     \<and> length (pieces old p) = count_occurrences old p + 1
     \<and> (\<forall>x \<in> set (pieces old p). \<not> sublist old x)"
proof (induction old p rule: pieces.induct)
  case (1 old p)
  show ?case
  proof (cases "strstr p old")
    case None
    then have "\<not> sublist old p" by (simp add: strstr_None_iff)
    with None "1.prems" show ?thesis
      by (subst (1 2 3) pieces.simps, subst count_occurrences.simps) simp
  next
    case (Some m)
    let ?rest = "drop (length old) m"
    have ps: "pieces old p = take (length p - length m) p # pieces old ?rest"
      using "1.prems" Some by (subst pieces.simps) simp
    have cnt: "count_occurrences old p = 1 + count_occurrences old ?rest"
      using "1.prems" Some by (subst count_occurrences.simps) simp
    have IH: "join old (pieces old ?rest) = ?rest"
        "length (pieces old ?rest) = count_occurrences old ?rest + 1"
        "\<forall>x \<in> set (pieces old ?rest). \<not> sublist old x"
      using "1.IH" [OF "1.prems" Some "1.prems"] by blast+
    have "join old (pieces old p) = p"
      unfolding ps using strstr_split [OF Some] by (simp add: join_Cons IH(1))
    moreover have "\<forall>x \<in> set (pieces old p). \<not> sublist old x"
      unfolding ps using strstr_before [OF Some "1.prems"] IH(3) by simp
    ultimately show ?thesis unfolding ps cnt by (simp add: IH(2))
  qed
qed

lemma replace_loop_join:
  "old \<noteq> [] \<Longrightarrow> replace_loop old new (count_occurrences old p) p = join new (pieces old p)"
proof (induction old p rule: pieces.induct)
  case (1 old p)
  show ?case
  proof (cases "strstr p old")
    case None
    with "1.prems" show ?thesis
      by (subst pieces.simps, subst count_occurrences.simps) simp
  next
    case (Some m)
    have "count_occurrences old p = Suc (count_occurrences old (drop (length old) m))"
      using "1.prems" Some by (subst count_occurrences.simps) simp
    moreover have "pieces old p = take (length p - length m) p # pieces old (drop (length old) m)"
      using "1.prems" Some by (subst pieces.simps) simp
    ultimately show ?thesis
      using "1.IH" [OF "1.prems" Some "1.prems"] Some by (simp add: join_Cons)
  qed
qed

lemma length_join:
  "ps \<noteq> [] \<Longrightarrow> length (join sep ps) = length (concat ps) + (length ps - 1) * length sep"
proof (induction sep ps rule: join.induct)
  case (3 sep p q ps)
  then show ?case by simp
qed simp_all

section \<open>What the file tools do to the world\<close>

text \<open>Reads only: a file tool may mint a snapshot of a validated path, and nothing else.\<close>

fun reads_only :: "env \<Rightarrow> event \<Rightarrow> bool" where
  "reads_only E (SnapshotCreate r) = (\<exists>p. validate_path E p = Inr r)"
| "reads_only E _ = False"

text \<open>Writes: besides, a write that passed every guard.\<close>

fun writes_gated :: "env \<Rightarrow> event \<Rightarrow> bool" where
  "writes_gated E (WriteAll q c) =
     ((\<exists>p. q = path_in_thread_cwd E p) \<and> (\<exists>r. validate_path E q = Inr r)
      \<and> \<not> readonly_delegate E \<and> \<not> parent_guard_blocks E q None \<and> valid_utf8 E c)"
| "writes_gated E e = reads_only E e"

lemma reads_only_gated: "reads_only E e \<Longrightarrow> writes_gated E e"
  by (cases e) auto

lemma read_file_emits: "emits (reads_only E) (tool_read_file E path offset limit raw)"
  unfolding tool_read_file_def Let_def by (intro emits_intros) auto

lemma list_files_emits: "emits P (tool_list_files E path pattern)"
  unfolding tool_list_files_def Let_def by (intro emits_intros)

lemma write_file_emits [emits_intros]: "emits (writes_gated E) (tool_write_file E path content)"
  unfolding tool_write_file_def Let_def by (intro emits_intros) auto

lemma edit_file_emits: "emits (writes_gated E) (tool_edit_file E path old new all)"
  unfolding tool_edit_file_def Let_def by (intro emits_intros)

lemma edit_anchored_emits: "emits (writes_gated E) (tool_edit_file_anchored E path snap edits dry)"
  unfolding tool_edit_file_anchored_def Let_def by (intro emits_intros) auto

lemma edit_anchored_dry_emits: "emits (reads_only E) (tool_edit_file_anchored E path snap edits True)"
  unfolding tool_edit_file_anchored_def Let_def if_True by (intro emits_intros) auto

lemma write_file_trace:
  "trace_of (tool_write_file E p c) h = h
    \<or> trace_of (tool_write_file E p c) h = h @ [WriteAll (path_in_thread_cwd E p) c]"
  unfolding tool_write_file_def trace_of_def Let_def
  by (auto split: sum.split option.split)

lemma edit_file_trace:
  "trace_of (tool_edit_file E path old new all) h = h
    \<or> (\<exists>p o' bytes. path = Some p \<and> old = Some o' \<and> o' \<noteq> []
        \<and> ws_read_all E h (path_in_thread_cwd E p) = Some bytes
        \<and> count_occurrences o' (c_view bytes) \<ge> 1
        \<and> (all \<or> count_occurrences o' (c_view bytes) = 1)
        \<and> trace_of (tool_edit_file E path old new all) h =
            trace_of (tool_write_file E p
              (replace_loop o' (or_else new []) (count_occurrences o' (c_view bytes)) (c_view bytes))) h)"
proof (cases "nonempty path \<and> nonempty old \<and> \<not> readonly_delegate E")
  case False
  then show ?thesis by (auto simp: tool_edit_file_def trace_of_def)
next
  case True
  then obtain p o' where po: "path = Some p" "p \<noteq> []" "old = Some o'" "o' \<noteq> []"
    by (cases path; cases old) auto
  let ?q = "path_in_thread_cwd E p"
  show ?thesis
  proof (cases "ws_stat E h ?q")
    case None
    then show ?thesis using True po by (simp add: tool_edit_file_def trace_of_def Let_def)
  next
    case st: (Some n)
    show ?thesis
    proof (cases "ws_read_all E h ?q")
      case None
      then show ?thesis using True po st by (simp add: tool_edit_file_def trace_of_def Let_def)
    next
      case rd: (Some bytes)
      let ?k = "count_occurrences o' (c_view bytes)"
      show ?thesis
      proof (cases "?k \<ge> 1 \<and> (all \<or> ?k = 1)")
        case False
        then show ?thesis using True po st rd by (auto simp: tool_edit_file_def trace_of_def Let_def)
      next
        case k: True
        then have "(if all then ?k else 1) = ?k" by auto
        with k True po st rd show ?thesis
          by (auto simp: tool_edit_file_def trace_of_def Let_def)
      qed
    qed
  qed
qed

section \<open>Lemmas on the listing and the advisory\<close>

abbreviation line_of :: "string \<Rightarrow> string" where
  "line_of e \<equiv> e @ [CHR 0x0A]"

lemma list_entries_take:
  "\<exists>n. n \<le> mx \<and> n \<le> length es
     \<and> list_entries bufsz mx buf es = buf @ concat (map line_of (take n es))
     \<and> (length buf < bufsz \<longrightarrow> length (list_entries bufsz mx buf es) < bufsz)
     \<and> (n < mx \<and> n < length es \<longrightarrow>
          length (buf @ concat (map line_of (take n es))) + length (es ! n) + 1 \<ge> bufsz)"
proof (induction bufsz mx buf es rule: list_entries.induct)
  case (3 bufsz k buf e es)
  show ?case
  proof (cases "length buf + length e + 1 \<ge> bufsz")
    case True
    then show ?thesis by (intro exI [of _ 0]) simp
  next
    case False
    then have lt: "length (buf @ line_of e) < bufsz" by simp
    obtain n where n: "n \<le> k" "n \<le> length es"
        "list_entries bufsz k (buf @ line_of e) es = (buf @ line_of e) @ concat (map line_of (take n es))"
        "length (list_entries bufsz k (buf @ line_of e) es) < bufsz"
        "n < k \<and> n < length es \<longrightarrow>
          length ((buf @ line_of e) @ concat (map line_of (take n es))) + length (es ! n) + 1 \<ge> bufsz"
      using "3.IH" [OF False] lt by blast
    show ?thesis
      using n False n(4) [unfolded n(3)] by (intro exI [of _ "Suc n"]) (simp add: ac_simps)
  qed
qed auto

lemma slop_loop_exact:
  assumes "\<And>f. f \<in> set fs \<Longrightarrow> length (slop_entry f) \<le> 79" "wpos = length buf" "wpos < 2048"
  shows "\<exists>n \<le> length fs. slop_loop wpos buf fs =
      (length (buf @ concat (map slop_entry (take n fs))), buf @ concat (map slop_entry (take n fs)))
    \<and> length (buf @ concat (map slop_entry (take n fs))) < 2048"
  using assms
proof (induction wpos buf fs rule: slop_loop.induct)
  case (1 wpos buf)
  then show ?case by simp
next
  case (2 wpos buf f fs)
  show ?case
  proof (cases "wpos < 2048 - 80")
    case True
    have len: "length (slop_entry f) \<le> 79" using "2.prems"(1) by simp
    then have all: "take (2048 - wpos - 1) (slop_entry f) = slop_entry f" using True by simp
    have p: "\<And>g. g \<in> set fs \<Longrightarrow> length (slop_entry g) \<le> 79"
        "wpos + length (slop_entry f) = length (buf @ take (2048 - wpos - 1) (slop_entry f))"
        "wpos + length (slop_entry f) < 2048"
    proof -
      show "length (slop_entry g) \<le> 79" if "g \<in> set fs" for g
        using that "2.prems"(1) by simp
      show "wpos + length (slop_entry f) = length (buf @ take (2048 - wpos - 1) (slop_entry f))"
        using "2.prems"(2) unfolding all by simp
      show "wpos + length (slop_entry f) < 2048" using len True by linarith
    qed
    note "2.IH" [OF True p, unfolded all]
    then obtain n where n: "n \<le> length fs" "slop_loop (wpos + length (slop_entry f)) (buf @ slop_entry f) fs =
        (length ((buf @ slop_entry f) @ concat (map slop_entry (take n fs))),
         (buf @ slop_entry f) @ concat (map slop_entry (take n fs)))"
        "length ((buf @ slop_entry f) @ concat (map slop_entry (take n fs))) < 2048" by blast
    show ?thesis
      by (rule exI [of _ "Suc n"]) (use n True all in \<open>simp add: ac_simps\<close>)
  next
    case False
    then show ?thesis using "2.prems" by (intro exI [of _ 0]) simp
  qed
qed

lemma length_show_nat: "length (show_nat n) \<le> n + 1"
proof (induction n rule: show_nat.induct)
  case (1 n)
  show ?case
  proof (cases "n < 10")
    case True
    then show ?thesis by (subst show_nat.simps) simp
  next
    case False
    have "length (show_nat n) = length (show_nat (n div 10)) + 1"
      using False by (subst show_nat.simps) simp
    with "1.IH" [OF False] False show ?thesis by linarith
  qed
qed

section \<open>Properties\<close>

text \<open>C13. Every write a file tool makes is guarded: if writing, editing, or an anchored edit of
  any file puts content anywhere, the place is the caller's path resolved in the working
  directory of the thread and accepted by the path check, the caller is not a read-only
  delegate, the parent guard does not block the place, and the content is valid UTF-8. None
  of the file tools runs a command.\<close>

theorem file_writes_guarded:
  assumes "m \<in> {tool_write_file E p c, tool_edit_file E path old new all,
      tool_edit_file_anchored E path snap edits dry, tool_read_file E p offset limit raw,
      tool_list_files E p pattern}"
    and "e \<in> set (drop (length h) (trace_of m h))"
  shows "\<not> is_command e \<and> (\<forall>q body. e = WriteAll q body \<longrightarrow>
     (\<exists>p. q = path_in_thread_cwd E p) \<and> (\<exists>r. validate_path E q = Inr r) \<and> \<not> readonly_delegate E
     \<and> \<not> parent_guard_blocks E q None \<and> valid_utf8 E body)"
proof -
  have "emits (writes_gated E) (tool_read_file E p offset limit raw)"
    by (rule emits_weaken [OF read_file_emits]) (rule reads_only_gated)
  then have "emits (writes_gated E) m"
    using assms(1) write_file_emits edit_file_emits edit_anchored_emits list_files_emits by auto
  from emits_events [OF this assms(2)] show ?thesis by (cases e) auto
qed

definition note_env :: env where
  "note_env = ref_env\<lparr>ws_stat := (\<lambda>h p. if p = ''/ws/a'' then Some 5 else None),
     ws_read_all := (\<lambda>h p. if p = ''/ws/a'' then Some ''one one'' else None)\<rparr>"

lemma note_env_edit:
  "trace_of (tool_edit_file note_env (Some ''a'') (Some ''one'') (Some ''2'') True) []
     = [WriteAll ''/ws/a'' ''2 2'']"
  by (simp add: tool_edit_file_def tool_write_file_def path_in_thread_cwd_def windows_absolute_def
      note_env_def ref_env_def c_view_def count_occurrences.simps cbuf_def trace_of_def Let_def
      numeral_2_eq_2)

theorem file_writes_guarded_witness:
  "validate_path note_env ''/ws/a'' = Inr ''/ws/a''
   \<and> trace_of (tool_edit_file note_env (Some ''a'') (Some ''one'') (Some ''2'') True) []
       = [WriteAll ''/ws/a'' ''2 2'']
   \<and> \<not> readonly_delegate note_env \<and> valid_utf8 note_env ''2 2''"
  using note_env_edit
    file_writes_guarded [of "tool_edit_file note_env (Some ''a'') (Some ''one'') (Some ''2'') True"
      note_env undefined undefined "Some ''a''" "Some ''one''" "Some ''2''" True undefined undefined
      undefined undefined undefined undefined undefined "WriteAll ''/ws/a'' ''2 2''" "[]"]
  by (simp add: note_env_def ref_env_def)

text \<open>C12. The string edit replaces what it says: when it writes, the file it read is a sequence of
  pieces with \<open>old_string\<close> between them, no piece contains \<open>old_string\<close>, and what is written to
  that file is the same pieces with \<open>new_string\<close> between them. Without \<open>replace_all\<close> there are
  exactly two pieces, so exactly one place changed.\<close>

theorem edit_file_replaces:
  assumes "WriteAll q body \<in> set (drop (length h) (trace_of (tool_edit_file E (Some p) (Some old) new all) h))"
  shows "q = path_in_thread_cwd E p \<and> (\<exists>bytes ps. ws_read_all E h q = Some bytes
    \<and> c_view bytes = join old ps \<and> body = join (or_else new []) ps
    \<and> length ps \<ge> 2 \<and> (all \<or> length ps = 2) \<and> (\<forall>x \<in> set ps. \<not> sublist old x))"
proof -
  obtain bytes where b: "old \<noteq> []" "ws_read_all E h (path_in_thread_cwd E p) = Some bytes"
      "count_occurrences old (c_view bytes) \<ge> 1" "all \<or> count_occurrences old (c_view bytes) = 1"
      "trace_of (tool_edit_file E (Some p) (Some old) new all) h =
         trace_of (tool_write_file E p
           (replace_loop old (or_else new []) (count_occurrences old (c_view bytes)) (c_view bytes))) h"
    using edit_file_trace [of E "Some p" "Some old" new all h] assms by auto
  let ?ps = "pieces old (c_view bytes)"
  have "q = path_in_thread_cwd E p \<and> body = join (or_else new []) ?ps"
    using write_file_trace [of E p "join (or_else new []) ?ps" h] assms b(5)
    by (auto simp: replace_loop_join [OF b(1)])
  then show ?thesis
    using b(2-4) pieces_facts [OF b(1), of "c_view bytes"] by (intro conjI exI [of _ bytes] exI [of _ ?ps]) auto
qed

theorem edit_file_replaces_witness:
  "WriteAll ''/ws/a'' ''2 2'' \<in> set (trace_of (tool_edit_file note_env (Some ''a'') (Some ''one'') (Some ''2'') True) [])
   \<and> (\<exists>ps. ''one one'' = join ''one'' ps \<and> ''2 2'' = join ''2'' ps)"
  using note_env_edit edit_file_replaces [of "''/ws/a''" "''2 2''" "[]" note_env "''a''" "''one''" "Some ''2''" True]
  by (auto simp: note_env_def ref_env_def c_view_def)

text \<open>C32. The buffer of the string edit is exactly as large as its text: the size computed in
  64-bit arithmetic, wrapping or not on the way, is the length of the replaced text and its
  terminating NUL, for a file below the limit of 8 MB and a replacement below 1 TB.\<close>

theorem edit_buffer_exact:
  assumes "old \<noteq> []" "reps = count_occurrences old text"
    and "length text < 8 * 1024 * 1024" "length new < 2 ^ 40"
  shows "unat (edit_out_size (length text) reps (length new) (length old)) =
    length (replace_loop old new reps text) + 1"
proof -
  let ?ps = "pieces old text" and ?n = "length (replace_loop old new reps text)"
  have n: "length ?ps = reps + 1" "join old ?ps = text"
    using pieces_facts [OF assms(1), of "text"] assms(2) by auto
  have t: "length text = length (concat ?ps) + reps * length old"
    using length_join [of ?ps old] n by simp
  have r: "?n = length (concat ?ps) + reps * length new"
    using length_join [of ?ps new] n replace_loop_join [OF assms(1), of new "text"] assms(2) by simp
  have "reps \<le> reps * length old" using assms(1) by (cases old) simp_all
  then have "reps < 8 * 1024 * 1024" using t assms(3) by linarith
  then have "reps * length new \<le> (8 * 1024 * 1024) * 2 ^ 40"
    using assms(4) by (intro mult_mono) simp_all
  then have bound: "?n + 1 < 2 ^ 64" using r t assms(3) by simp
  have "edit_out_size (length text) reps (length new) (length old) = of_nat (?n + 1)"
    unfolding edit_out_size_def t r by (simp add: algebra_simps)
  then show ?thesis using bound by (simp add: unat_of_nat take_bit_nat_eq_self del: of_nat_add of_nat_Suc)
qed

theorem edit_buffer_exact_witness:
  "unat (edit_out_size (length ''one one'') 2 (length ''2'') (length ''one'')) =
     length (replace_loop ''one'' ''2'' 2 ''one one'') + 1"
  by (rule edit_buffer_exact) (simp_all add: count_occurrences.simps)

text \<open>C30. A raw read of a text shows the requested window of its lines: those after the first
  \<open>offset\<close>, at most \<open>limit\<close> of them (100000 when none is given), cut at the output cap. The
  lines may have 4095 bytes with their newline; the file holds no NUL.\<close>

theorem raw_read_window:
  assumes "\<not> starts_with path ''proposal:''" "validate_path E (path_in_thread_cwd E path) = Inr r"
    and "ws_read_all E h (path_in_thread_cwd E path) = Some data"
    and "malloc_ok E (length data)" "malloc_ok E (agent_tool_output_cap E + 1)"
    and "\<not> tool_file_looks_binary data"
    and "CHR 0x00 \<notin> set data" "\<forall>l \<in> set (lines_of data). length l \<le> 4095"
  shows "result_of (tool_read_file E path offset limit True) h =
      take (agent_tool_output_cap E) (concat
        (take (if limit > 0 then nat limit else 100000) (drop (nat offset) (lines_of data))))"
proof -
  let ?mx = "if limit > 0 then nat limit else 100000"
  have "c_view l = l" if "l \<in> set (lines_of data)" for l
  proof -
    have "set l \<subseteq> set data" using that concat_lines_of [of data] by (metis UN_upper set_concat)
    then show ?thesis using assms(7) by (auto simp: c_view_def)
  qed
  then have view: "map c_view (take ?mx (drop (nat offset) (lines_of data))) = take ?mx (drop (nat offset) (lines_of data))"
    by (intro map_idI) (meson in_set_dropD in_set_takeD)
  have "raw_read_loop (agent_tool_output_cap E) offset ?mx 0 0 [] data =
      take (agent_tool_output_cap E) (concat (map c_view (take ?mx (drop (nat offset) (raw_chunks data)))))"
    by (subst raw_read_loop_window) auto
  moreover have "result_of (tool_read_file E path offset limit True) h =
      raw_read_loop (agent_tool_output_cap E) offset ?mx 0 0 [] data"
    using assms by (simp add: tool_read_file_def result_of_def Let_def)
  ultimately show ?thesis by (simp only: raw_chunks_lines [OF assms(8)] view)
qed

definition lines_env :: env where
  "lines_env = ref_env\<lparr>ws_read_all := (\<lambda>h p. Some (''a'' @ CHR 0x0A # ''b'' @ CHR 0x0A # ''c''))\<rparr>"

theorem raw_read_window_witness:
  "result_of (tool_read_file lines_env ''f'' 1 1 True) [] = ''b'' @ [CHR 0x0A]"
  using raw_read_window [of "''f''" lines_env "''/ws/f''" "[]" "''a'' @ CHR 0x0A # ''b'' @ CHR 0x0A # ''c''" 1 1]
  by (simp add: lines_env_def ref_env_def path_in_thread_cwd_def windows_absolute_def cbuf_def
      tool_file_looks_binary_def tool_buffer_looks_binary_def agent_tool_output_cap_def Let_def)

text \<open>C31. A formatted read that is too long is cut at the last newline whose index is at most the
  cap, and only when there is none (but perhaps at its very beginning) inside a line, at
  exactly the cap. In the first case what is kept is a whole number of its lines. The notice
  follows where there is memory for it.\<close>

theorem truncate_keeps_lines:
  assumes "length s > cap"
  shows "\<exists>kept. truncate_formatted E cap s = kept
      @ (if malloc_ok E (length kept + 96)
         then ''[truncated at '' @ show_nat cap @ '' bytes; re-read with offset/limit for more]'' @ [CHR 0x0A]
         else [])
    \<and> ((\<exists>cut k. 0 < cut \<and> cut \<le> cap \<and> s ! cut = CHR 0x0A
           \<and> CHR 0x0A \<notin> set (drop (cut + 1) (take (cap + 1) s))
           \<and> kept = take (cut + 1) s \<and> kept = concat (take k (lines_of s)))
       \<or> CHR 0x0A \<notin> set (drop 1 (take (cap + 1) s)) \<and> kept = take cap s)"
proof -
  let ?cut = "cut_back s cap"
  let ?kept = "take (if ?cut > 0 then ?cut + 1 else cap) s"
  have c: "?cut \<le> cap" "?cut > 0 \<Longrightarrow> s ! ?cut = CHR 0x0A"
      "\<And>i. ?cut < i \<Longrightarrow> i \<le> cap \<Longrightarrow> s ! i \<noteq> CHR 0x0A"
    using cut_back_spec [of s cap] by blast+
  have none: "CHR 0x0A \<notin> set (drop (?cut + 1) (take (cap + 1) s))"
  proof
    assume "CHR 0x0A \<in> set (drop (?cut + 1) (take (cap + 1) s))"
    then obtain i where i: "i < length (drop (?cut + 1) (take (cap + 1) s))"
        "drop (?cut + 1) (take (cap + 1) s) ! i = CHR 0x0A" by (metis in_set_conv_nth)
    then have le: "?cut + 1 + i \<le> cap" by simp
    have "drop (?cut + 1) (take (cap + 1) s) ! i = take (cap + 1) s ! (?cut + 1 + i)"
      using i(1) by (intro nth_drop) (simp, linarith)
    with i(2) le have "s ! (?cut + 1 + i) = CHR 0x0A" by (simp add: nth_take)
    with le show False using c(3) [of "?cut + 1 + i"] by simp
  qed
  have run: "truncate_formatted E cap s = ?kept
      @ (if malloc_ok E (length ?kept + 96)
         then ''[truncated at '' @ show_nat cap @ '' bytes; re-read with offset/limit for more]'' @ [CHR 0x0A]
         else [])"
    using assms unfolding truncate_formatted_def Let_def by simp
  show ?thesis
  proof (cases "?cut > 0")
    case True
    then obtain k where "take (Suc ?cut) s = concat (take k (lines_of s))"
      using take_lines [of ?cut s] c(1,2) assms by auto
    with True c(1,2) none run show ?thesis
      by (intro exI [of _ ?kept] conjI disjI1 exI [of _ ?cut] exI [of _ k]) simp_all
  next
    case False
    with none run show ?thesis by (intro exI [of _ ?kept] conjI disjI2) simp_all
  qed
qed

lemma small_index: "0 < i \<Longrightarrow> i \<le> 4 \<Longrightarrow> i \<in> {1, 2, 3, 4 :: nat}"
  by auto

theorem truncate_keeps_lines_witness:
  "let s = ''ab'' @ CHR 0x0A # ''cdef'' in
   \<exists>kept. truncate_formatted ref_env 4 s =
     kept @ ''[truncated at '' @ show_nat 4 @ '' bytes; re-read with offset/limit for more]'' @ [CHR 0x0A]
     \<and> kept = ''ab'' @ [CHR 0x0A]"
proof -
  let ?s = "''ab'' @ CHR 0x0A # ''cdef''"
  obtain kept where k: "truncate_formatted ref_env 4 ?s =
      kept @ ''[truncated at '' @ show_nat 4 @ '' bytes; re-read with offset/limit for more]'' @ [CHR 0x0A]"
    and cut: "(\<exists>cut k. 0 < cut \<and> cut \<le> 4 \<and> ?s ! cut = CHR 0x0A
           \<and> CHR 0x0A \<notin> set (drop (cut + 1) (take (4 + 1) ?s))
           \<and> kept = take (cut + 1) ?s \<and> kept = concat (take k (lines_of ?s)))
       \<or> CHR 0x0A \<notin> set (drop 1 (take (4 + 1) ?s)) \<and> kept = take 4 ?s"
    using truncate_keeps_lines [of 4 ?s ref_env] by (auto simp: ref_env_def)
  have "kept = ''ab'' @ [CHR 0x0A]"
  proof -
    have "\<exists>cut. 0 < cut \<and> cut \<le> 4 \<and> ?s ! cut = CHR 0x0A \<and> kept = take (cut + 1) ?s"
      using cut by auto
    then obtain cut where "cut \<in> {1, 2, 3, 4}" "?s ! cut = CHR 0x0A" "kept = take (cut + 1) ?s"
      by (metis (no_types) small_index)
    then show ?thesis by auto
  qed
  with k show ?thesis by (auto simp: Let_def)
qed

text \<open>C33. A listing consists of whole entries, a newline after each: a front of the provider's
  list, no longer than the entry limit, below the output cap in bytes; and it stops short of
  both the limit and the list only at an entry that no longer fits.\<close>

theorem list_files_whole_entries:
  assumes "\<not> (\<exists>pt. pattern = Some pt \<and> strstr pt ''..'' \<noteq> None)"
    and "validate_path E (path_in_thread_cwd E path) = Inr r"
    and "ws_list E h (path_in_thread_cwd E path) pattern = Some es" "es \<noteq> []"
    and "malloc_ok E (agent_tool_output_cap E + 1)" "0 < agent_tool_output_cap E"
  shows "\<exists>n \<le> max_list_files E. n \<le> length es
    \<and> result_of (tool_list_files E path pattern) h = concat (map (\<lambda>e. e @ [CHR 0x0A]) (take n es))
    \<and> length (result_of (tool_list_files E path pattern) h) < agent_tool_output_cap E
    \<and> (n < max_list_files E \<and> n < length es \<longrightarrow>
        length (result_of (tool_list_files E path pattern) h) + length (es ! n) + 1
          \<ge> agent_tool_output_cap E)"
proof -
  have "(case pattern of Some p \<Rightarrow> strstr p ''..'' \<noteq> None | None \<Rightarrow> False) = False"
    using assms(1) by (auto split: option.split)
  then have "result_of (tool_list_files E path pattern) h =
      list_entries (agent_tool_output_cap E) (max_list_files E) [] es"
    using assms by (simp add: tool_list_files_def result_of_def Let_def)
  then show ?thesis
    using list_entries_take [of "max_list_files E" es "agent_tool_output_cap E" "[]"] assms(6) by auto
qed

theorem list_files_whole_entries_witness:
  "let E = ref_env\<lparr>ws_list := (\<lambda>_ _ _. Some [''a'', ''b''])\<rparr> in
   \<exists>n. result_of (tool_list_files E ''/ws'' None) [] = concat (map (\<lambda>e. e @ [CHR 0x0A]) (take n [''a'', ''b'']))"
  using list_files_whole_entries [of None "ref_env\<lparr>ws_list := (\<lambda>_ _ _. Some [''a'', ''b''])\<rparr>" "''/ws''" "''/ws''" "[]"
      "[''a'', ''b'']"]
  by (auto simp: ref_env_def path_in_thread_cwd_def agent_tool_output_cap_def Let_def)

text \<open>C40. The advisory appended to a text result stays inside its buffer when every line of it
  is shorter than 80 bytes: then the copy never reads past the buffer, and the result is
  followed by the header and whole lines for a front of the findings.\<close>

theorem slop_advisory_bounded:
  assumes "slop \<noteq> []" "length slop < 1000" "\<forall>f \<in> set slop. length (slop_entry f) < 80"
    and "\<not> is_obj (cj_parse (cj E) r)"
  shows "\<exists>n \<le> length slop. \<exists>notice. notice = slop_header (length slop) @ concat (map slop_entry (take n slop))
    \<and> append_write_slop_advisory E (Some r) slop =
        Some (Some (if malloc_ok E (length r + length notice + 1) then r @ notice else r))"
proof -
  let ?hd = "slop_header (length slop)"
  have hd: "length ?hd < 2048"
    using length_show_nat [of "length slop"] assms(2) by (simp add: slop_header_def)
  have "cbuf 2048 ?hd = ?hd" using hd by (simp add: cbuf_id)
  then obtain n where n: "n \<le> length slop"
      "slop_loop (length ?hd) (cbuf 2048 ?hd) slop =
        (length (?hd @ concat (map slop_entry (take n slop))), ?hd @ concat (map slop_entry (take n slop)))"
      "length (?hd @ concat (map slop_entry (take n slop))) < 2048"
    using slop_loop_exact [of slop "length ?hd" ?hd] assms(3) hd by fastforce
  then have "slop_notice slop = Some (?hd @ concat (map slop_entry (take n slop)))"
    by (simp add: slop_notice_def)
  moreover have "append_write_slop_advisory E (Some r) slop =
      map_option (\<lambda>x. Some (if malloc_ok E (length r + length x + 1) then r @ x else r)) (slop_notice slop)"
    using assms(1,4) by (auto simp: append_write_slop_advisory_def split: option.split cjson.split)
  ultimately show ?thesis using n(1) by auto
qed

theorem slop_advisory_bounded_witness:
  "\<exists>n \<le> 1. append_write_slop_advisory ref_env (Some ''ok'') [(3, ''todo'', ''x'')] =
    Some (Some (''ok'' @ slop_header 1 @ concat (map slop_entry (take n [(3, ''todo'', ''x'')]))))"
  using slop_advisory_bounded [of "[(3, ''todo'', ''x'')]" ref_env "''ok''"]
  by (simp add: slop_entry_def show_int_def show_nat.simps ref_env_def ref_cjson_def)

section \<open>Where the code falls short\<close>

text \<open>
  Occurrences are counted without overlap, so an ambiguous edit may pass as unique; a file
  with a NUL byte in it is written back without the bytes behind it; a dry run resolves a
  relative path against the joined path instead of the working directory; and one long
  excerpt sends the advisory past its buffer.
\<close>

lemma overlap_counts_once:
  "count_occurrences ''aa'' ''aaa'' = 1 \<and> sublist ''aa'' (drop 1 ''aaa'')"
  by (simp add: count_occurrences.simps)

lemma edit_drops_after_nul:
  "trace_of (tool_edit_file (note_env\<lparr>ws_read_all := (\<lambda>h p. Some (''one'' @ CHR 0x00 # ''two''))\<rparr>)
     (Some ''a'') (Some ''one'') (Some ''2'') False) [] = [WriteAll ''/ws/a'' ''2'']"
  by (simp add: tool_edit_file_def tool_write_file_def path_in_thread_cwd_def windows_absolute_def
      note_env_def ref_env_def c_view_def count_occurrences.simps cbuf_def trace_of_def Let_def)

lemma dry_run_resolves_twice:
  "dry_run_abs_path ref_env ''a.c'' = ''/ws/a.c/a.c''"
  by (simp add: dry_run_abs_path_def path_in_thread_cwd_def windows_absolute_def ref_env_def cbuf_def)

lemma long_excerpt_over_reads:
  "length x = 3000 \<Longrightarrow> slop_notice [(1, ''c'', x)] = None"
  by (simp add: slop_notice_def slop_header_def slop_entry_def show_int_def show_nat.simps)

end
