(* ===== verification/Repo_Tools.thy ===== *)
theory Repo_Tools
  imports File_Tools
begin

text \<open>
  The remaining tools of \<open>agent_tools.c\<close> (lines 1501 to 2129): \<open>verify\<close> with its HTTP HEAD
  check, \<open>grep\<close> and the read-only git tools, environment and file tests, code search and the
  investigation notes. Sockets and TLS, the index and the knowledge service are services of
  the environment. A result is \<open>None\<close> where the C function may return NULL.
\<close>

section \<open>Numbers in text\<close>

fun digits_value :: "int \<Rightarrow> string \<Rightarrow> int" where
  "digits_value acc [] = acc"
| "digits_value acc (c # s) =
     (if isdigit c then digits_value (acc * 10 + (int (of_char c :: nat) - 48)) s else acc)"

text \<open>
  \<open>atoi\<close> as the C library of the target has it: \<open>(int) strtol(s, NULL, 10)\<close>, the value
  saturated at 64 bits and cut to the low 32.
\<close>

definition atoi :: "string \<Rightarrow> int" where
  "atoi s =
     (let t = dropWhile isspace s;
          v = (case t of
                 c # r \<Rightarrow> if c = CHR ''-'' then - digits_value 0 r
                         else if c = CHR ''+'' then digits_value 0 r else digits_value 0 t
               | [] \<Rightarrow> 0) in
      sint (word_of_int (saturate 64 v) :: 32 word))"

section \<open>The HTTP check\<close>

abbreviation crlf :: string where
  "crlf \<equiv> [CHR 0x0D, CHR 0x0A]"

text \<open>TLS, host, port and path of a URL.\<close>

definition http_url :: "string \<Rightarrow> (bool \<times> string \<times> int \<times> string) option" where
  "http_url url =
     (let scheme = (if starts_with url ''https://'' then Some (True, 443, drop 8 url)
                    else if starts_with url ''http://'' then Some (False, 80, drop 7 url) else None) in
      case scheme of
        None \<Rightarrow> None
      | Some (ssl, default_port, p) \<Rightarrow>
          let slash = strchr p CHR ''/''; colon = strchr p CHR '':'';
              has_port = (case colon of
                 Some c \<Rightarrow> (case slash of None \<Rightarrow> True | Some s \<Rightarrow> length c > length s)
               | None \<Rightarrow> False);
              hostlen = length p - length (if has_port then the colon else or_else slash []);
              port = (if has_port then atoi (tl (the colon)) else default_port) in
          if hostlen = 0 \<or> hostlen \<ge> 256 then None
          else Some (ssl, take hostlen p, port, cbuf 2048 (or_else slash ''/'')))"

definition http_request :: "string \<Rightarrow> string \<Rightarrow> string" where
  "http_request host path =
     ''HEAD '' @ path @ '' HTTP/1.1'' @ crlf @ ''Host: '' @ host @ crlf @ ''Connection: close'' @ crlf @ crlf"

text \<open>Reading until a line end is in the 4095 bytes of the buffer.\<close>

fun http_read_loop :: "string \<Rightarrow> string list \<Rightarrow> string" where
  "http_read_loop resp [] = resp"
| "http_read_loop resp (c # cs) =
     (if length resp < 4095 then
        if c = [] then resp
        else let resp' = resp @ take (4095 - length resp) c in
          if strstr (c_view resp') crlf \<noteq> None then resp' else http_read_loop resp' cs
      else resp)"

definition http_status_code :: "string \<Rightarrow> int" where
  "http_status_code resp =
     (if length resp < 12 \<or> \<not> (starts_with resp ''HTTP/1.0'' \<or> starts_with resp ''HTTP/1.1'') then -1
      else let code = atoi (c_view (drop 9 resp)) in
        if 100 \<le> code \<and> code \<le> 999 then code else -1)"

definition http_head_status :: "env \<Rightarrow> trace \<Rightarrow> string \<Rightarrow> int" where
  "http_head_status E h url =
     (case http_url url of
        None \<Rightarrow> -1
      | Some (ssl, host, port, path) \<Rightarrow>
          let req = http_request host path in
          if length req \<ge> 4096 then -1
          else (case http_chunks E h ssl host port req of
                  None \<Rightarrow> -1
                | Some chunks \<Rightarrow> http_status_code (http_read_loop [] chunks)))"

definition verify_http :: "env \<Rightarrow> trace \<Rightarrow> string \<Rightarrow> string option \<Rightarrow> cjson" where
  "verify_http E h target expected =
     (let code = http_head_status E h target in
      if code < 0 then JObj [(''pass'', JBool False), (''reason'', JStr ''HTTP request failed'')]
      else let status = show_int code;
               pass = (case expected of Some e \<Rightarrow> status = e | None \<Rightarrow> hd status = CHR ''2'') in
        JObj [(''pass'', JBool pass), (''actual'', JStr status),
              (''expected'', JStr (or_else expected ''2xx''))])"

definition verify_file :: "env \<Rightarrow> trace \<Rightarrow> string \<Rightarrow> string option \<Rightarrow> cjson" where
  "verify_file E h target expected =
     (case validate_path E target of
        Inl verr \<Rightarrow> JObj [(''pass'', JBool False), (''reason'', JStr verr)]
      | Inr _ \<Rightarrow>
          (case call_str E h ''fopen'' [JStr target] of
             None \<Rightarrow> JObj [(''pass'', JBool False), (''reason'', JStr ''file not found'')]
           | Some bytes \<Rightarrow>
               let buf = c_view (take (output_max E) bytes);
                   pass = (case expected of Some e \<Rightarrow> strstr buf e \<noteq> None | None \<Rightarrow> False) in
               JObj ((''pass'', JBool pass)
                 # (if pass then [] else [(''reason'', JStr ''string not found in file'')]))))"

definition verify_failed :: "string \<Rightarrow> cjson" where
  "verify_failed reason = JObj [(''pass'', JBool False), (''reason'', JStr reason)]"

definition verify_command :: "env \<Rightarrow> string \<Rightarrow> cjson action" where
  "verify_command E target =
     (if guard_root E \<noteq> None
      then ret (verify_failed ''command_succeeds is blocked while the parent worktree is read-only'')
      else do {
        meta \<leftarrow> ask (\<lambda>h. call_int E h ''has_shell_metachar'' [JStr target]);
        if meta \<noteq> 0 then ret (verify_failed ''command contains shell metacharacters'')
        else
          let tokens = shlex_split E target 64 in
          if tokens = [] then ret (verify_failed ''empty command'')
          else do {
            (rc, out) \<leftarrow> perform (HostExec tokens) (\<lambda>h. host_exec E h tokens);
            ret (JObj [(''pass'', JBool (rc = 0)), (''exit_code'', jint rc)])
          }
      })"

definition tool_verify :: "env \<Rightarrow> string \<Rightarrow> string \<Rightarrow> string option \<Rightarrow> string option action" where
  "tool_verify E check_type target expected =
     (if check_type = ''http_status''
      then ask (\<lambda>h. cj_print (cj E) (verify_http E h target expected))
      else if check_type = ''file_contains''
      then ask (\<lambda>h. cj_print (cj E) (verify_file E h target expected))
      else if check_type = ''command_succeeds''
      then do { j \<leftarrow> verify_command E target; ret (cj_print (cj E) j) }
      else ret (cj_print (cj E) (verify_failed ''unknown check_type'')))"

section \<open>Search and git\<close>

text \<open>\<open>n\<close> when it is positive, at most \<open>mx\<close>, else a default.\<close>

definition clamp :: "int \<Rightarrow> int \<Rightarrow> int \<Rightarrow> int" where
  "clamp n dflt mx = (let m = (if n \<le> 0 then dflt else n) in if m > mx then mx else m)"

definition is_dir :: "env \<Rightarrow> trace \<Rightarrow> string \<Rightarrow> bool" where
  "is_dir E h p = (call_int E h ''stat'' [JStr p] = 0 \<and> call_int E h ''S_ISDIR'' [JStr p] \<noteq> 0)"

definition grep_argv :: "int \<Rightarrow> string \<Rightarrow> string \<Rightarrow> string list" where
  "grep_argv max_results pattern path =
     [''grep'', ''--binary-files=without-match'', ''-rn'', ''--exclude-dir=.git'', ''--exclude-dir=.aimee'',
      ''--exclude-dir=build'', ''--exclude-dir=dist'', ''--exclude-dir=node_modules'', ''-m'',
      show_int max_results, ''--'', pattern, path]"

definition tool_grep :: "env \<Rightarrow> string option \<Rightarrow> string option \<Rightarrow> int \<Rightarrow> string action" where
  "tool_grep E path pattern max_results =
     (case (path, pattern) of
        (Some pa, Some pt) \<Rightarrow>
          let actual = path_in_thread_cwd E pa in
          (case validate_path E actual of
             Inl verr \<Rightarrow> ret verr
           | Inr _ \<Rightarrow> do {
               st \<leftarrow> ask (\<lambda>h. call_int E h ''stat'' [JStr actual]);
               if st \<noteq> 0 then ret ''error: path does not exist''
               else do {
                 (rc, out) \<leftarrow> perform (HostExec (grep_argv (clamp max_results 50 200) pt actual))
                   (\<lambda>h. host_exec E h (grep_argv (clamp max_results 50 200) pt actual));
                 ret (if rc \<noteq> 0 \<and> rc \<noteq> 1 \<and> \<not> nonempty out then ''no matches found''
                      else or_else out ''no matches found'')
               }
             })
      | _ \<Rightarrow> ret ''error: missing path or pattern'')"

text \<open>A git command in a directory, through the provider or on this host.\<close>

definition git_result :: "string \<Rightarrow> int \<times> string option \<Rightarrow> string" where
  "git_result err r = (case r of (rc, out) \<Rightarrow> if rc \<noteq> 0 \<and> \<not> nonempty out then err else or_else out [])"

definition git_diff_argv :: "string \<Rightarrow> string option \<Rightarrow> string list" where
  "git_diff_argv path ref =
     [''git'', ''-C'', path, ''diff''] @ (if nonempty ref then [the ref] else [])"

definition tool_git_diff :: "env \<Rightarrow> string option \<Rightarrow> string option \<Rightarrow> string action" where
  "tool_git_diff E repo_path ref =
     (case repo_path of
        None \<Rightarrow> ret ''error: missing repo path''
      | Some p \<Rightarrow>
          let actual = path_in_thread_cwd E p in do {
            dir \<leftarrow> ask (\<lambda>h. is_dir E h actual);
            if \<not> dir then ret ''error: repo path is not a directory''
            else do {
              r \<leftarrow> perform (ExecArgv (git_diff_argv actual ref)) (\<lambda>h. ws_exec E h (git_diff_argv actual ref));
              ret (git_result ''error: git diff failed'' r)
            }
          })"

definition tool_git_status :: "env \<Rightarrow> string option \<Rightarrow> string action" where
  "tool_git_status E repo_path =
     (case repo_path of
        None \<Rightarrow> ret ''error: missing repo path''
      | Some p \<Rightarrow>
          let actual = path_in_thread_cwd E p; argv = [''git'', ''-C'', actual, ''status'', ''--porcelain''] in do {
            dir \<leftarrow> ask (\<lambda>h. is_dir E h actual);
            if \<not> dir then ret ''error: repo path is not a directory''
            else do {
              r \<leftarrow> perform (ExecArgv argv) (\<lambda>h. ws_exec E h argv);
              ret (git_result ''error: git status failed'' r)
            }
          })"

definition tool_git_log :: "env \<Rightarrow> string \<Rightarrow> int \<Rightarrow> string action" where
  "tool_git_log E repo_path count =
     (let actual = path_in_thread_cwd E repo_path;
          argv = [''git'', ''-C'', actual, ''log'', ''--oneline'', ''-n'', show_int (clamp count 10 50)] in do {
        dir \<leftarrow> ask (\<lambda>h. is_dir E h actual);
        if \<not> dir then ret ''error: repo path is not a directory''
        else do {
          r \<leftarrow> perform (HostExec argv) (\<lambda>h. host_exec E h argv);
          ret (git_result ''error: git log failed'' r)
        }
      })"

section \<open>Environment and file tests\<close>

definition tool_env_get :: "env \<Rightarrow> string option \<Rightarrow> string" where
  "tool_env_get E name =
     (case name of
        None \<Rightarrow> ''error: missing variable name''
      | Some n \<Rightarrow>
          if n = [] then ''error: missing variable name''
          else if list_ex (\<lambda>c. \<not> (isalpha c \<or> isdigit c) \<and> c \<noteq> CHR ''_'') n
          then ''error: invalid variable name''
          else or_else (getenv E n) ''(not set)'')"

text \<open>The file type: 0 directory, 1 symbolic link, 2 regular file, else other.\<close>

definition tool_test :: "env \<Rightarrow> trace \<Rightarrow> string option \<Rightarrow> string option \<Rightarrow> string option" where
  "tool_test E h path check =
     (case path of
        None \<Rightarrow> Some ''{\"pass\":false,\"reason\":\"missing path\"}''
      | Some p \<Rightarrow>
          let actual = path_in_thread_cwd E p; chk = or_else check ''exists'';
              present = (call_int E h ''lstat'' [JStr actual] = 0);
              kind = call_int E h ''st_type'' [JStr actual];
              access = (\<lambda>mode. call_int E h mode [JStr actual] = 0);
              pass = (\<lambda>b. [(''pass'', JBool b)]) in
          cj_print (cj E) (JObj
            (if chk = ''exists'' then pass present
               @ (if present
                  then [(''type'', JStr (if kind = 0 then ''directory'' else if kind = 1 then ''symlink''
                                         else if kind = 2 then ''file'' else ''other'')),
                        (''size'', jint (call_int E h ''st_size'' [JStr actual]))] else [])
             else if chk = ''is_file'' then pass (present \<and> kind = 2)
             else if chk = ''is_dir'' then pass (present \<and> kind = 0)
             else if chk = ''readable'' then pass (access ''access_R_OK'')
             else if chk = ''writable'' then pass (access ''access_W_OK'')
             else if chk = ''executable'' then pass (access ''access_X_OK'')
             else pass False @ [(''reason'', JStr ''unknown check type'')])))"

definition tool_request_input :: "env \<Rightarrow> string option \<Rightarrow> string action" where
  "tool_request_input E question =
     (if \<not> nonempty question then ret ''error: missing question''
      else do {
        reply \<leftarrow> perform (Call ''delegation_request_input'' [opt_str question])
          (\<lambda>h. call_str E h ''delegation_request_input'' [opt_str question]);
        ret (or_else reply ''error: request_input is only available during delegated execution'')
      })"

section \<open>Code search\<close>

text \<open>
  The overlay's hits come first; the index fills what is left of the limit. A hit of the
  index is an object of the knowledge service to which freshness has been added.
\<close>

definition tool_code_search :: "env \<Rightarrow> trace \<Rightarrow> string option \<Rightarrow> string option \<Rightarrow> int \<Rightarrow> string" where
  "tool_code_search E h query project max_results =
     (if \<not> nonempty query then ''error: missing query''
      else
        let mx = clamp max_results 50 200; a = [opt_str query, opt_str project] in
        if \<not> malloc_ok E (nat mx) then ''error: out of memory''
        else
          let overlay = j_children (call_json E h ''agent_source_append_overlay_code_hits'' (a @ [jint mx]));
              remaining = mx - int (length overlay);
              hits = (if remaining > 0
                then take (nat remaining) (j_children (call_json E h ''kb_client_index_code_search'' (a @ [jint remaining])))
                else []) in
          print_or E (JArr (overlay @ hits)) ''[]'')"

section \<open>Notes\<close>

text \<open>A note's fields as the renderer reads them: a field that is no string is empty.\<close>

definition note_field :: "env \<Rightarrow> cjson \<Rightarrow> string \<Rightarrow> string" where
  "note_field E n k = or_else (j_str (arg_cs E n k)) []"

definition note_entry :: "env \<Rightarrow> bool \<Rightarrow> cjson \<Rightarrow> string" where
  "note_entry E include_content n =
     (let title = note_field E n ''title''; tags = note_field E n ''tags''; updated = note_field E n ''updated_at'';
          nl = [CHR 0x0A] in
      if include_content then
        ''### '' @ title @ nl @ ''Tags: '' @ tags @ '' | Updated: '' @ updated @ nl @ nl
          @ note_field E n ''content'' @ nl @ nl @ ''---'' @ nl @ nl
      else ''- '' @ title @ '' ['' @ tags @ ''] (updated: '' @ updated @ '')'' @ nl)"

text \<open>
  Printing entries into 8192 bytes while more than \<open>slack\<close> of them are left; \<open>pos\<close> counts
  what would have been printed, so it may come to lie behind the buffer, where the size given
  to \<open>snprintf\<close> wraps. \<open>None\<close> is a write behind the end.
\<close>

fun print_loop :: "nat \<Rightarrow> nat \<Rightarrow> string \<Rightarrow> string list \<Rightarrow> string option" where
  "print_loop slack pos buf [] = Some buf"
| "print_loop slack pos buf (e # es) =
     (if int pos \<ge> 8192 - int slack then Some buf
      else (case snprintf_at 8192 pos buf e of
              None \<Rightarrow> None
            | Some buf' \<Rightarrow> print_loop slack (pos + length e) buf' es))"

text \<open>\<open>None\<close> is the write behind the end of the loop; there is none (\<open>print_loop_total\<close> below).\<close>

definition render_notes_json_to_text ::
  "env \<Rightarrow> string option \<Rightarrow> string \<Rightarrow> bool \<Rightarrow> (nat \<Rightarrow> string) \<Rightarrow> string option" where
  "render_notes_json_to_text E json empty_msg include_content title_of =
     (case json of
        None \<Rightarrow> Some ''error: knowledge service unavailable for notes''
      | Some j \<Rightarrow>
          (case cj_parse (cj E) j of
             None \<Rightarrow> Some ''error: invalid response from knowledge service''
           | Some resp \<Rightarrow>
               if j_str (arg_cs E resp ''status'') \<noteq> Some ''ok''
               then Some (cbuf 256 (''error: '' @ or_else (j_str (arg_cs E resp ''message'')) ''notes lookup failed''))
               else
                 let notes = (if is_arr (arg_cs E resp ''notes'') then j_children (arg_cs E resp ''notes'') else []) in
                 if notes = [] then Some empty_msg
                 else print_loop 1024 (length (title_of (length notes))) (cbuf 8192 (title_of (length notes)))
                        (map (note_entry E include_content) notes)))"

text \<open>An id is printed as the integer part of \<open>valuedouble\<close>.\<close>

definition tool_create_note :: "env \<Rightarrow> string option \<Rightarrow> string option \<Rightarrow> string option \<Rightarrow> string action" where
  "tool_create_note E title content tags =
     (if \<not> nonempty title then ret (''error: missing 'title'' @ [CHR 0x27])
      else if \<not> nonempty content then ret (''error: missing 'content'' @ [CHR 0x27])
      else do {
        json \<leftarrow> perform (Call ''kb_client_note_create_json'' [opt_str title, opt_str content, opt_str tags, JStr ''delegate''])
          (\<lambda>h. call_str E h ''kb_client_note_create_json'' [opt_str title, opt_str content, opt_str tags, JStr ''delegate'']);
        ret (case json of
            None \<Rightarrow> ''error: knowledge service unavailable for note create''
          | Some j \<Rightarrow>
              (case cj_parse (cj E) j of
                 None \<Rightarrow> ''error: invalid response from knowledge service''
               | Some resp \<Rightarrow>
                   if j_str (arg_cs E resp ''status'') \<noteq> Some ''ok''
                   then cbuf 256 (''error: failed to create note: '' @ or_else (j_str (arg_cs E resp ''message'')) ''unknown'')
                   else
                     let field = (\<lambda>k. case arg_cs E resp ''note'' of Some n \<Rightarrow> arg_cs E n k | None \<Rightarrow> None) in
                     cbuf 512 (''Note saved: '' @ or_else (j_str (field ''title'')) [] @ '' (slug: ''
                       @ or_else (j_str (field ''slug'')) [] @ '', id: ''
                       @ show_int (case field ''id'' of Some (JNum i d) \<Rightarrow> (if d < 0 then - \<lfloor>- d\<rfloor> else \<lfloor>d\<rfloor>) | _ \<Rightarrow> 0) @ '')'')))
      })"

definition tool_list_notes :: "env \<Rightarrow> trace \<Rightarrow> string option \<Rightarrow> int \<Rightarrow> string" where
  "tool_list_notes E h tag limit =
     (let lim = (if limit \<le> 0 \<or> limit > 20 then 20 else limit);
          json = call_str E h ''kb_client_note_list_json'' [opt_str (if nonempty tag then tag else None), jint lim] in
      the (render_notes_json_to_text E json ''No investigation notes found.'' False
        (\<lambda>n. ''Investigation notes ('' @ show_nat n @ ''):'' @ [CHR 0x0A, CHR 0x0A])))"

definition tool_search_notes :: "env \<Rightarrow> trace \<Rightarrow> string option \<Rightarrow> string" where
  "tool_search_notes E h query =
     (if \<not> nonempty query then ''error: missing 'query'' @ [CHR 0x27]
      else the (render_notes_json_to_text E (call_str E h ''kb_client_note_search_json'' [opt_str query, jint 10])
        (cbuf 256 (''No notes matching '' @ [CHR 0x27] @ the query @ [CHR 0x27] @ ''.'')) True
        (\<lambda>n. ''Found '' @ show_nat n @ '' note(s):'' @ [CHR 0x0A, CHR 0x0A])))"

section \<open>Lemmas on numbers\<close>

lemma isdigit_show [simp]: "n < 10 \<Longrightarrow> isdigit (char_of (48 + n :: nat))"
  by (simp add: isdigit_def of_char_of)

lemma digit_value [simp]: "n < 10 \<Longrightarrow> (of_char (char_of (48 + n :: nat) :: char) :: nat) = 48 + n"
  by (simp add: of_char_of)

lemma digits_value_show:
  "\<exists>k. \<forall>acc s. digits_value acc (show_nat n @ s) = digits_value (acc * 10 ^ k + int n) s"
proof (induction n rule: show_nat.induct)
  case (1 n)
  show ?case
  proof (cases "n < 10")
    case True
    then have "show_nat n = [char_of (48 + n)]" by (subst show_nat.simps) simp
    then have "\<forall>acc s. digits_value acc (show_nat n @ s) = digits_value (acc * 10 ^ 1 + int n) s"
      using True by simp
    then show ?thesis by blast
  next
    case False
    have "n mod 10 < 10" by simp
    have sh: "show_nat n = show_nat (n div 10) @ [char_of (48 + n mod 10)]"
      using False by (subst show_nat.simps) simp
    from "1.IH" [OF False] obtain k where
      k: "digits_value acc (show_nat (n div 10) @ s) = digits_value (acc * 10 ^ k + int (n div 10)) s" for acc s
      by blast
    have "digits_value acc (show_nat n @ s) = digits_value (acc * 10 ^ Suc k + int n) s" for acc s
    proof -
      have "int (n div 10) * 10 + int (n mod 10) = int n"
        by (metis of_nat_add of_nat_mult of_nat_numeral div_mult_mod_eq)
      then have e: "(acc * 10 ^ k + int (n div 10)) * 10 + int (n mod 10) = acc * 10 ^ Suc k + int n"
        by (simp add: algebra_simps)
      have "digits_value acc (show_nat n @ s) =
          digits_value (acc * 10 ^ k + int (n div 10)) (char_of (48 + n mod 10) # s)"
        using k by (simp add: sh)
      also have "\<dots> = digits_value ((acc * 10 ^ k + int (n div 10)) * 10 + int (n mod 10)) s"
        using digit_value [OF \<open>n mod 10 < 10\<close>] isdigit_show [OF \<open>n mod 10 < 10\<close>] by simp
      finally show ?thesis unfolding e .
    qed
    then show ?thesis by blast
  qed
qed

lemma digits_value_show_stop:
  assumes "s = [] \<or> \<not> isdigit (hd s)"
  shows "digits_value 0 (show_nat n @ s) = int n"
proof -
  obtain k where "digits_value 0 (show_nat n @ s) = digits_value (0 * 10 ^ k + int n) s"
    using digits_value_show [of n] by blast
  then show ?thesis using assms by (cases s) auto
qed

lemma show_nat_digits: "c \<in> set (show_nat n) \<Longrightarrow> isdigit c"
proof (induction n rule: show_nat.induct)
  case (1 n)
  show ?case
  proof (cases "n < 10")
    case True
    then have "show_nat n = [char_of (48 + n)]" by (subst show_nat.simps) simp
    with True "1.prems" show ?thesis by simp
  next
    case False
    have "n mod 10 < 10" by simp
    have "show_nat n = show_nat (n div 10) @ [char_of (48 + n mod 10)]"
      using False by (subst show_nat.simps) simp
    then show ?thesis
      using "1.IH" [OF False] "1.prems" isdigit_show [OF \<open>n mod 10 < 10\<close>] by auto
  qed
qed

lemma show_nat_not_Nil [simp]: "show_nat n \<noteq> []"
  by (subst show_nat.simps) simp

lemma digit_char: "isdigit c \<Longrightarrow> \<not> isspace c \<and> c \<noteq> CHR ''-'' \<and> c \<noteq> CHR ''+'' \<and> c \<noteq> CHR 0x00 \<and> c \<noteq> CHR 0x0A"
  by (auto simp: isdigit_def isspace_def)

lemma atoi_show:
  assumes "s = [] \<or> \<not> isdigit (hd s)" "n < 2 ^ 31"
  shows "atoi (show_nat n @ s) = int n"
proof -
  obtain c r where cr: "show_nat n = c # r" by (cases "show_nat n") auto
  then have "isdigit c" using show_nat_digits [of c n] by simp
  then have "dropWhile isspace (show_nat n @ s) = show_nat n @ s" "c \<noteq> CHR ''-''" "c \<noteq> CHR ''+''"
    using digit_char [of c] by (simp_all add: cr)
  then have "atoi (show_nat n @ s) = sint (word_of_int (saturate 64 (digits_value 0 (show_nat n @ s))) :: 32 word)"
    by (simp add: atoi_def cr)
  also have "saturate 64 (digits_value 0 (show_nat n @ s)) = int n"
    using assms(2) by (simp add: digits_value_show_stop [OF assms(1)] saturate_def)
  also have "sint (word_of_int (int n) :: 32 word) = int n"
    using assms(2) by (subst sint_sbintrunc') (simp add: signed_take_bit_int_eq_self)
  finally show ?thesis .
qed

lemma show_nat_three: "100 \<le> n \<Longrightarrow> n \<le> 999 \<Longrightarrow>
    show_nat n = [char_of (48 + n div 100), char_of (48 + n div 10 mod 10), char_of (48 + n mod 10)]"
  by (subst show_nat.simps, subst show_nat.simps, subst show_nat.simps) (auto simp: div_mult2_eq [symmetric])

section \<open>Lemmas on the HTTP check and the notes\<close>

lemma http_read_loop_front:
  "\<forall>c \<in> set chunks. c \<noteq> [] \<Longrightarrow>
    \<exists>r. http_read_loop resp chunks = r \<and> prefix r (resp @ concat chunks)
      \<and> (r = resp @ concat chunks \<or> length r \<ge> 4095 \<or> sublist crlf r)"
proof (induction resp chunks rule: http_read_loop.induct)
  case (2 resp c cs)
  show ?case
  proof (cases "length resp < 4095")
    case False
    then show ?thesis by simp
  next
    case True
    have c: "c \<noteq> []" using "2.prems" by simp
    let ?r = "resp @ take (4095 - length resp) c"
    have pre: "prefix ?r (resp @ c @ concat cs)"
      by (metis append_assoc append_take_drop_id prefixI same_prefix_prefix)
    show ?thesis
    proof (cases "strstr (c_view ?r) crlf \<noteq> None")
      case found: True
      then have "sublist crlf (c_view ?r)" by (simp add: strstr_None_iff)
      moreover have "prefix (c_view ?r) ?r" unfolding c_view_def by (rule takeWhile_is_prefix)
      ultimately have "sublist crlf ?r" by (meson prefix_imp_sublist sublist_order.order.trans)
      then show ?thesis using True c found pre by simp
    next
      case go: False
      have loop: "http_read_loop resp (c # cs) = http_read_loop ?r cs"
        using True c go by simp
      show ?thesis
      proof (cases "length c \<le> 4095 - length resp")
        case True
        then have r: "?r = resp @ c" by simp
        have "\<exists>r. http_read_loop ?r cs = r \<and> prefix r (?r @ concat cs)
            \<and> (r = ?r @ concat cs \<or> length r \<ge> 4095 \<or> sublist crlf r)"
          using "2.IH" [OF \<open>length resp < 4095\<close> c refl] go "2.prems" by simp
        then show ?thesis unfolding loop r by simp
      next
        case False
        then have len: "length ?r = 4095" using True by simp
        then have "http_read_loop ?r cs = ?r" by (cases cs) auto
        then show ?thesis unfolding loop using pre len by simp
      qed
    qed
  qed
qed simp

lemma print_loop_front:
  assumes "pos = length buf \<and> pos \<le> 8191 \<or> pos \<ge> 8191 \<and> length buf = 8191" "0 < slack"
  shows "\<exists>out. print_loop slack pos buf es = Some out \<and> prefix out (buf @ concat es)
    \<and> length out \<le> 8191 \<and> (out = buf @ concat es \<or> 8192 - slack \<le> length out)"
  using assms(1)
proof (induction es arbitrary: pos buf)
  case Nil
  then show ?case by auto
next
  case (Cons e es)
  show ?case
  proof (cases "int pos \<ge> 8192 - int slack")
    case True
    then show ?thesis using Cons.prems assms(2) by auto
  next
    case False
    then have pos: "pos = length buf" "pos \<le> 8191" using Cons.prems assms(2) by auto
    let ?b = "buf @ take (8192 - pos - 1) e"
    have b: "snprintf_at 8192 pos buf e = Some ?b"
      using pos by (intro snprintf_at_inside) simp_all
    have i: "pos + length e = length ?b \<and> pos + length e \<le> 8191 \<or> pos + length e \<ge> 8191 \<and> length ?b = 8191"
      using pos by auto
    from Cons.IH [OF i] obtain out where out: "print_loop slack (pos + length e) ?b es = Some out"
        "prefix out (?b @ concat es)" "length out \<le> 8191"
        "out = ?b @ concat es \<or> 8192 - slack \<le> length out" by blast
    have run: "print_loop slack pos buf (e # es) = print_loop slack (pos + length e) ?b es"
      using False b by simp
    show ?thesis
    proof (cases "length e \<le> 8192 - pos - 1")
      case True
      then show ?thesis using out unfolding run by simp
    next
      case long: False
      then have "print_loop slack (pos + length e) ?b es = Some ?b"
        using assms(2) pos by (cases es) auto
      moreover have "prefix ?b (buf @ e @ concat es)"
        by (metis append_assoc append_take_drop_id prefixI same_prefix_prefix)
      moreover have "length ?b = 8191" using long pos by simp
      moreover have "8192 - slack \<le> 8191" using assms(2) by simp
      ultimately show ?thesis unfolding run by (intro exI [of _ ?b]) simp
    qed
  qed
qed

lemma print_loop_total:
  assumes "pos = length buf" "pos \<le> 8191" "0 < slack"
  obtains out where "print_loop slack pos buf es = Some out" "length out \<le> 8191"
  using print_loop_front [of pos buf slack es] assms by auto

text \<open>Entries that fit into the slack are printed whole or not at all.\<close>

lemma print_loop_whole:
  "pos = length buf \<Longrightarrow> \<forall>e \<in> set es. length e \<le> slack \<Longrightarrow> 0 < slack \<Longrightarrow> slack \<le> 8192 \<Longrightarrow>
     \<exists>k \<le> length es. print_loop slack pos buf es = Some (buf @ concat (take k es))"
proof (induction es arbitrary: pos buf)
  case Nil
  then show ?case by simp
next
  case (Cons e es)
  show ?case
  proof (cases "int pos \<ge> 8192 - int slack")
    case True
    then show ?thesis by (intro exI [of _ 0]) simp
  next
    case False
    moreover have e: "length e \<le> slack" using Cons.prems(2) by simp
    ultimately have room: "pos \<le> 8192" "length e \<le> 8192 - pos - 1" by linarith+
    have "snprintf_at 8192 pos buf e = Some (buf @ take (8192 - pos - 1) e)"
      using Cons.prems(1) room(1) by (intro snprintf_at_inside) simp_all
    then have b: "snprintf_at 8192 pos buf e = Some (buf @ e)"
      using room(2) by simp
    from Cons.IH [of "pos + length e" "buf @ e"] Cons.prems obtain k where
      "k \<le> length es" "print_loop slack (pos + length e) (buf @ e) es = Some ((buf @ e) @ concat (take k es))"
      by auto
    then show ?thesis using False b by (intro exI [of _ "Suc k"]) simp
  qed
qed

section \<open>Properties\<close>

text \<open>C35. The HTTP check reads the status however the response arrives: for any split of a
  response into non-empty reads, as long as its status line fits the buffer, the result is
  the three-digit code of the status line.\<close>

theorem http_status_any_split:
  assumes "\<forall>x \<in> set chunks. x \<noteq> []"
    and "concat chunks = ''HTTP/1.1 '' @ show_nat c @ CHR '' '' # reason @ crlf @ rest"
    and "100 \<le> c" "c \<le> 999" "CHR 0x0A \<notin> set reason" "length reason + 15 \<le> 4095"
  shows "http_status_code (http_read_loop [] chunks) = int c"
proof -
  let ?first = "''HTTP/1.1 '' @ show_nat c @ [CHR '' '']"
  let ?line = "?first @ reason"
  obtain r where r: "http_read_loop [] chunks = r" "prefix r (?line @ crlf @ rest)"
      "r = ?line @ crlf @ rest \<or> length r \<ge> 4095 \<or> sublist crlf r"
    using http_read_loop_front [OF assms(1), of "[]"] assms(2) by auto
  have len: "length (show_nat c) = 3" using show_nat_three [OF assms(3,4)] by simp
  have nl: "CHR 0x0A \<notin> set (?line @ [CHR 0x0D])"
    using assms(5) show_nat_digits [of "CHR 0x0A" c] digit_char [of "CHR 0x0A"] by auto
  have "length ?line \<le> length r"
  proof (rule ccontr)
    assume short: "\<not> length ?line \<le> length r"
    then have "prefix r ?line" using r(2) by (metis nat_le_linear prefixI prefix_length_prefix)
    then have "set r \<subseteq> set ?line" by (rule set_mono_prefix)
    then have "CHR 0x0A \<notin> set r" using nl by auto
    then have "\<not> sublist crlf r" by (auto dest: set_mono_sublist)
    then show False using r(3) short assms(6) len by auto
  qed
  then have "prefix ?line r" using r(2) by (metis prefixI prefix_length_prefix)
  then obtain t where t: "r = ?first @ t" by (auto simp: prefix_def)
  have code: "atoi (c_view (show_nat c @ CHR '' '' # t)) = int c"
  proof -
    have "\<forall>x \<in> set (show_nat c). x \<noteq> CHR 0x00" using show_nat_digits digit_char by blast
    then have "c_view (show_nat c @ CHR '' '' # t) = show_nat c @ CHR '' '' # c_view t"
      by (simp add: c_view_def takeWhile_append2)
    then show ?thesis using assms(4) by (simp add: atoi_show isdigit_def)
  qed
  have "drop 9 r = show_nat c @ CHR '' '' # t" using t by simp
  then show ?thesis
    using code assms(3,4) len t r(1) by (simp add: http_status_code_def Let_def)
qed

theorem http_status_any_split_witness:
  "http_status_code (http_read_loop [] [''HTT'', ''P/1.1 20'', ''4 No'', '' Content'' @ crlf]) = 204"
proof -
  have "show_nat 204 = ''204''" by (simp add: show_nat.simps char_of_def bit_0)
  then show ?thesis
    using http_status_any_split [of "[''HTT'', ''P/1.1 20'', ''4 No'', '' Content'' @ crlf]" 204 "''No Content''" "[]"]
    by simp
qed

text \<open>C36. A check without an expected status passes exactly on success codes: the check that
  read the code \<open>c\<close> reports a pass if and only if \<open>c\<close> is from 200 to 299; with an expected
  status it passes exactly when that is the decimal of the code.\<close>

theorem verify_http_passes:
  assumes "http_head_status E h url = int c" "100 \<le> c" "c \<le> 999"
  shows "(\<exists>kvs. verify_http E h url None = JObj ((''pass'', JBool (200 \<le> c \<and> c \<le> 299)) # kvs))
    \<and> (\<exists>kvs. verify_http E h url (Some e) = JObj ((''pass'', JBool (e = show_nat c)) # kvs))"
proof -
  have hd: "hd (show_nat c) = CHR ''2'' \<longleftrightarrow> 200 \<le> c \<and> c \<le> 299"
  proof -
    have "hd (show_nat c) = char_of (48 + c div 100)" using show_nat_three [OF assms(2,3)] by simp
    moreover have "(char_of (48 + c div 100) :: char) = CHR ''2'' \<longleftrightarrow> c div 100 = 2"
    proof
      assume "(char_of (48 + c div 100) :: char) = CHR ''2''"
      then have "(of_char (char_of (48 + c div 100) :: char) :: nat) = of_char (CHR ''2'')" by simp
      then show "c div 100 = 2" using assms(3) by (simp add: of_char_of)
    qed (simp add: char_of_def bit_0)
    moreover have "c div 100 = 2 \<longleftrightarrow> 200 \<le> c \<and> c \<le> 299" by auto
    ultimately show ?thesis by simp
  qed
  have "show_int (int c) = show_nat c" by (simp add: show_int_def)
  then show ?thesis
    using assms hd by (auto simp: verify_http_def Let_def)
qed

theorem verify_http_passes_witness:
  "let E = ref_env\<lparr>http_chunks := (\<lambda>_ _ _ _ _. Some [''HTTP/1.0 301 x''])\<rparr> in
   http_head_status E [] ''http://a'' = 301
   \<and> (\<exists>kvs. verify_http E [] ''http://a'' None = JObj ((''pass'', JBool False) # kvs))"
proof -
  let ?E = "ref_env\<lparr>http_chunks := (\<lambda>_ _ _ _ _. Some [''HTTP/1.0 301 x''])\<rparr>"
  have "http_head_status ?E [] ''http://a'' = int 301"
    by (simp add: http_head_status_def http_url_def http_request_def http_status_code_def c_view_def
        atoi_def saturate_def isspace_def isdigit_def cbuf_def Let_def)
  from verify_http_passes [OF this, of undefined] this show ?thesis by (simp add: Let_def)
qed

text \<open>C34. The search and git tools run one command at most, and exactly this one: \<open>grep\<close> runs
  when the path validates and exists, with the caller's pattern and path behind the end of
  the options and 1 to 200 hits per file; the git tools run when the path is a directory,
  in that directory, \<open>git diff\<close> with the caller's reference when there is one, \<open>git log\<close>
  with 1 to 50 entries. Every string of the caller is one element of an argument vector.\<close>

theorem repo_tools_argv:
  "let q = path_in_thread_cwd E p in
   trace_of (tool_grep E (Some p) (Some pt) n) h =
      h @ (if (\<exists>r. validate_path E q = Inr r) \<and> call_int E h ''stat'' [JStr q] = 0
           then [HostExec [''grep'', ''--binary-files=without-match'', ''-rn'', ''--exclude-dir=.git'',
                   ''--exclude-dir=.aimee'', ''--exclude-dir=build'', ''--exclude-dir=dist'',
                   ''--exclude-dir=node_modules'', ''-m'', show_int (if n \<le> 0 then 50 else min n 200),
                   ''--'', pt, q]]
           else [])
   \<and> trace_of (tool_git_diff E (Some p) ref) h =
      h @ (if is_dir E h q
           then [ExecArgv ([''git'', ''-C'', q, ''diff''] @ (case ref of Some (c # cs) \<Rightarrow> [c # cs] | _ \<Rightarrow> []))]
           else [])
   \<and> trace_of (tool_git_status E (Some p)) h =
      h @ (if is_dir E h q then [ExecArgv [''git'', ''-C'', q, ''status'', ''--porcelain'']] else [])
   \<and> trace_of (tool_git_log E p n) h =
      h @ (if is_dir E h q
           then [HostExec [''git'', ''-C'', q, ''log'', ''--oneline'', ''-n'',
                   show_int (if n \<le> 0 then 10 else min n 50)]]
           else [])
   \<and> trace_of (tool_grep E None (Some pt) n) h = h \<and> trace_of (tool_grep E path None n) h = h
   \<and> trace_of (tool_git_diff E None ref) h = h \<and> trace_of (tool_git_status E None) h = h"
proof -
  let ?q = "path_in_thread_cwd E p"
  have c: "clamp n 50 200 = (if n \<le> 0 then 50 else min n 200)" "clamp n 10 50 = (if n \<le> 0 then 10 else min n 50)"
    by (auto simp: clamp_def Let_def)
  have "trace_of (tool_grep E (Some p) (Some pt) n) h =
      h @ (if (\<exists>r. validate_path E ?q = Inr r) \<and> call_int E h ''stat'' [JStr ?q] = 0
           then [HostExec (grep_argv (clamp n 50 200) pt ?q)] else [])"
    by (cases "validate_path E ?q") (auto simp: tool_grep_def trace_of_def Let_def split: prod.split)
  moreover have "trace_of (tool_git_diff E (Some p) ref) h =
      h @ (if is_dir E h ?q then [ExecArgv (git_diff_argv ?q ref)] else [])"
    by (auto simp: tool_git_diff_def trace_of_def Let_def)
  moreover have "trace_of (tool_git_status E (Some p)) h =
      h @ (if is_dir E h ?q then [ExecArgv [''git'', ''-C'', ?q, ''status'', ''--porcelain'']] else [])"
    by (auto simp: tool_git_status_def trace_of_def Let_def)
  moreover have "trace_of (tool_git_log E p n) h =
      h @ (if is_dir E h ?q
           then [HostExec [''git'', ''-C'', ?q, ''log'', ''--oneline'', ''-n'', show_int (clamp n 10 50)]] else [])"
    by (auto simp: tool_git_log_def trace_of_def Let_def)
  moreover have "git_diff_argv ?q ref = [''git'', ''-C'', ?q, ''diff''] @ (case ref of Some (c # cs) \<Rightarrow> [c # cs] | _ \<Rightarrow> [])"
    by (auto simp: git_diff_argv_def split: option.splits list.splits)
  moreover have "trace_of (tool_grep E None (Some pt) n) h = h" "trace_of (tool_grep E path None n) h = h"
      "trace_of (tool_git_diff E None ref) h = h" "trace_of (tool_git_status E None) h = h"
    by (simp_all add: tool_grep_def tool_git_diff_def tool_git_status_def trace_of_def split: option.split)
  ultimately show ?thesis by (simp only: Let_def c grep_argv_def)
qed

text \<open>C38. The notes listing cannot overflow its buffer, although the size handed to
  \<open>snprintf\<close> would wrap behind its end: for any notes the rendering exists, is a front of the
  heading and all entries printed one after the other, has at most 8191 characters, and
  leaves something out only once at least 7168 characters are there. When each
  entry has at most 1024 characters, every entry shown is shown whole.\<close>

theorem notes_rendering_bounded:
  assumes "cj_parse (cj E) j = Some resp" "j_str (arg_cs E resp ''status'') = Some ''ok''"
    and "arg_cs E resp ''notes'' = Some (JArr notes)" "notes \<noteq> []"
    and "length (title_of (length notes)) < 8192"
  shows "\<exists>out. render_notes_json_to_text E (Some j) empty_msg full title_of = Some out
    \<and> prefix out (title_of (length notes) @ concat (map (note_entry E full) notes))
    \<and> length out \<le> 8191
    \<and> (out = title_of (length notes) @ concat (map (note_entry E full) notes) \<or> 7168 \<le> length out)
    \<and> ((\<forall>n \<in> set notes. length (note_entry E full n) \<le> 1024) \<longrightarrow>
         (\<exists>k \<le> length notes. out = title_of (length notes) @ concat (map (note_entry E full) (take k notes))))"
proof -
  let ?t = "title_of (length notes)" and ?es = "map (note_entry E full) notes"
  have "cbuf 8192 ?t = ?t" using assms(5) by (rule cbuf_id)
  then have run: "render_notes_json_to_text E (Some j) empty_msg full title_of = print_loop 1024 (length ?t) ?t ?es"
    using assms by (simp add: render_notes_json_to_text_def)
  obtain out where out: "print_loop 1024 (length ?t) ?t ?es = Some out" "prefix out (?t @ concat ?es)"
      "length out \<le> 8191" "out = ?t @ concat ?es \<or> 7168 \<le> length out"
    using print_loop_front [of "length ?t" ?t 1024 ?es] assms(5) by auto
  have "\<exists>k \<le> length notes. out = ?t @ concat (map (note_entry E full) (take k notes))"
    if "\<forall>n \<in> set notes. length (note_entry E full n) \<le> 1024"
    using print_loop_whole [of "length ?t" ?t ?es 1024] that out(1) by (auto simp: take_map)
  with run out show ?thesis by (intro exI [of _ out] conjI) simp_all
qed

definition notes_reply :: cjson where
  "notes_reply = JObj [(''status'', JStr ''ok''), (''notes'', JArr [JObj [(''title'', JStr ''t'')]])]"

theorem notes_rendering_bounded_witness:
  "let E = ref_env\<lparr>cj := ref_cjson (\<lambda>_. Some notes_reply)\<rparr> in
   \<exists>out k. render_notes_json_to_text E (Some ''j'') ''none'' False (\<lambda>n. ''Notes'') = Some out
     \<and> k \<le> (1 :: nat)
     \<and> out = ''Notes'' @ concat (map (note_entry E False) (take k [JObj [(''title'', JStr ''t'')]]))"
proof -
  let ?E = "ref_env\<lparr>cj := ref_cjson (\<lambda>_. Some notes_reply)\<rparr>" and ?n = "JObj [(''title'', JStr ''t'')]"
  have "length (note_entry ?E False ?n) \<le> 1024"
    by (simp add: note_entry_def note_field_def ref_cjson_def Let_def)
  then have "\<forall>n \<in> set [?n]. length (note_entry ?E False n) \<le> 1024" by simp
  with notes_rendering_bounded [of ?E "''j''" notes_reply "[?n]" "\<lambda>n. ''Notes''" "''none''" False]
  show ?thesis by (auto simp: ref_cjson_def notes_reply_def Let_def)
qed

section \<open>Where the code falls short\<close>

text \<open>
  The command check is not held to the rule the shell is: with the sandbox off and a
  delegation active, \<open>tool_bash\<close> refuses, and this runs the command on the host. And the
  reference of \<open>git diff\<close> may be an option, such as one that names an output file.
\<close>

lemma verify_command_unsandboxed:
  assumes "guard_root E = None" "call_int E [] ''has_shell_metachar'' [JStr ''docker ps''] = 0"
    and "shlex_split E ''docker ps'' 64 = [''docker'', ''ps'']"
  shows "trace_of (tool_verify E ''command_succeeds'' ''docker ps'' None) [] = [HostExec [''docker'', ''ps'']]"
  using assms by (simp add: tool_verify_def verify_command_def trace_of_def Let_def split: prod.split)

lemma git_diff_option_passes:
  "git_diff_argv ''/ws'' (Some ''--output=/ws/f'') = [''git'', ''-C'', ''/ws'', ''diff'', ''--output=/ws/f'']"
  by (simp add: git_diff_argv_def)

end
