(* ===== verification/Anchored.thy ===== *)
theory Anchored
  imports Repo_Tools Bash_Tool
begin

text \<open>
  The tools of \<open>agent_tools_anchored.c\<close>: the outline, reading and rewriting one symbol, the
  anchored \<open>grep\<close>, and the test runner. Line splitting, digests, the outline extractor and
  the edit planner are services of the environment.
\<close>

section \<open>Reading\<close>

definition read_text_file :: "env \<Rightarrow> trace \<Rightarrow> string \<Rightarrow> string + string" where
  "read_text_file E h path =
     (case ws_read_all E h path of
        None \<Rightarrow> Inl ''error: cannot open file''
      | Some data \<Rightarrow> if CHR 0x00 \<in> set (take 4096 data) then Inl ''error: binary file omitted'' else Inr data)"

definition tool_read_outline :: "env \<Rightarrow> string option \<Rightarrow> string action" where
  "tool_read_outline E path =
     (if \<not> nonempty path then ret ''error: missing 'path' parameter''
      else
        let actual = path_in_thread_cwd E (the path) in
        case validate_path E actual of
          Inl verr \<Rightarrow> ret verr
        | Inr resolved \<Rightarrow> do {
            content \<leftarrow> ask (\<lambda>h. read_text_file E h actual);
            case content of
              Inl err \<Rightarrow> ret err
            | Inr data \<Rightarrow> do {
                snap \<leftarrow> perform (SnapshotCreate resolved) (\<lambda>h. snapshot_new E h resolved);
                ask (\<lambda>h. or_else (call_str E h ''code_outline_format'' [JStr data, JStr actual, opt_str snap])
                  ''error: out of memory'')
              }
          })"

definition span_header :: "env \<Rightarrow> string \<Rightarrow> string \<Rightarrow> int \<Rightarrow> int \<Rightarrow> string" where
  "span_header E symbol path start end_line =
     cbuf (max_path_len E + 128) (''# '' @ symbol @ ''  '' @ path @ '':'' @ show_int start @ ''-''
       @ show_int end_line @ [CHR 0x0A])"

definition format_symbol_span :: "env \<Rightarrow> string \<Rightarrow> string \<Rightarrow> string \<Rightarrow> string \<Rightarrow> int \<Rightarrow> int \<Rightarrow> string action" where
  "format_symbol_span E resolved actual data symbol start end_line =
     do {
       snap \<leftarrow> perform (SnapshotCreate resolved) (\<lambda>h. snapshot_new E h resolved);
       span \<leftarrow> ask (\<lambda>h. call_str E h ''anchor_format_read''
         [JStr data, jint (start - 1), jint (end_line - start + 1), opt_str snap]);
       ret (case span of
              None \<Rightarrow> ''error: out of memory''
            | Some s \<Rightarrow> span_header E symbol actual start end_line @ s)
     }"

text \<open>The last line of a definition, never before its first.\<close>

definition def_end :: "int \<Rightarrow> int \<Rightarrow> int" where
  "def_end line line_end = (if line_end > line then line_end else line)"

definition candidate_row :: "env \<Rightarrow> string \<Rightarrow> string \<times> string \<times> int \<times> int \<Rightarrow> string" where
  "candidate_row E data d =
     (case d of (name, kind, line, line_end) \<Rightarrow>
        let lines = anchor_lines E data;
            dg = (if line \<ge> 1 \<and> line \<le> int (length lines)
                  then anchor_digest E (lines ! (nat line - 1)) (line = 1) else 0) in
        cbuf 256 (show_int line @ '':'' @ anchor_tag E dg @ ''| '' @ kind @ '' '' @ name @ ''  (lines ''
          @ show_int line @ ''-'' @ show_int (def_end line line_end) @ '')'' @ [CHR 0x0A]))"

definition format_symbol_candidates :: "env \<Rightarrow> string \<Rightarrow> (string \<times> string \<times> int \<times> int) list \<Rightarrow> string" where
  "format_symbol_candidates E data defs =
     ''# ambiguous symbol: choose a candidate (pass a path, or read the span)'' @ [CHR 0x0A]
       @ concat (map (candidate_row E data) defs)"

definition hit_row :: "env \<Rightarrow> string \<times> string \<times> int \<times> int \<Rightarrow> string" where
  "hit_row E hit =
     (case hit of (file, kind, line, line_end) \<Rightarrow>
        cbuf (max_path_len E + 64) (''- '' @ file @ '':'' @ show_int line @ '' ['' @ kind @ '']'' @ [CHR 0x0A]))"

text \<open>
  Which file a symbol is in: the given one, or the only hit of the index, with that hit's
  lines. \<open>Inl\<close> is the answer when there is no single file.
\<close>

definition symbol_target :: "env \<Rightarrow> trace \<Rightarrow> string \<Rightarrow> string option \<Rightarrow> string \<Rightarrow> string
    \<Rightarrow> string + (string \<times> int \<times> int)" where
  "symbol_target E h symbol path missing ambiguous =
     (if nonempty path then Inr (the path, 0, 0)
      else (case index_find E h symbol of
              [] \<Rightarrow> Inl missing
            | [(file, kind, line, line_end)] \<Rightarrow> Inr (file, line, def_end line line_end)
            | hits \<Rightarrow> Inl (ambiguous @ [CHR 0x0A] @ concat (map (hit_row E) hits))))"

definition tool_read_symbol :: "env \<Rightarrow> string option \<Rightarrow> string option \<Rightarrow> string action" where
  "tool_read_symbol E symbol path =
     (if \<not> nonempty symbol then ret ''error: missing 'symbol' parameter''
      else do {
        found \<leftarrow> ask (\<lambda>h. symbol_target E h (the symbol) path
          ''error: symbol not found in the code index; pass 'path' to read from a specific file''
          ''# ambiguous symbol across files; pass 'path' to disambiguate'');
        case found of
          Inl msg \<Rightarrow> ret msg
        | Inr t \<Rightarrow> (case t of (target, idx_start, idx_end) \<Rightarrow>
            let actual = path_in_thread_cwd E target in
            (case validate_path E actual of
               Inl verr \<Rightarrow> ret verr
             | Inr resolved \<Rightarrow> do {
                 content \<leftarrow> ask (\<lambda>h. read_text_file E h actual);
                 case content of
                   Inl err \<Rightarrow> ret err
                 | Inr data \<Rightarrow>
                     (case symbol_defs E data actual (the symbol) of
                        [] \<Rightarrow> if idx_start > 0
                              then format_symbol_span E resolved actual data (the symbol) idx_start idx_end
                              else ret ''error: symbol not found in file''
                      | d # ds \<Rightarrow>
                          if ds = [] then
                            (case d of (name, kind, line, line_end) \<Rightarrow>
                               format_symbol_span E resolved actual data (the symbol) line (def_end line line_end))
                          else ret (format_symbol_candidates E data (d # ds)))
               }))
      })"

section \<open>Rewriting a symbol\<close>

definition anchor_token_for :: "env \<Rightarrow> string \<Rightarrow> int \<Rightarrow> string" where
  "anchor_token_for E data ord =
     (let lines = anchor_lines E data;
          tag = (if ord \<ge> 1 \<and> ord \<le> int (length lines)
                 then anchor_tag E (anchor_digest E (lines ! (nat ord - 1)) (ord = 1)) else ''00'') in
      cbuf 24 (show_int ord @ '':'' @ tag))"

text \<open>The written result gets the identity of the definition that was replaced.\<close>

definition echo_symbol :: "env \<Rightarrow> string \<Rightarrow> string \<Rightarrow> string \<Rightarrow> int \<Rightarrow> int \<Rightarrow> string \<Rightarrow> string" where
  "echo_symbol E symbol kind actual start end_line result =
     (case cj_parse (cj E) result of
        None \<Rightarrow> result
      | Some wj \<Rightarrow>
          let add = (\<lambda>j k v. cj_add (cj E) j k (JStr v)) in
          print_or E (add (add (add wj ''symbol'' symbol) ''resolved_kind'' kind) ''resolved_at''
            (cbuf (max_path_len E + 32) (actual @ '':'' @ show_int start @ ''-'' @ show_int end_line)))
            ''error: out of memory'')"

definition replace_range_edit :: "string \<Rightarrow> string \<Rightarrow> string \<Rightarrow> cjson" where
  "replace_range_edit from_a to_a new_text =
     JArr [JObj [(''op'', JStr ''replace_range''), (''from'', JStr from_a), (''to'', JStr to_a),
                 (''text'', JStr new_text)]]"

definition replace_symbol :: "env \<Rightarrow> string \<Rightarrow> string \<Rightarrow> string \<Rightarrow> string \<Rightarrow> string \<Rightarrow> string
    \<Rightarrow> string \<times> string \<times> int \<times> int \<Rightarrow> string action" where
  "replace_symbol E target actual resolved data symbol body d =
     (case d of (name, kind, start, line_end) \<Rightarrow>
        let end_line = def_end start line_end in
        do {
          snap \<leftarrow> perform (SnapshotCreate resolved) (\<lambda>h. snapshot_new E h resolved);
          case snap of
            None \<Rightarrow> ret ''error: out of memory''
          | Some snap_id \<Rightarrow> do {
              known \<leftarrow> ask (\<lambda>h. call_int E h ''anchor_snapshot_get_copy'' [JStr snap_id]);
              if known = 0 then ret ''error: snapshot unavailable''
              else do {
                plan \<leftarrow> ask (\<lambda>h. edit_anchored_plan E h data snap_id
                  (Some (replace_range_edit (anchor_token_for E data start) (anchor_token_for E data end_line) body)));
                case plan of
                  Inl reject \<Rightarrow> ret (print_or E reject ''error: symbol edit could not be planned'')
                | Inr new_text \<Rightarrow> do {
                    result \<leftarrow> tool_write_file E target new_text;
                    ret (echo_symbol E symbol kind actual start end_line result)
                  }
              }
            }
        })"

definition tool_edit_symbol :: "env \<Rightarrow> string option \<Rightarrow> string option \<Rightarrow> string option \<Rightarrow> string option
    \<Rightarrow> string action" where
  "tool_edit_symbol E symbol path op body =
     (if \<not> nonempty symbol then ret ''error: missing 'symbol' parameter''
      else if nonempty op \<and> op \<noteq> Some ''replace_body''
      then ret ''error: unsupported op (only 'replace_body' is supported)''
      else case body of
        None \<Rightarrow> ret ''error: missing 'text' (the new symbol body)''
      | Some tx \<Rightarrow> do {
          found \<leftarrow> ask (\<lambda>h. symbol_target E h (the symbol) path
            ''error: symbol not found in the code index; pass 'path' or a fully-qualified name''
            ''# ambiguous symbol across files; pass 'path' to disambiguate (never a blind resolve)'');
          case found of
            Inl msg \<Rightarrow> ret msg
          | Inr t \<Rightarrow>
              let target = fst t; actual = path_in_thread_cwd E target in
              (case validate_path E actual of
                 Inl verr \<Rightarrow> ret verr
               | Inr resolved \<Rightarrow> do {
                   content \<leftarrow> ask (\<lambda>h. read_text_file E h actual);
                   case content of
                     Inl err \<Rightarrow> ret err
                   | Inr data \<Rightarrow>
                       (case symbol_defs E data actual (the symbol) of
                          [] \<Rightarrow> ret ''error: symbol not found in file''
                        | d # ds \<Rightarrow>
                            if ds \<noteq> [] then ret (format_symbol_candidates E data (d # ds))
                            else replace_symbol E target actual resolved data (the symbol) tx d)
                 })
        })"

section \<open>Anchored grep\<close>

text \<open>\<open>strtok_r\<close> on newlines: the non-empty lines.\<close>

fun strtok_lines :: "string \<Rightarrow> string \<Rightarrow> string list" where
  "strtok_lines cur [] = (if cur = [] then [] else [cur])"
| "strtok_lines cur (c # s) =
     (if c = CHR 0x0A then (if cur = [] then strtok_lines [] s else cur # strtok_lines [] s)
      else strtok_lines (cur @ [c]) s)"

text \<open>\<open>path:lineno:text\<close>.\<close>

definition grep_hit :: "string \<Rightarrow> (string \<times> int \<times> string) option" where
  "grep_hit line =
     (case strchr line CHR '':'' of
        None \<Rightarrow> None
      | Some c1 \<Rightarrow>
          (case strchr (tl c1) CHR '':'' of
             None \<Rightarrow> None
           | Some c2 \<Rightarrow> Some (take (length line - length c1) line,
               atoi (take (length (tl c1) - length c2) (tl c1)), tl c2)))"

text \<open>A new file: its lines, when it could be read, and the header.\<close>

definition grep_open :: "env \<Rightarrow> string \<Rightarrow> (string list option \<times> string) action" where
  "grep_open E fpath =
     (let actual = path_in_thread_cwd E fpath; nl = [CHR 0x0A];
          plain = cbuf (max_path_len E + 64) (fpath @ nl) in
      case validate_path E actual of
        Inl _ \<Rightarrow> ret (None, plain)
      | Inr resolved \<Rightarrow> do {
          content \<leftarrow> ask (\<lambda>h. read_text_file E h actual);
          case content of
            Inl _ \<Rightarrow> ret (None, plain)
          | Inr data \<Rightarrow> do {
              snap \<leftarrow> perform (SnapshotCreate resolved) (\<lambda>h. snapshot_new E h resolved);
              ret (Some (anchor_lines E data),
                   if nonempty snap then cbuf (max_path_len E + 64) (fpath @ ''  snapshot='' @ the snap @ nl) else plain)
            }
        })"

definition grep_row :: "env \<Rightarrow> string list option \<Rightarrow> int \<Rightarrow> string \<Rightarrow> string" where
  "grep_row E lines lineno tx =
     (let tag = (case lines of
          Some ls \<Rightarrow> if lineno \<ge> 1 \<and> lineno \<le> int (length ls)
                     then anchor_tag E (anchor_digest E (ls ! (nat lineno - 1)) (lineno = 1)) else ''00''
        | None \<Rightarrow> ''00'') in
      cbuf 256 (''  '' @ show_int lineno @ '':'' @ tag @ ''| '') @ tx @ [CHR 0x0A])"

fun grep_rows :: "env \<Rightarrow> string list \<Rightarrow> string \<Rightarrow> string list option \<Rightarrow> string \<Rightarrow> string action" where
  "grep_rows E [] last_file lines out = ret out"
| "grep_rows E (line # rest) last_file lines out =
     (case grep_hit line of
        None \<Rightarrow> grep_rows E rest last_file lines out
      | Some (fpath, lineno, tx) \<Rightarrow>
          if fpath \<noteq> last_file then do {
            (lines', hdr) \<leftarrow> grep_open E fpath;
            grep_rows E rest (cbuf (max_path_len E) fpath) lines' (out @ hdr @ grep_row E lines' lineno tx)
          }
          else grep_rows E rest last_file lines (out @ grep_row E lines lineno tx))"

text \<open>An empty result is whatever the string builder hands back for nothing appended.\<close>

definition tool_grep_anchored :: "env \<Rightarrow> string option \<Rightarrow> string option \<Rightarrow> int \<Rightarrow> string action" where
  "tool_grep_anchored E path pattern max_results =
     do {
       raw \<leftarrow> tool_grep E path pattern max_results;
       if starts_with raw ''error:'' \<or> starts_with raw ''no matches'' then ret raw
       else do {
         out \<leftarrow> grep_rows E (strtok_lines [] raw) [] None [];
         (if out = [] then ask (\<lambda>h. or_else (call_str E h ''dstr_steal'' []) ''no matches found'')
          else ret out)
       }
     }"

section \<open>The test runner\<close>

definition run_tests_report :: "env \<Rightarrow> cjson \<Rightarrow> cjson" where
  "run_tests_report E bj =
     (let so = j_str (arg E bj ''stdout''); se = j_str (arg E bj ''stderr'');
          exit_code = or_else (j_int (arg E bj ''exit_code'')) (-1);
          raw = or_else so [] @ (if nonempty se then [CHR 0x0A] @ the se else []) in
      JObj [(''status'', JStr (if exit_code = 0 then ''passed'' else ''failed'')),
            (''passed'', JBool (exit_code = 0)), (''exit_code'', jint exit_code), (''output'', JStr raw)])"

definition tool_run_tests :: "env \<Rightarrow> string option \<Rightarrow> int \<Rightarrow> string action" where
  "tool_run_tests E command timeout_ms =
     (if \<not> nonempty command then ret ''error: missing 'command' parameter''
      else do {
        bash_out \<leftarrow> tool_bash E (the command) timeout_ms;
        ret (case bash_out of
               None \<Rightarrow> ''error: test command failed to run''
             | Some b \<Rightarrow>
                 (case cj_parse (cj E) b of
                    None \<Rightarrow> b
                  | Some bj \<Rightarrow> print_or E (run_tests_report E bj) ''error: out of memory''))
      })"

section \<open>What these tools do to the world\<close>

lemma outline_emits: "emits (reads_only E) (tool_read_outline E path)"
  unfolding tool_read_outline_def Let_def by (intro emits_intros) auto

lemma span_emits [emits_intros]:
  "validate_path E p = Inr resolved \<Longrightarrow>
     emits (reads_only E) (format_symbol_span E resolved actual data symbol s e)"
  unfolding format_symbol_span_def by (intro emits_intros) auto

lemma emits_case_list [emits_intros]:
  "(x = [] \<Longrightarrow> emits P a) \<Longrightarrow> (\<And>d ds. x = d # ds \<Longrightarrow> emits P (b d ds)) \<Longrightarrow>
     emits P (case x of [] \<Rightarrow> a | d # ds \<Rightarrow> b d ds)"
  by (simp split: list.split)

lemma read_symbol_emits: "emits (reads_only E) (tool_read_symbol E symbol path)"
  unfolding tool_read_symbol_def Let_def by (intro emits_intros) auto

lemma replace_symbol_trace:
  "trace_of (replace_symbol E target actual resolved data symbol tx d) h = h @ [SnapshotCreate resolved]
   \<or> (\<exists>new_text. trace_of (replace_symbol E target actual resolved data symbol tx d) h =
        h @ [SnapshotCreate resolved, WriteAll (path_in_thread_cwd E target) new_text])"
proof -
  obtain name kind start line_end where d: "d = (name, kind, start, line_end)" by (metis surj_pair)
  let ?h = "h @ [SnapshotCreate resolved]"
  have w: "snd (run_state (tool_write_file E target c) ?h) = ?h
      \<or> snd (run_state (tool_write_file E target c) ?h) = ?h @ [WriteAll (path_in_thread_cwd E target) c]" for c
    using write_file_trace [of E target c ?h] by (simp add: trace_of_def)
  show ?thesis
  proof (cases "snapshot_new E h resolved")
    case None
    then show ?thesis by (simp add: replace_symbol_def d trace_of_def Let_def)
  next
    case snap: (Some snap_id)
    let ?plan = "edit_anchored_plan E ?h data snap_id
      (Some (replace_range_edit (anchor_token_for E data start) (anchor_token_for E data (def_end start line_end)) tx))"
    show ?thesis
    proof (cases "call_int E ?h ''anchor_snapshot_get_copy'' [JStr snap_id] = 0")
      case True
      then show ?thesis using snap by (simp add: replace_symbol_def d trace_of_def Let_def)
    next
      case known: False
      show ?thesis
      proof (cases ?plan)
        case (Inl reject)
        then show ?thesis using snap known by (simp add: replace_symbol_def d trace_of_def Let_def)
      next
        case (Inr new_text)
        then have "trace_of (replace_symbol E target actual resolved data symbol tx d) h =
            snd (run_state (tool_write_file E target new_text) ?h)"
          using snap known by (simp add: replace_symbol_def d trace_of_def Let_def split_beta)
        then show ?thesis using w [of new_text] by auto
      qed
    qed
  qed
qed

lemma edit_symbol_trace:
  "trace_of (tool_edit_symbol E symbol path op body) h = h
   \<or> (\<exists>s tx target i j data d resolved.
        symbol = Some s \<and> body = Some tx
        \<and> (\<exists>m a. symbol_target E h s path m a = Inr (target, i, j))
        \<and> validate_path E (path_in_thread_cwd E target) = Inr resolved
        \<and> read_text_file E h (path_in_thread_cwd E target) = Inr data
        \<and> symbol_defs E data (path_in_thread_cwd E target) s = [d]
        \<and> trace_of (tool_edit_symbol E symbol path op body) h =
            trace_of (replace_symbol E target (path_in_thread_cwd E target) resolved data s tx d) h)"
proof (cases "nonempty symbol \<and> \<not> (nonempty op \<and> op \<noteq> Some ''replace_body'') \<and> body \<noteq> None")
  case False
  then show ?thesis by (auto simp: tool_edit_symbol_def trace_of_def split: option.split)
next
  case True
  then obtain s tx where st: "symbol = Some s" "s \<noteq> []" "body = Some tx"
    by (cases symbol; cases body) auto
  let ?found = "symbol_target E h s path
    ''error: symbol not found in the code index; pass 'path' or a fully-qualified name''
    ''# ambiguous symbol across files; pass 'path' to disambiguate (never a blind resolve)''"
  show ?thesis
  proof (cases ?found)
    case (Inl msg)
    then show ?thesis using True st by (simp add: tool_edit_symbol_def trace_of_def)
  next
    case (Inr t)
    then obtain target i j where f: "?found = Inr (target, i, j)" by (metis surj_pair)
    let ?q = "path_in_thread_cwd E target"
    show ?thesis
    proof (cases "validate_path E ?q")
      case (Inl verr)
      then show ?thesis using True st f by (simp add: tool_edit_symbol_def trace_of_def Let_def)
    next
      case v: (Inr resolved)
      show ?thesis
      proof (cases "read_text_file E h ?q")
        case (Inl err)
        then show ?thesis using True st f v by (simp add: tool_edit_symbol_def trace_of_def Let_def)
      next
        case r: (Inr data)
        have go: "(nonempty op \<and> op \<noteq> Some ''replace_body'') = False" using True by blast
        show ?thesis
        proof (cases "symbol_defs E data ?q s")
          case Nil
          then show ?thesis using st f v r
            by (simp add: tool_edit_symbol_def trace_of_def Let_def go)
        next
          case (Cons d ds)
          show ?thesis
          proof (cases "ds = []")
            case True
            then have "trace_of (tool_edit_symbol E symbol path op body) h =
                trace_of (replace_symbol E target ?q resolved data s tx d) h"
              using st f v r Cons by (simp add: tool_edit_symbol_def trace_of_def Let_def go)
            then show ?thesis using st f v r Cons True by blast
          next
            case False
            then show ?thesis using st f v r Cons
              by (simp add: tool_edit_symbol_def trace_of_def Let_def go)
          qed
        qed
      qed
    qed
  qed
qed

lemma edit_symbol_emits: "emits (writes_gated E) (tool_edit_symbol E symbol path op body)"
  unfolding tool_edit_symbol_def replace_symbol_def Let_def by (intro emits_intros) auto

fun search_event :: "env \<Rightarrow> event \<Rightarrow> bool" where
  "search_event E (HostExec argv) = (\<exists>k pt q. argv = grep_argv k pt q)"
| "search_event E e = reads_only E e"

lemma grep_open_emits [emits_intros]: "emits (search_event E) (grep_open E fpath)"
  unfolding grep_open_def Let_def by (intro emits_intros) auto

lemma grep_rows_emits [emits_intros]: "emits (search_event E) (grep_rows E ls last_file lines out)"
proof (induction E ls last_file lines out rule: grep_rows.induct)
  case (2 E line rest last_file lines out)
  show ?case
  proof (cases "grep_hit line")
    case None
    then show ?thesis using "2.IH"(1) by simp
  next
    case (Some hit)
    then obtain fpath lineno tx where h: "grep_hit line = Some (fpath, lineno, tx)"
      by (metis surj_pair)
    show ?thesis
      unfolding grep_rows.simps h option.case prod.case
      by (intro emits_intros) (use "2.IH"(2,3) [OF h refl refl] in auto)
  qed
qed (simp add: emits_ret)

lemma grep_emits [emits_intros]: "emits (search_event E) (tool_grep E path pattern n)"
  unfolding tool_grep_def Let_def by (intro emits_intros) auto

lemma grep_anchored_emits: "emits (search_event E) (tool_grep_anchored E path pattern n)"
  unfolding tool_grep_anchored_def by (intro emits_intros)

section \<open>Properties\<close>

text \<open>C14. A symbol is never rewritten blindly: when the symbol edit writes, the file was given or
  is the only hit of the index, the symbol has exactly one definition in that file, the place
  passed the path check, and the one write comes right after a snapshot of the place.\<close>

theorem edit_symbol_unique:
  assumes "WriteAll q new_text \<in> set (drop (length h) (trace_of (tool_edit_symbol E (Some s) path op body) h))"
  shows "\<exists>target data d r. q = path_in_thread_cwd E target
    \<and> (if nonempty path then path = Some target
       else \<exists>k l e. index_find E h s = [(target, k, l, e)])
    \<and> validate_path E q = Inr r \<and> read_text_file E h q = Inr data \<and> symbol_defs E data q s = [d]
    \<and> trace_of (tool_edit_symbol E (Some s) path op body) h = h @ [SnapshotCreate r, WriteAll q new_text]"
proof -
  obtain tx target i j data d r m a where w:
      "symbol_target E h s path m a = Inr (target, i, j)"
      "validate_path E (path_in_thread_cwd E target) = Inr r"
      "read_text_file E h (path_in_thread_cwd E target) = Inr data"
      "symbol_defs E data (path_in_thread_cwd E target) s = [d]"
      "trace_of (tool_edit_symbol E (Some s) path op body) h =
         trace_of (replace_symbol E target (path_in_thread_cwd E target) r data s tx d) h"
    using edit_symbol_trace [of E "Some s" path op body h] assms by auto
  have tr: "q = path_in_thread_cwd E target
      \<and> trace_of (tool_edit_symbol E (Some s) path op body) h = h @ [SnapshotCreate r, WriteAll q new_text]"
    using replace_symbol_trace [of E target "path_in_thread_cwd E target" r data s tx d h] assms w(5) by auto
  have "if nonempty path then path = Some target else \<exists>k l e. index_find E h s = [(target, k, l, e)]"
    using w(1) by (cases path)
      (auto simp: symbol_target_def split: list.splits if_splits)
  with tr w(2-4) show ?thesis by metis
qed

definition symbol_env :: env where
  "symbol_env = ref_env\<lparr>ws_read_all := (\<lambda>h p. Some ''int f;''),
     index_find := (\<lambda>h s. if s = ''f'' then [(''a.c'', ''var'', 1, 1)] else []),
     symbol_defs := (\<lambda>d p s. if s = ''f'' then [(''f'', ''var'', 1, 1)] else []),
     snapshot_new := (\<lambda>h p. Some ''s1''),
     call_int := (\<lambda>h n a. if n = ''anchor_snapshot_get_copy'' then 1 else 0),
     call_str := (\<lambda>h n a. if n = ''edit_anchored_plan.new_text'' then Some ''int g;'' else None)\<rparr>"

theorem edit_symbol_unique_witness:
  "trace_of (tool_edit_symbol symbol_env (Some ''f'') None None (Some ''int g;'')) []
     = [SnapshotCreate ''/ws/a.c'', WriteAll ''/ws/a.c'' ''int g;'']
   \<and> (\<exists>target k l e. index_find symbol_env [] ''f'' = [(target, k, l, e)])"
proof -
  have target: "symbol_target symbol_env [] ''f'' None m a = Inr (''a.c'', 1, 1)" for m a
    by (simp add: symbol_target_def symbol_env_def ref_env_def def_end_def)
  have path: "path_in_thread_cwd symbol_env ''a.c'' = ''/ws/a.c''"
    by (simp add: path_in_thread_cwd_def windows_absolute_def symbol_env_def ref_env_def cbuf_def)
  have read: "read_text_file symbol_env [] ''/ws/a.c'' = Inr ''int f;''"
    by (simp add: read_text_file_def symbol_env_def)
  have defs: "symbol_defs symbol_env ''int f;'' ''/ws/a.c'' ''f'' = [(''f'', ''var'', 1, 1)]"
    "validate_path symbol_env ''/ws/a.c'' = Inr ''/ws/a.c''"
    by (simp_all add: symbol_env_def ref_env_def)
  have plan: "edit_anchored_plan symbol_env h c sn e = Inr ''int g;''" for h c sn e
    by (simp add: edit_anchored_plan_def symbol_env_def ref_env_def Let_def)
  have svc: "snapshot_new symbol_env h p = Some ''s1''"
      "call_int symbol_env h ''anchor_snapshot_get_copy'' a = 1" for h p a
    by (simp_all add: symbol_env_def)
  have wf: "trace_of (tool_write_file symbol_env ''a.c'' ''int g;'') h = h @ [WriteAll ''/ws/a.c'' ''int g;'']" for h
    unfolding tool_write_file_def path
    by (simp add: symbol_env_def ref_env_def trace_of_def Let_def)
  have repl: "trace_of (replace_symbol symbol_env ''a.c'' ''/ws/a.c'' ''/ws/a.c'' ''int f;'' ''f'' ''int g;''
      (''f'', ''var'', 1, 1)) [] = [SnapshotCreate ''/ws/a.c'', WriteAll ''/ws/a.c'' ''int g;'']"
    using wf by (simp add: replace_symbol_def plan svc trace_of_def Let_def def_end_def split_beta)
  have run: "trace_of (tool_edit_symbol symbol_env (Some ''f'') None None (Some ''int g;'')) []
      = [SnapshotCreate ''/ws/a.c'', WriteAll ''/ws/a.c'' ''int g;'']"
    using repl by (simp add: tool_edit_symbol_def target path read defs trace_of_def Let_def)
  then have "WriteAll ''/ws/a.c'' ''int g;'' \<in> set (drop (length []) (trace_of (tool_edit_symbol symbol_env (Some ''f'') None None (Some ''int g;'')) []))"
    by simp
  from edit_symbol_unique [OF this] run show ?thesis by (auto split: if_splits)
qed

text \<open>The reading tools leave the workspace alone: the outline, the symbol reader and the
  anchored search write nothing, and run no command except the one fixed \<open>grep\<close>; every
  snapshot they mint is of a path that passed the check.\<close>

lemma reading_tools_only_read:
  assumes "m \<in> {tool_read_outline E path, tool_read_symbol E symbol path, tool_grep_anchored E path pattern n}"
    and "e \<in> set (drop (length h) (trace_of m h))"
  shows "(\<exists>p r. e = SnapshotCreate r \<and> validate_path E p = Inr r)
    \<or> (\<exists>k pt q. e = HostExec (grep_argv k pt q) \<and> m = tool_grep_anchored E path pattern n)"
proof -
  consider "m = tool_read_outline E path" | "m = tool_read_symbol E symbol path"
    | "m = tool_grep_anchored E path pattern n"
    using assms(1) by blast
  then show ?thesis
  proof cases
    case 1
    with emits_events [OF outline_emits] assms(2) have "reads_only E e" by blast
    then show ?thesis by (cases e) auto
  next
    case 2
    with emits_events [OF read_symbol_emits] assms(2) have "reads_only E e" by blast
    then show ?thesis by (cases e) auto
  next
    case 3
    with emits_events [OF grep_anchored_emits] assms(2) have "search_event E e" by blast
    with 3 show ?thesis by (cases e) auto
  qed
qed

lemma reading_tools_only_read_example:
  "trace_of (tool_read_outline symbol_env (Some ''a.c'')) [] = [SnapshotCreate ''/ws/a.c'']
   \<and> (\<exists>p. validate_path symbol_env p = Inr ''/ws/a.c'')"
proof -
  have run: "trace_of (tool_read_outline symbol_env (Some ''a.c'')) [] = [SnapshotCreate ''/ws/a.c'']"
    by (simp add: tool_read_outline_def path_in_thread_cwd_def windows_absolute_def symbol_env_def
        ref_env_def cbuf_def read_text_file_def trace_of_def Let_def)
  have "SnapshotCreate ''/ws/a.c'' \<in> set (drop (length []) (trace_of (tool_read_outline symbol_env (Some ''a.c'')) []))"
    by (simp add: run)
  from reading_tools_only_read [OF _ this, of symbol_env "Some ''a.c''" None None 0] run
  show ?thesis by auto
qed

lemma find_ci_distinct:
  "distinct (map (map to_lower \<circ> fst) kvs) \<Longrightarrow> (k, v) \<in> set kvs \<Longrightarrow> find_ci k kvs = Some v"
  by (induction k kvs rule: find_ci.induct) (auto simp: image_iff)

text \<open>What the capture reports: the exit status of a child that ended by itself, else -1.\<close>

lemma c_view_no_NUL: "CHR 0x00 \<notin> set (c_view s)"
  by (auto simp: c_view_def dest: set_takeWhileD)

lemma bash_capture_result:
  assumes "malloc_ok E (output_raw_max E + 1)" "fds_fit E"
  shows "\<exists>out err code. result_of (bash_capture E t) h = cj_print (cj E) (bash_result out err code)
    \<and> CHR 0x00 \<notin> set out \<and> CHR 0x00 \<notin> set err
    \<and> (trace_of (bash_capture E t) h = h @ [waited] \<and> code = (case child_wait E h of Exited n \<Rightarrow> n | _ \<Rightarrow> -1)
       \<or> trace_of (bash_capture E t) h = h @ [killed, waited] \<and> code = -1)"
proof -
  let ?rawcap = "output_raw_max E"
  obtain how out err where cap:
    "capture_loop E ?rawcap (child_ticks E h t) (stream_init ?rawcap) (stream_init ?rawcap) = (how, out, err)"
    by (metis surj_pair)
  let ?err = "if how = CapCancelled then ''delegate cancelled during bash execution'' else c_view (s_buf err)"
  show ?thesis
  proof (cases "how = CapClosed")
    case True
    then show ?thesis using assms cap c_view_no_NUL
      by (intro exI [of _ "c_view (s_buf out)"] exI [of _ ?err]
          exI [of _ "case child_wait E h of Exited n \<Rightarrow> n | _ \<Rightarrow> -1"])
         (simp add: bash_capture_def result_of_def trace_of_def Let_def)
  next
    case False
    then show ?thesis using assms cap c_view_no_NUL
      by (intro exI [of _ "c_view (s_buf out)"] exI [of _ ?err] exI [of _ "-1"])
         (simp add: bash_capture_def result_of_def trace_of_def kill_and_wait_def Let_def)
  qed
qed

lemma tool_bash_capture:
  assumes "Spawn route c \<in> set (drop (length h) (trace_of (tool_bash E command t) h))"
  shows "run_state (tool_bash E command t) h = run_state (bash_capture E t) (h @ [Spawn route command])"
proof -
  from tool_bash_spawn [OF assms] have local: "tool_bash E command t = bash_local E command t"
    by (auto simp: tool_bash_def)
  with assms have spawn: "Spawn route c \<in> set (drop (length h) (trace_of (bash_local E command t) h))" by simp
  then have ok: "pipes_ok E h" "\<not> (sandbox_effective E = SANDBOX_MODE_OFF \<and> delegation_id E \<noteq> None)"
    by (auto simp: bash_local_def trace_of_def split: if_splits)
  consider (started) route' where "run_state (bash_start E command) h = (None, h @ [Spawn route' command])"
    | (failed) msg where "run_state (bash_start E command) h = (Some msg, h)"
    using bash_start_run [OF ok(2), of command h] by metis
  then show ?thesis
  proof cases
    case started
    then have run: "run_state (bash_local E command t) h = run_state (bash_capture E t) (h @ [Spawn route' command])"
      using ok by (auto simp: bash_local_def run_if)
    then have "trace_of (bash_local E command t) h = trace_of (bash_capture E t) (h @ [Spawn route' command])"
      by (simp add: trace_of_def)
    then have "route = route'"
      using spawn bash_capture_trace [of E t "h @ [Spawn route' command]"] by auto
    with run local show ?thesis by simp
  next
    case failed
    with ok spawn show ?thesis by (auto simp: bash_local_def trace_of_def run_if)
  qed
qed


text \<open>
  An environment whose child prints nothing and exits with 0, with a way of printing and
  reading results that keeps NUL between their parts.
\<close>

fun plain_print :: "cjson \<Rightarrow> string option" where
  "plain_print (JObj [(k1, JStr out), (k2, JStr err), (k3, JNum i d)]) =
     Some (out @ CHR 0x00 # err @ CHR 0x00 # replicate (nat (i + 1)) CHR ''.'')"
| "plain_print _ = Some ''{...}''"

definition plain_parse :: "string \<Rightarrow> cjson option" where
  "plain_parse s =
     (let out = c_view s; r = drop (length out + 1) s; err = c_view r in
      Some (bash_result out err (int (length (drop (length err + 1) r)) - 1)))"

definition tests_env :: env where
  "tests_env = ref_env\<lparr>cj := (ref_cjson plain_parse)\<lparr>cj_print := plain_print\<rparr>,
     child_ticks := (\<lambda>_ _. [\<lparr>t_cancel = False, t_sel = SelReady True True, t_out = [], t_err = []\<rparr>])\<rparr>"

lemma plain_round:
  assumes "CHR 0x00 \<notin> set out" "CHR 0x00 \<notin> set err" "-1 \<le> code"
  shows "\<exists>s. plain_print (bash_result out err code) = Some s \<and> plain_parse s = Some (bash_result out err code)"
proof -
  have v: "c_view (x @ CHR 0x00 # y) = x" if "CHR 0x00 \<notin> set x" for x y
    using that unfolding c_view_def by (subst takeWhile_append2) auto
  show ?thesis using assms v
    by (simp add: bash_result_def jint_def plain_parse_def Let_def)
qed


end
