(* ===== verification/Dispatch_Args.thy ===== *)
theory Dispatch_Args
  imports Repo_Tools Tool_Outcome
begin

text \<open>
  What \<open>dispatch_tool_call_ctx_inner\<close> does before it routes a call
  (\<open>agent_tools_dispatch.c\<close>, lines 166 to 304 and 2028 to 2275): cancellation, the
  normalisation of the arguments, the access checks in their order, and the guardrail with
  its rewrites. The permissions, the role table, the git gate and the guardrail itself
  belong to the environment.
\<close>

section \<open>Cancellation\<close>

definition agent_delegation_stop_requested :: "env \<Rightarrow> trace \<Rightarrow> string option" where
  "agent_delegation_stop_requested E h =
     (if \<not> nonempty (delegation_id E) then None
      else (case call_str E h ''db1_delegation_spawn_stop_reason'' [opt_str (delegation_id E)] of
              None \<Rightarrow> None
            | Some reason \<Rightarrow> Some (cbuf 128 (''error: delegate '' @ reason @ '' ('' @ the (delegation_id E)
                @ '') before tool execution''))))"

definition tool_dispatch_cancelled :: "env \<Rightarrow> trace \<Rightarrow> string option" where
  "tool_dispatch_cancelled E h =
     (let job_id = call_int E h ''agent_get_durable_job_id'' [] in
      if job_id > 0 \<and> call_int E h ''db1_agent_job_is_cancelled'' [jint job_id] \<noteq> 0
      then Some (cbuf 128 (''error: delegate cancelled (job #'' @ show_int job_id @ '') before tool execution''))
      else agent_delegation_stop_requested E h)"

section \<open>Argument normalisation\<close>

definition aliases :: "(string \<times> string) list" where
  "aliases = [(''filepath'', ''path''), (''file_path'', ''path''), (''file'', ''path''),
     (''filename'', ''path''), (''file_name'', ''path''), (''cmd'', ''command''),
     (''dir'', ''path''), (''directory'', ''path''), (''msg'', ''message'')]"

definition resolve_alias :: "env \<Rightarrow> string \<times> string \<Rightarrow> cjson \<Rightarrow> cjson" where
  "resolve_alias E a args =
     (case a of (src, dst) \<Rightarrow>
        if arg E args src \<noteq> None \<and> arg E args dst = None
        then (case cj_detach (cj E) args src of
                (args', Some det) \<Rightarrow> cj_add (cj E) args' dst det
              | (args', None) \<Rightarrow> args')
        else args)"

definition resolve_aliases :: "env \<Rightarrow> cjson \<Rightarrow> cjson" where
  "resolve_aliases E args = fold (resolve_alias E) aliases args"

definition int_fields :: "string list" where
  "int_fields = [''offset'', ''limit'', ''count'', ''max_results'']"

text \<open>
  \<open>strtol\<close> over a whole string: optional blanks and sign, then digits to the end; the value
  saturates at 64 bits. \<open>cJSON_CreateNumber\<close> saturates \<open>valueint\<close> at 32.
\<close>

fun all_digits :: "int \<Rightarrow> string \<Rightarrow> int option" where
  "all_digits acc [] = Some acc"
| "all_digits acc (c # s) =
     (if isdigit c then all_digits (acc * 10 + (int (of_char c :: nat) - 48)) s else None)"

definition strtol_whole :: "string \<Rightarrow> int option" where
  "strtol_whole s =
     (case dropWhile isspace s of
        [] \<Rightarrow> None
      | c # r \<Rightarrow>
          map_option (saturate 64)
            (if c = CHR ''-'' then (if r = [] then None else map_option uminus (all_digits 0 r))
             else if c = CHR ''+'' then (if r = [] then None else all_digits 0 r)
             else all_digits 0 (c # r)))"

definition json_number :: "int \<Rightarrow> cjson" where
  "json_number v = JNum (saturate 32 v) (of_int v)"

definition coerce_int_field :: "env \<Rightarrow> string \<Rightarrow> cjson \<Rightarrow> cjson" where
  "coerce_int_field E field args =
     (case j_str (arg E args field) of
        None \<Rightarrow> args
      | Some s \<Rightarrow>
          (case strtol_whole s of
             None \<Rightarrow> args
           | Some v \<Rightarrow> cj_replace (cj E) args field (json_number v)))"

text \<open>The schema-driven coercion answers with new arguments, or leaves them.\<close>

definition normalize_args :: "env \<Rightarrow> trace \<Rightarrow> string \<Rightarrow> cjson \<Rightarrow> cjson" where
  "normalize_args E h name args =
     (let a = fold (coerce_int_field E) int_fields (resolve_aliases E args) in
      or_else (call_json E h ''tool_args_coerce'' [JStr name, a]) a)"

section \<open>Access checks\<close>

definition command_word_matches :: "string \<Rightarrow> string \<Rightarrow> bool" where
  "command_word_matches s word =
     (starts_with s word \<and> (case drop (length word) s of [] \<Rightarrow> True | c # _ \<Rightarrow> isspace c))"

text \<open>What may not follow \<open>aimee\<close> and a blank.\<close>

definition stale_sub :: "string \<Rightarrow> bool" where
  "stale_sub sub =
     (if starts_with sub ''index '' then
        \<not> list_ex (command_word_matches (drop 6 sub))
            [''overview'', ''find'', ''list'', ''structure'', ''callers'', ''blast-radius'']
      else if starts_with sub ''memory '' then
        \<not> list_ex (command_word_matches (drop 7 sub)) [''search'', ''list'', ''get'', ''read'']
      else command_word_matches sub ''search'' \<or> command_word_matches sub ''docs''
        \<or> command_word_matches sub ''mcp''
        \<or> starts_with sub ''kb '' \<and> command_word_matches (drop 3 sub) ''search'')"

function stale_scan :: "string \<Rightarrow> bool" where
  "stale_scan p =
     (case strstr p ''aimee '' of
        None \<Rightarrow> False
      | Some m \<Rightarrow> if stale_sub (drop 6 m) then True else stale_scan (drop 6 m))"
  by pat_completeness auto
termination
proof (relation "measure length")
  fix p m :: string
  assume s: "strstr p ''aimee '' = Some m"
  then have "length m \<le> length p" "prefix ''aimee '' m"
    by (auto dest: strstr_length strstr_Some)
  then show "(drop 6 m, p) \<in> measure length"
    by (auto dest: prefix_length_le)
qed simp

declare stale_scan.simps [simp del]

definition command_uses_aimee_stale_context :: "string option \<Rightarrow> bool" where
  "command_uses_aimee_stale_context command =
     (case command of None \<Rightarrow> False | Some c \<Rightarrow> if c = [] then False else stale_scan c)"

definition current_code_role_policy_error :: "string option \<Rightarrow> string \<Rightarrow> string" where
  "current_code_role_policy_error role detail =
     cbuf 256 (''error: '' @ or_else role ''this'' @ '' delegates may only use current-checkout evidence; '' @ detail)"

text \<open>The command a shell tool carries.\<close>

definition shell_command :: "env \<Rightarrow> string \<Rightarrow> cjson \<Rightarrow> string option" where
  "shell_command E name args =
     (if name = ''bash'' then j_str (arg E args ''command'')
      else if name = ''execute_script'' then j_str (arg E args ''body'')
      else None)"

definition dispatch_cwd :: "env \<Rightarrow> string" where
  "dispatch_cwd E =
     (if nonempty (run_cwd E) then cbuf (max_path_len E) (the (run_cwd E)) else or_else (proc_cwd E) [])"

abbreviation shell_allowed :: "env \<Rightarrow> trace \<Rightarrow> bool" where
  "shell_allowed E h \<equiv> call_int E h ''agent_tools_shell_allowed'' [] \<noteq> 0"

abbreviation role_allows :: "env \<Rightarrow> trace \<Rightarrow> string option \<Rightarrow> string \<Rightarrow> bool" where
  "role_allows E h role name \<equiv> call_int E h ''agent_tools_tool_allowed_for_role'' [opt_str role, JStr name] \<noteq> 0"

abbreviation knowledge_write_allowed :: "env \<Rightarrow> trace \<Rightarrow> bool" where
  "knowledge_write_allowed E h \<equiv> call_int E h ''agent_tools_knowledge_write_allowed'' [] \<noteq> 0"

abbreviation git_gate_denies :: "env \<Rightarrow> trace \<Rightarrow> string \<Rightarrow> bool" where
  "git_gate_denies E h command \<equiv>
     call_int E h ''agent_tools_shell_git_gate'' [JStr command, JStr (dispatch_cwd E)] \<noteq> 0"

definition permission_msg :: string where
  "permission_msg = ''error: this delegate does not hold the `shell` permission, so it cannot run commands. Use the file and index tools, or give the role `shell` in its template's permissions block.''"

definition git_gate_msg :: string where
  "git_gate_msg = ''error: run git through aimee, not a shell '' @ [CHR 0xE2, CHR 0x80, CHR 0x94] @ '' use git_status, git_log, git_diff, git_branch, git_commit, git_push or git_pr. They execute on aimee-server, which holds the forge credential; this shell has none, so a raw git/gh command cannot authenticate anyway. (Operator: require_aimee_git: false in aimee.yaml opts out.)''"

text \<open>The first check that refuses, with its reason code and message.\<close>

definition access_denied :: "tool_globals \<Rightarrow> env \<Rightarrow> trace \<Rightarrow> string \<Rightarrow> cjson \<Rightarrow> (string \<times> string) option" where
  "access_denied g E h name args =
     (let role = agent_tools_dispatch_role g; command = shell_command E name args in
      if (name = ''bash'' \<or> name = ''execute_script'') \<and> \<not> shell_allowed E h
      then Some (''permission'', permission_msg)
      else if \<not> role_allows E h role name
      then Some (''role'', current_code_role_policy_error role
             ''indexed, memory, docs, notes, and remote MCP tools are disabled for this role'')
      else if \<not> knowledge_write_allowed E h \<and> command_uses_aimee_stale_context command
      then Some (''role'', current_code_role_policy_error role
             ''mutating or broad aimee context commands are disabled for this role'')
      else if (case command of Some c \<Rightarrow> git_gate_denies E h c | None \<Rightarrow> False)
      then Some (''policy'', git_gate_msg)
      else None)"

section \<open>The guardrail\<close>

definition guardrail_input_json :: "env \<Rightarrow> string \<Rightarrow> string \<Rightarrow> string" where
  "guardrail_input_json E name arguments_json =
     (case cj_parse (cj E) arguments_json of
        None \<Rightarrow> arguments_json
      | Some args \<Rightarrow>
          let field = (\<lambda>src dst. case j_str (arg E args src) of Some s \<Rightarrow> [(dst, JStr s)] | None \<Rightarrow> []) in
          if name = ''bash'' then print_or E (JObj (field ''command'' ''command'')) arguments_json
          else if name = ''write_file'' \<or> name = ''edit_file'' \<or> name = ''read_file''
          then print_or E (JObj (field ''path'' ''file_path'')) arguments_json
          else if name = ''execute_script''
          then print_or E (JObj (field ''body'' ''command'' @ field ''workdir'' ''workdir'')) arguments_json
          else arguments_json)"

text \<open>\<open>cJSON_SetValuestring\<close> on the string item of that key.\<close>

definition set_string :: "env \<Rightarrow> string \<Rightarrow> string \<Rightarrow> cjson \<Rightarrow> cjson" where
  "set_string E key s args =
     (if j_str (arg E args key) = None then args else cj_set (cj E) args key s)"

text \<open>
  What the verdict of the guardrail does to the call: \<open>Inl\<close> refuses, \<open>Inr\<close> goes on with
  these arguments.
\<close>

definition apply_guardrail :: "env \<Rightarrow> int \<Rightarrow> string \<Rightarrow> cjson \<Rightarrow> string + cjson" where
  "apply_guardrail E rc msg args =
     (if rc = 1 \<and> msg \<noteq> [] then
        Inr (if arg E args ''file_path'' \<noteq> None then set_string E ''file_path'' msg args
             else set_string E ''path'' msg args)
      else if rc = 3 \<and> msg \<noteq> [] then
        (if j_str (arg E args ''command'') \<noteq> None then Inr (set_string E ''command'' msg args)
         else if j_str (arg E args ''cmd'') \<noteq> None then Inr (set_string E ''cmd'' msg args)
         else if j_str (arg E args ''body'') \<noteq> None then Inr (set_string E ''body'' msg args)
         else Inl ''error: guardrail requires a worktree rewrite but the tool carries no rewritable command field'')
      else if rc \<noteq> 0 then Inl (cbuf 1200 (''error: guardrail blocked: '' @ msg))
      else Inr args)"

definition guardrail_check :: "env \<Rightarrow> string \<Rightarrow> string \<Rightarrow> cjson \<Rightarrow> (string + cjson) action" where
  "guardrail_check E name arguments_json args =
     (let a = [JStr name, JStr (guardrail_input_json E name arguments_json), JStr (dispatch_cwd E)] in
      do {
        emit (Call ''db1_init'' []);
        (rc, msg) \<leftarrow> perform (Call ''pre_tool_check'' a)
          (\<lambda>h. (call_int E h ''pre_tool_check'' a, cbuf 1024 (or_else (call_str E h ''pre_tool_check.msg'' a) [])));
        emit (Call ''session_state_save'' [opt_str (session_id E)]);
        ret (apply_guardrail E rc msg args)
      })"

section \<open>Lemmas\<close>

lemma all_digits_value: "\<forall>c \<in> set s. isdigit c \<Longrightarrow> all_digits acc s = Some (digits_value acc s)"
  by (induction acc s rule: all_digits.induct) auto

lemma all_digits_show: "all_digits 0 (show_nat n) = Some (int n)"
  using all_digits_value [of "show_nat n" 0] show_nat_digits digits_value_show_stop [of "[]" n] by auto

text \<open>No two occurrences of the searched word overlap.\<close>

lemma aimee_no_overlap:
  assumes "''aimee '' @ x = y @ ''aimee '' @ z"
  shows "y = [] \<or> length y \<ge> 6"
proof (rule ccontr)
  assume "\<not> (y = [] \<or> length y \<ge> 6)"
  then have y: "y \<noteq> []" "length y < 6" by simp_all
  then obtain k where "length y = Suc k" by (cases y) auto
  with y(2) have k: "length y = Suc k" "k < 5" by simp_all
  have "(y @ ''aimee '' @ z) ! Suc k = CHR ''a''" using k by (simp add: nth_append)
  then have "(''aimee '' @ x) ! Suc k = CHR ''a''" using assms by simp
  moreover have "k = 0 \<or> k = 1 \<or> k = 2 \<or> k = 3 \<or> k = 4" using k(2) by linarith
  ultimately show False by (auto simp: numeral_eq_Suc)
qed

lemma stale_scan_iff: "stale_scan p \<longleftrightarrow> (\<exists>pre sub. p = pre @ ''aimee '' @ sub \<and> stale_sub sub)"
proof (induction p rule: stale_scan.induct)
  case (1 p)
  show ?case
  proof (cases "strstr p ''aimee ''")
    case None
    then have "\<not> sublist ''aimee '' p" by (simp add: strstr_None_iff)
    then have "\<not> (\<exists>pre sub. p = pre @ ''aimee '' @ sub \<and> stale_sub sub)"
      by (metis sublist_def)
    with None show ?thesis by (subst stale_scan.simps) simp
  next
    case (Some m)
    obtain q where q: "p = q @ m" "prefix ''aimee '' m" using strstr_Some [OF Some] by blast
    then obtain s where m: "m = ''aimee '' @ s" by (auto simp: prefix_def)
    have first: "\<not> (\<exists>u v. p = u @ v \<and> length u < length q \<and> prefix ''aimee '' v)"
      by (rule strstr_first [OF Some q(1)])
    have scan: "stale_scan p \<longleftrightarrow> stale_sub s \<or> stale_scan s"
      using Some m by (subst stale_scan.simps) simp
    have IH: "\<not> stale_sub s \<Longrightarrow> stale_scan s \<longleftrightarrow> (\<exists>pre sub. s = pre @ ''aimee '' @ sub \<and> stale_sub sub)"
      using "1.IH" [OF Some] m by simp
    show ?thesis
    proof
      assume "stale_scan p"
      then consider "stale_sub s" | pre sub where "s = pre @ ''aimee '' @ sub" "stale_sub sub"
        using scan IH by blast
      then show "\<exists>pre sub. p = pre @ ''aimee '' @ sub \<and> stale_sub sub"
      proof cases
        case 1
        then show ?thesis using q(1) m by blast
      next
        case 2
        then have "p = (q @ ''aimee '' @ pre) @ ''aimee '' @ sub" using q(1) m by simp
        then show ?thesis using 2(2) by blast
      qed
    next
      assume "\<exists>pre sub. p = pre @ ''aimee '' @ sub \<and> stale_sub sub"
      then obtain pre sub where ps: "p = pre @ ''aimee '' @ sub" "stale_sub sub" by blast
      have "\<not> length pre < length q" using first ps(1) by (metis prefixI)
      then have "prefix q pre"
        using prefix_length_prefix [of q p pre] prefixI [OF ps(1)] prefixI [OF q(1)] by simp
      then obtain y where y: "pre = q @ y" by (auto simp: prefix_def)
      then have eq: "''aimee '' @ s = y @ ''aimee '' @ sub" using ps(1) q(1) m by simp
      show "stale_scan p"
      proof (cases "y = []")
        case True
        then show ?thesis using eq ps(2) scan by simp
      next
        case False
        then have "length y \<ge> 6" using aimee_no_overlap [OF eq] by blast
        then have "s = drop 6 y @ ''aimee '' @ sub"
          using arg_cong [OF eq, of "drop 6"] by simp
        then show ?thesis using scan IH ps(2) by blast
      qed
    qed
  qed
qed

section \<open>Properties\<close>

text \<open>C11. The stale-context check finds every occurrence: a command is refused exactly when
  somewhere in it the word \<open>aimee\<close> and a blank are followed by a subcommand outside the
  permitted ones. An earlier harmless \<open>aimee\<close> command hides none behind it.\<close>

theorem stale_context_iff:
  "command_uses_aimee_stale_context (Some c) \<longleftrightarrow>
     (\<exists>pre sub. c = pre @ ''aimee '' @ sub \<and> stale_sub sub)"
  by (cases "c = []") (auto simp: command_uses_aimee_stale_context_def stale_scan_iff)

text \<open>C28. Integers that arrive as strings are coerced to the integer they spell: the decimal of
  any 32-bit integer in an integer field becomes the number node of that integer.\<close>

theorem int_field_roundtrip:
  assumes "- (2 ^ 31) \<le> v" "v < 2 ^ 31" "arg E args field = Some (JStr (show_int v))"
  shows "coerce_int_field E field args = cj_replace (cj E) args field (jint v)"
proof -
  have sat: "saturate 64 v = v" "saturate 32 v = v" using assms(1,2) by (simp_all add: saturate_def)
  have "strtol_whole (show_int v) = Some v"
  proof (cases "v < 0")
    case True
    then have "show_int v = CHR ''-'' # show_nat (nat (- v))" by (simp add: show_int_def)
    then show ?thesis using True sat by (simp add: strtol_whole_def isspace_def all_digits_show)
  next
    case False
    obtain c r where cr: "show_nat (nat v) = c # r" by (cases "show_nat (nat v)") auto
    then have "isdigit c" using show_nat_digits [of c "nat v"] by simp
    then have "\<not> isspace c" "c \<noteq> CHR ''-''" "c \<noteq> CHR ''+''" using digit_char by blast+
    moreover have "all_digits 0 (c # r) = Some v" using all_digits_show [of "nat v"] False cr by simp
    ultimately show ?thesis using False cr sat by (simp add: strtol_whole_def show_int_def del: all_digits.simps)
  qed
  then show ?thesis
    using assms(3) sat by (simp add: coerce_int_field_def json_number_def jint_def)
qed

theorem int_field_roundtrip_witness:
  "coerce_int_field ref_env ''limit'' (JObj [(''limit'', JStr (show_int (- 12)))]) = JObj [(''limit'', jint (- 12))]"
  using int_field_roundtrip [of "- 12" ref_env "JObj [(''limit'', JStr (show_int (- 12)))]" "''limit''"]
  by (simp add: ref_env_def ref_cjson_def to_lower_def)

section \<open>Where the checks fall short\<close>

text \<open>
  A second blank hides a subcommand from the stale-context check. The guardrail is shown the
  arguments as they came, so a command under its alias \<open>cmd\<close> reaches it as an empty object,
  while the tool later runs the command. And a rewrite goes to the first field of a fixed
  order, not to the field the guardrail was shown: a script with a field \<open>command\<close> keeps its
  body, a file call with both spellings of the path keeps the one it uses.
\<close>

lemma stale_context_second_blank: "\<not> command_uses_aimee_stale_context (Some ''aimee  memory store x'')"
  unfolding command_uses_aimee_stale_context_def
  by (simp add: stale_scan.simps stale_sub_def command_word_matches_def)

lemma guardrail_misses_alias:
  assumes "cj E = ref_cjson (\<lambda>_. Some (JObj [(''cmd'', JStr ''rm -rf x'')]))"
  shows "guardrail_input_json E ''bash'' raw = ''{}''"
    "arg E (resolve_aliases E (JObj [(''cmd'', JStr ''rm -rf x'')])) ''command'' = Some (JStr ''rm -rf x'')"
  using assms by (simp_all add: guardrail_input_json_def ref_cjson_def print_or_def to_lower_def
      resolve_aliases_def aliases_def resolve_alias_def)

lemma rewrite_misses_script_body:
  assumes "cj E = ref_cjson (\<lambda>_. None)"
    and "args = JObj [(''command'', JStr ''x''), (''body'', JStr ''make'')]"
  shows "\<exists>args'. apply_guardrail E 3 ''cd /wt && make'' args = Inr args'
    \<and> arg E args' ''body'' = Some (JStr ''make'')"
  using assms by (simp add: apply_guardrail_def set_string_def ref_cjson_def to_lower_def)

lemma rewrite_misses_path:
  assumes "cj E = ref_cjson (\<lambda>_. None)"
    and "args = JObj [(''file_path'', JStr ''x''), (''path'', JStr ''/main/a'')]"
  shows "\<exists>args'. apply_guardrail E 1 ''/wt/a'' args = Inr args'
    \<and> arg E args' ''path'' = Some (JStr ''/main/a'')"
  using assms by (simp add: apply_guardrail_def set_string_def ref_cjson_def to_lower_def)

end
