(* ===== verification/Dispatch_Tools.thy ===== *)
theory Dispatch_Tools
  imports Dispatch_Args Anchored
begin

text \<open>
  The handlers \<open>td_*\<close> of \<open>agent_tools_dispatch.c\<close> (lines 580 to 1985): each takes its
  arguments out of the JSON object of the call, checks them, and calls its tool. \<open>cwd\<close> is the
  dispatcher's working directory, \<open>sid\<close> the session. A result is \<open>None\<close> where the C function
  may return NULL.
\<close>

section \<open>Arguments and outside calls\<close>

abbreviation sarg :: "env \<Rightarrow> cjson \<Rightarrow> string \<Rightarrow> string option" where
  "sarg E args k \<equiv> j_str (arg E args k)"

abbreviation iarg :: "env \<Rightarrow> cjson \<Rightarrow> string \<Rightarrow> int \<Rightarrow> int" where
  "iarg E args k d \<equiv> or_else (j_int (arg E args k)) d"

abbreviation barg :: "env \<Rightarrow> cjson \<Rightarrow> string \<Rightarrow> bool" where
  "barg E args k \<equiv> or_else (j_bool (arg E args k)) False"

definition some :: "string action \<Rightarrow> string option action" where
  "some m = do { r \<leftarrow> m; ret (Some r) }"

definition say :: "string \<Rightarrow> string option action" where
  "say msg = ret (Some msg)"

text \<open>\<open>error: missing '<key>' parameter\<close>.\<close>

definition missing :: "string \<Rightarrow> string" where
  "missing key = ''error: missing '' @ [CHR 0x27] @ key @ [CHR 0x27] @ '' parameter''"

definition call_s :: "env \<Rightarrow> string \<Rightarrow> cjson list \<Rightarrow> string option action" where
  "call_s E f a = perform (Call f a) (\<lambda>h. call_str E h f a)"

definition call_i :: "env \<Rightarrow> string \<Rightarrow> cjson list \<Rightarrow> int action" where
  "call_i E f a = perform (Call f a) (\<lambda>h. call_int E h f a)"

definition call_j :: "env \<Rightarrow> string \<Rightarrow> cjson list \<Rightarrow> cjson option action" where
  "call_j E f a = perform (Call f a) (\<lambda>h. call_json E h f a)"

section \<open>Shell and scripts\<close>

definition td_bash :: "env \<Rightarrow> cjson \<Rightarrow> int \<Rightarrow> string option action" where
  "td_bash E args timeout_ms =
     (case sarg E args ''command'' of
        None \<Rightarrow> say (missing ''command'')
      | Some c \<Rightarrow> if ws E = WS_DETACHED \<and> ws_has_shell E then bash_detached E c
                  else tool_bash E c timeout_ms)"

text \<open>The container runs the body from a here-document under a fixed delimiter.\<close>

definition script_delimiter :: string where
  "script_delimiter = ''AIMEE_SCRIPT_EOF''"

definition script_command :: "string \<Rightarrow> string \<Rightarrow> string" where
  "script_command lang body =
     (if lang = ''python'' then ''python3 - <<'' else ''bash -s <<'') @ [CHR 0x27] @ script_delimiter
       @ [CHR 0x27, CHR 0x0A] @ body @ [CHR 0x0A] @ script_delimiter @ [CHR 0x0A]"

definition script_in_container :: "env \<Rightarrow> string \<Rightarrow> string \<Rightarrow> int \<Rightarrow> string option \<Rightarrow> string option action" where
  "script_in_container E lang body secs wd =
     (let cwd = (if nonempty wd then wd else run_cwd E);
          cmd = container_command cwd (script_command lang body) in
      do {
        (out, code) \<leftarrow> (if \<not> malloc_ok E (length cmd + 1) then ret (None, -1)
          else perform (if ws_has_shell_timeout E then ExecShellTimeout cmd (secs * 1000)
                        else ExecShell cmd) (\<lambda>h. ws_exec_shell E h cmd));
        (if code = 0 then emit (Call ''sandbox_learned_observe'' [opt_str cwd, JStr body]) else ret ());
        say (if code = -1 \<and> out = None
             then bash_error_json ''sandbox exec failed: could not run the script in the delegate container''
             else print_or E (bash_result (or_else out []) [] code) ''{}'')
      })"

definition script_secs :: "env \<Rightarrow> cjson \<Rightarrow> int" where
  "script_secs E args = clamp (iarg E args ''timeout_secs'' 120) 120 600"

definition td_execute_script :: "env \<Rightarrow> cjson \<Rightarrow> string option action" where
  "td_execute_script E args =
     (case (sarg E args ''language'', sarg E args ''body'') of
        (Some lang, Some body) \<Rightarrow>
          let secs = script_secs E args; wd = sarg E args ''workdir'';
              env_json = (if is_obj (arg E args ''env'') then cj_print (cj E) (the (arg E args ''env'')) else None) in
          if ws E = WS_CONTAINER \<and> ws_has_shell E then script_in_container E lang body secs wd
          else perform (RunScript lang body secs)
            (\<lambda>h. call_str E h ''tool_execute_script'' [JStr lang, JStr body, jint secs, opt_str wd, opt_str env_json])
      | _ \<Rightarrow> say ''error: missing 'language' or 'body' parameter'')"

definition td_tool_output_get :: "env \<Rightarrow> cjson \<Rightarrow> string option action" where
  "td_tool_output_get E args =
     (case sarg E args ''ref'' of
        None \<Rightarrow> say (missing ''ref'')
      | Some r \<Rightarrow> do {
          home \<leftarrow> ask (\<lambda>h. call_str E h ''aimee_home'' []);
          let dir = or_else home [] @ ''/tool-spills'';
          if \<not> nonempty home \<or> length dir \<ge> 600 then say ''error: spill store unavailable''
          else do {
            full \<leftarrow> call_s E ''econ_module_tool_recall'' [JStr dir, JStr r];
            err \<leftarrow> ask (\<lambda>h. call_str E h ''econ_module_tool_recall.err'' [JStr dir, JStr r]);
            (case full of
               Some f \<Rightarrow> say f
             | None \<Rightarrow> say (cbuf 128 (''error: '' @ (if nonempty err then cbuf 64 (the err) else ''not found''))))
          }
        })"

section \<open>Files\<close>

definition is_error :: "string \<Rightarrow> bool" where
  "is_error r = starts_with r ''error:''"

definition td_read_file :: "env \<Rightarrow> cjson \<Rightarrow> string \<Rightarrow> string option \<Rightarrow> string option action" where
  "td_read_file E args cwd sid =
     (case sarg E args ''path'' of
        None \<Rightarrow> say (missing ''path'')
      | Some p \<Rightarrow> do {
          result \<leftarrow> (if sarg E args ''mode'' = Some ''outline'' then tool_read_outline E (Some p)
                     else tool_read_file E p (iarg E args ''offset'' 0) (iarg E args ''limit'' 0) (barg E args ''raw''));
          (if \<not> is_error result then emit (ReadRecord sid (normalize_path E p (Some cwd))) else ret ());
          say result
        })"

definition parent_guard_msg :: string where
  "parent_guard_msg = ''error: write blocked: parent worktree is read-only for delegates''"

definition isolation_msg :: string where
  "isolation_msg = ''error: write blocked: require_session_worktree is enabled and this target is outside an aimee-managed worktree (.aimee/worktrees/...)''"

text \<open>The guards at the head of the write handlers.\<close>

definition write_blocked :: "env \<Rightarrow> string \<Rightarrow> string \<Rightarrow> string option" where
  "write_blocked E path cwd =
     (if readonly_delegate E then Some ro_delegate_msg
      else if parent_guard_blocks E path (Some cwd) then Some parent_guard_msg
      else if isolation_blocks E path cwd then Some isolation_msg
      else None)"

text \<open>Who is recorded as the writer: the delegation, else the session.\<close>

definition record_write :: "env \<Rightarrow> string \<Rightarrow> string \<Rightarrow> string option \<Rightarrow> unit action" where
  "record_write E path cwd sid =
     emit (WriteRecord (if delegation_id E \<noteq> None then delegation_id E else sid)
       (normalize_path E path (Some cwd)))"

definition has_status :: "string \<Rightarrow> string \<Rightarrow> bool" where
  "has_status result status = (strstr result (''\"status\":\"'' @ status @ ''\"'') \<noteq> None)"

definition edit_committed :: "string \<Rightarrow> bool" where
  "edit_committed result =
     (\<not> is_error result \<and> \<not> has_status result ''stale_anchor'' \<and> \<not> has_status result ''snapshot_expired''
      \<and> \<not> has_status result ''invalid_edit'' \<and> \<not> has_status result ''conflicting_edits'')"

definition td_edit_file :: "env \<Rightarrow> cjson \<Rightarrow> string \<Rightarrow> string option \<Rightarrow> string option action" where
  "td_edit_file E args cwd sid =
     (case sarg E args ''path'' of
        None \<Rightarrow> say (missing ''path'')
      | Some p \<Rightarrow>
          if sarg E args ''snapshot_id'' \<noteq> None \<or> is_arr (arg E args ''edits'') then
            let dry_run = barg E args ''dry_run'' in do {
              result \<leftarrow> (case (if dry_run then None else write_blocked E p cwd) of
                  Some msg \<Rightarrow> ret msg
                | None \<Rightarrow> do {
                    (if dry_run then ret 0 else auto_snapshot_record E p);
                    tool_edit_file_anchored E (Some p) (sarg E args ''snapshot_id'') (arg E args ''edits'') dry_run
                  });
              (if \<not> dry_run \<and> edit_committed result then record_write E p cwd sid else ret ());
              say result
            }
          else (case sarg E args ''old_string'' of
              None \<Rightarrow> say ''error: missing 'old_string' parameter (or use snapshot_id + edits[])''
            | Some old \<Rightarrow> do {
                result \<leftarrow> (case write_blocked E p cwd of
                    Some msg \<Rightarrow> ret msg
                  | None \<Rightarrow> do {
                      auto_snapshot_record E p;
                      tool_edit_file E (Some p) (Some old) (Some (or_else (sarg E args ''new_string'') []))
                        (barg E args ''replace_all'')
                    });
                (if \<not> is_error result then record_write E p cwd sid else ret ());
                say result
              }))"

text \<open>The diagnostics text: an entry that does not fit is cut, and the next one overwrites it.\<close>

fun diag_loop :: "nat \<Rightarrow> string \<Rightarrow> string \<Rightarrow> string list \<Rightarrow> string" where
  "diag_loop dleft acc buf [] = buf"
| "diag_loop dleft acc buf (e # es) =
     (if dleft > 2 then
        (if length e < dleft then diag_loop (dleft - length e) (acc @ e) (acc @ e) es
         else diag_loop dleft acc (acc @ take (dleft - 1) e) es)
      else buf)"

definition diag_entry :: "string \<Rightarrow> bool \<Rightarrow> string \<times> int \<times> bool \<times> string \<times> string \<Rightarrow> string" where
  "diag_entry path first d =
     (case d of (file, line, shown, label, message) \<Rightarrow>
        (if first then [] else ''; '') @ (if file \<noteq> [] then file else path) @ '':''
          @ show_int (line + 1) @ '' ['' @ label @ ''] '' @ message)"

definition add_lsp_diagnostics :: "env \<Rightarrow> trace \<Rightarrow> string \<Rightarrow> string \<Rightarrow> string \<Rightarrow> string" where
  "add_lsp_diagnostics E h path cwd result =
     (let wsp = or_else (workspace_root E cwd) (cbuf (max_path_len E) cwd);
          kept = filter (\<lambda>(file, line, shown, label, message). shown) (take 6 (lsp_diags E h wsp path)) in
      if kept = [] then result
      else case cj_parse (cj E) result of
        Some (JObj kvs) \<Rightarrow>
          print_or E (cj_add (cj E) (JObj kvs) ''lsp_diagnostics''
            (JStr (diag_loop 1024 [] [] (map2 (diag_entry path) (True # replicate (length kept - 1) False) kept)))) result
      | _ \<Rightarrow> result)"

definition recovery_hint :: string where
  "recovery_hint = CHR 0x0A # ''Recovery: read the file with read_file before retrying.''"

text \<open>
  Where the advisory would read past its buffer the behaviour of the code is undefined; the
  result is then left as it is.
\<close>

definition write_advisories :: "env \<Rightarrow> trace \<Rightarrow> string \<Rightarrow> string \<Rightarrow> string \<Rightarrow> string \<Rightarrow> string" where
  "write_advisories E h path content cwd result =
     (let slop = take 16 (slop_detect E content);
          advised = (if slop = [] then result
                     else (case append_write_slop_advisory E (Some result) slop of
                             Some (Some r) \<Rightarrow> r | _ \<Rightarrow> result)) in
      add_lsp_diagnostics E h path cwd advised)"

definition td_write_file :: "env \<Rightarrow> cjson \<Rightarrow> string \<Rightarrow> string option \<Rightarrow> string option action" where
  "td_write_file E args cwd sid =
     (case sarg E args ''path'' of
        None \<Rightarrow> say (missing ''path'')
      | Some p \<Rightarrow>
          let content = or_else (sarg E args ''content'') [] in do {
            result \<leftarrow> (case write_blocked E p cwd of
                Some msg \<Rightarrow> ret msg
              | None \<Rightarrow> do { auto_snapshot_record E p; tool_write_file E p content });
            (if \<not> is_error result then record_write E p cwd sid else ret ());
            (if is_error result then say (result @ recovery_hint)
             else if content \<noteq> [] then ask (\<lambda>h. Some (write_advisories E h p content cwd result))
             else say result)
          })"

definition td_list_files :: "env \<Rightarrow> cjson \<Rightarrow> string option action" where
  "td_list_files E args =
     (case sarg E args ''path'' of
        None \<Rightarrow> say (missing ''path'')
      | Some p \<Rightarrow> some (tool_list_files E p (sarg E args ''pattern'')))"

section \<open>Checks, git, search\<close>

definition td_verify :: "env \<Rightarrow> cjson \<Rightarrow> string option action" where
  "td_verify E args =
     (case (sarg E args ''check_type'', sarg E args ''target'') of
        (Some ct, Some tgt) \<Rightarrow> tool_verify E ct tgt (sarg E args ''expected'')
      | _ \<Rightarrow> say (''error: missing 'check_type' or 'target'' @ [CHR 0x27]))"

text \<open>The repository: the argument, else the dispatcher's directory.\<close>

definition repo_arg :: "env \<Rightarrow> cjson \<Rightarrow> string \<Rightarrow> string" where
  "repo_arg E args cwd = (if nonempty (sarg E args ''path'') then the (sarg E args ''path'') else cwd)"

definition no_repo_msg :: string where
  "no_repo_msg = ''error: git tool requires a session worktree (no 'path' given)''"

definition td_git_log :: "env \<Rightarrow> cjson \<Rightarrow> string \<Rightarrow> string option action" where
  "td_git_log E args cwd =
     (if repo_arg E args cwd = [] then say no_repo_msg
      else some (tool_git_log E (repo_arg E args cwd) (iarg E args ''count'' 10)))"

definition td_git_diff :: "env \<Rightarrow> cjson \<Rightarrow> string \<Rightarrow> string option action" where
  "td_git_diff E args cwd =
     (if repo_arg E args cwd = [] then say no_repo_msg
      else some (tool_git_diff E (Some (repo_arg E args cwd)) (sarg E args ''ref'')))"

definition td_git_status :: "env \<Rightarrow> cjson \<Rightarrow> string \<Rightarrow> string option action" where
  "td_git_status E args cwd =
     (if repo_arg E args cwd = [] then say no_repo_msg
      else some (tool_git_status E (Some (repo_arg E args cwd))))"

definition td_grep :: "env \<Rightarrow> cjson \<Rightarrow> string option action" where
  "td_grep E args =
     (case (sarg E args ''path'', sarg E args ''pattern'') of
        (Some p, Some pat) \<Rightarrow>
          some (if barg E args ''anchored''
                then tool_grep_anchored E (Some p) (Some pat) (iarg E args ''max_results'' 50)
                else tool_grep E (Some p) (Some pat) (iarg E args ''max_results'' 50))
      | _ \<Rightarrow> say ''error: missing 'path' or 'pattern' parameter'')"

definition td_read_symbol :: "env \<Rightarrow> cjson \<Rightarrow> string option action" where
  "td_read_symbol E args =
     (case sarg E args ''symbol'' of
        None \<Rightarrow> say (missing ''symbol'')
      | Some s \<Rightarrow> some (tool_read_symbol E (Some s) (sarg E args ''path'')))"

definition td_run_tests :: "env \<Rightarrow> cjson \<Rightarrow> int \<Rightarrow> string option action" where
  "td_run_tests E args timeout_ms =
     (case sarg E args ''command'' of
        None \<Rightarrow> say (missing ''command'')
      | Some c \<Rightarrow> some (tool_run_tests E (Some c) timeout_ms))"

definition td_edit_symbol :: "env \<Rightarrow> cjson \<Rightarrow> string \<Rightarrow> string option \<Rightarrow> string option action" where
  "td_edit_symbol E args cwd sid =
     (case sarg E args ''symbol'' of
        None \<Rightarrow> say (missing ''symbol'')
      | Some s \<Rightarrow>
          let pth = sarg E args ''path'' in
          if readonly_delegate E then say ro_delegate_msg
          else if (case pth of Some p \<Rightarrow> parent_guard_blocks E p (Some cwd) | None \<Rightarrow> False)
          then say parent_guard_msg
          else do {
            result \<leftarrow> tool_edit_symbol E (Some s) pth (sarg E args ''op'') (sarg E args ''text'');
            (if \<not> is_error result \<and> pth \<noteq> None then record_write E (the pth) cwd sid else ret ());
            say result
          })"

text \<open>The texts of MCP content blocks, a newline between them.\<close>

definition flatten_step :: "env \<Rightarrow> cjson \<Rightarrow> string \<Rightarrow> string" where
  "flatten_step E item out =
     (case j_str (arg_cs E item ''text'') of
        None \<Rightarrow> out
      | Some t \<Rightarrow> (if out \<noteq> [] then out @ [CHR 0x0A] else out) @ t)"

definition mcp_content_flatten :: "env \<Rightarrow> cjson \<Rightarrow> string" where
  "mcp_content_flatten E content =
     (let out = fold (flatten_step E) (j_children (Some content)) [] in
      if out \<noteq> [] then out else ''(no output)'')"

definition td_git_write :: "env \<Rightarrow> cjson \<Rightarrow> string \<Rightarrow> string \<Rightarrow> string option \<Rightarrow> string option action" where
  "td_git_write E args name cwd sid =
     do {
       fn \<leftarrow> ask (\<lambda>h. call_int E h ''agent_tools_git_write_provider'' []);
       copy_failed \<leftarrow> ask (\<lambda>h. call_int E h ''cJSON_Duplicate.failed'' [args]);
       if fn = 0 then say ''error: git tools are not available on this surface''
       else if copy_failed \<noteq> 0 then say ''error: out of memory''
       else
         let call = (if arg_cs E args ''path'' = None \<and> cwd \<noteq> []
                     then cj_add (cj E) args ''path'' (JStr cwd) else args) in do {
         content \<leftarrow> call_j E ''git_write'' [JStr name, call, opt_str sid];
         say (case content of
                None \<Rightarrow> ''error: git tool unavailable on this surface''
              | Some c \<Rightarrow> mcp_content_flatten E c)
       }
     }"

definition td_mcp_tool :: "env \<Rightarrow> cjson \<Rightarrow> string \<Rightarrow> string option \<Rightarrow> string option action" where
  "td_mcp_tool E args name sid =
     do {
       fn \<leftarrow> ask (\<lambda>h. call_int E h ''agent_tools_mcp_call_provider'' []);
       if fn = 0 then say ''error: tool is not available on this surface''
       else do {
         content \<leftarrow> call_j E ''mcp_call'' [JStr name, args, opt_str sid];
         say (case content of
                None \<Rightarrow> ''error: tool unavailable on this surface''
              | Some c \<Rightarrow> mcp_content_flatten E c)
       }
     }"

definition td_env_get :: "env \<Rightarrow> cjson \<Rightarrow> string option action" where
  "td_env_get E args =
     (case sarg E args ''name'' of
        None \<Rightarrow> say (missing ''name'')
      | Some n \<Rightarrow> say (tool_env_get E (Some n)))"

definition td_test :: "env \<Rightarrow> cjson \<Rightarrow> string option action" where
  "td_test E args =
     (case sarg E args ''path'' of
        None \<Rightarrow> say (missing ''path'')
      | Some p \<Rightarrow> ask (\<lambda>h. tool_test E h (Some p) (sarg E args ''check'')))"

definition td_request_input :: "env \<Rightarrow> cjson \<Rightarrow> string option action" where
  "td_request_input E args =
     (case sarg E args ''question'' of
        None \<Rightarrow> say (missing ''question'')
      | Some q \<Rightarrow> some (tool_request_input E (Some q)))"

definition td_code_search :: "env \<Rightarrow> cjson \<Rightarrow> string option action" where
  "td_code_search E args =
     (case sarg E args ''query'' of
        None \<Rightarrow> say (missing ''query'')
      | Some q \<Rightarrow> ask (\<lambda>h. Some (tool_code_search E h (Some q) (sarg E args ''project'') (iarg E args ''max_results'' 50))))"

definition td_find_symbol :: "env \<Rightarrow> cjson \<Rightarrow> string option action" where
  "td_find_symbol E args =
     (case sarg E args ''identifier'' of
        None \<Rightarrow> say (missing ''identifier'')
      | Some i \<Rightarrow> ask (\<lambda>h. call_str E h ''tool_find_symbol'' [JStr i]))"

definition fact_entry :: "env \<Rightarrow> cjson \<Rightarrow> string" where
  "fact_entry E f =
     ''- **'' @ note_field E f ''key'' @ ''** ['' @ note_field E f ''tier'' @ ''/'' @ note_field E f ''kind''
       @ '']: '' @ note_field E f ''content'' @ [CHR 0x0A]"

definition td_search_memory :: "env \<Rightarrow> cjson \<Rightarrow> string option action" where
  "td_search_memory E args =
     (case sarg E args ''query'' of
        None \<Rightarrow> say (missing ''query'')
      | Some q \<Rightarrow> ask (\<lambda>h.
          let facts = take 20 (j_children (call_json E h ''kb_client_memory_find_facts'' [JStr q, jint 20]));
              head = ''Found '' @ show_nat (length facts) @ '' fact(s):'' @ [CHR 0x0A, CHR 0x0A] in
          Some (if facts = [] then cbuf 8192 (''No facts found for '' @ [CHR 0x27] @ q @ [CHR 0x27])
                else the (print_loop 512 (length head) head (map (fact_entry E) facts)))))"

definition td_web_search :: "env \<Rightarrow> cjson \<Rightarrow> string option action" where
  "td_web_search E args =
     (case sarg E args ''query'' of
        None \<Rightarrow> say (missing ''query'')
      | Some q \<Rightarrow>
          let fetch = (case j_bool (arg E args ''fetch_pages'') of
                         Some b \<Rightarrow> JBool b | None \<Rightarrow> JStr ''WEB_SEARCH_FETCH_PAGES_UNSET'') in do {
            result \<leftarrow> call_s E ''web_search_ex'' [JStr q, jint (iarg E args ''max_results'' 5), fetch];
            (case result of
               Some r \<Rightarrow> (if \<not> is_error r then emit (Call ''web_handle_register_from_search'' [JStr r]) else ret ())
             | None \<Rightarrow> ret ());
            ret result
          })"

definition td_web_read :: "env \<Rightarrow> cjson \<Rightarrow> string option action" where
  "td_web_read E args =
     (case sarg E args ''ref'' of
        None \<Rightarrow> say ''error: missing 'ref' parameter (a search handle or raw URL)''
      | Some r \<Rightarrow> call_s E ''tool_web_read'' [JStr r, opt_str (sarg E args ''query''),
          jint (iarg E args ''span'' 0), opt_str (sarg E args ''mode'')])"

definition td_create_note :: "env \<Rightarrow> cjson \<Rightarrow> string option action" where
  "td_create_note E args =
     (case (sarg E args ''title'', sarg E args ''content'') of
        (Some t, Some c) \<Rightarrow> some (tool_create_note E (Some t) (Some c) (sarg E args ''tags''))
      | _ \<Rightarrow> say ''error: missing 'title' or 'content' parameter'')"

definition td_list_notes :: "env \<Rightarrow> cjson \<Rightarrow> string option action" where
  "td_list_notes E args = ask (\<lambda>h. Some (tool_list_notes E h (sarg E args ''tag'') (iarg E args ''limit'' 20)))"

definition td_search_notes :: "env \<Rightarrow> cjson \<Rightarrow> string option action" where
  "td_search_notes E args =
     (case sarg E args ''query'' of
        None \<Rightarrow> say (missing ''query'')
      | Some q \<Rightarrow> ask (\<lambda>h. Some (tool_search_notes E h (Some q))))"

section \<open>Background processes\<close>

definition json_id :: "string \<Rightarrow> int \<Rightarrow> string \<Rightarrow> string" where
  "json_id key n rest = ''{\"'' @ key @ ''\":'' @ show_int n @ rest @ ''}''"

definition td_run_background_process :: "env \<Rightarrow> cjson \<Rightarrow> string option action" where
  "td_run_background_process E args =
     (case sarg E args ''command'' of
        None \<Rightarrow> say (missing ''command'')
      | Some c \<Rightarrow>
          if guard_root E \<noteq> None
          then say ''error: background processes are blocked while the parent worktree is read-only''
          else
            let a = [JStr c, opt_str (sarg E args ''cwd'')] in do {
              pid \<leftarrow> perform (ProcStart c (sarg E args ''cwd'')) (\<lambda>h. call_int E h ''proc_start'' a);
              err \<leftarrow> ask (\<lambda>h. call_str E h ''proc_start.err'' a);
              say (if pid < 0 then (if nonempty err then cbuf 256 (the err) else ''error: proc_start failed'')
                   else cbuf 64 (json_id ''id'' pid '',\"status\":\"started\"''))
            })"

definition td_get_background_output :: "env \<Rightarrow> cjson \<Rightarrow> string option action" where
  "td_get_background_output E args =
     (case j_int (arg E args ''id'') of
        None \<Rightarrow> say (missing ''id'')
      | Some n \<Rightarrow>
          if \<not> malloc_ok E 131072 then say ''error: out of memory''
          else ask (\<lambda>h. Some (cbuf 131072 (or_else (call_str E h ''proc_get_output'' [jint n, jint (iarg E args ''tail_lines'' 50)]) []))))"

definition td_kill_background_process :: "env \<Rightarrow> cjson \<Rightarrow> string option action" where
  "td_kill_background_process E args =
     (case j_int (arg E args ''id'') of
        None \<Rightarrow> say (missing ''id'')
      | Some n \<Rightarrow> do {
          rc \<leftarrow> call_i E ''proc_kill'' [jint n];
          say (if rc = 0 then cbuf 64 (json_id ''id'' n '',\"status\":\"killed\"'')
               else cbuf 64 (''error: process id '' @ show_int n @ '' not found or already exited''))
        })"

definition td_list_background_processes :: "env \<Rightarrow> string option action" where
  "td_list_background_processes E =
     (if \<not> malloc_ok E 32768 then say ''[]''
      else ask (\<lambda>h. Some (cbuf 32768 (or_else (call_str E h ''proc_list'' []) []))))"

section \<open>Rules and learning\<close>

definition td_rules_propose :: "env \<Rightarrow> cjson \<Rightarrow> string option action" where
  "td_rules_propose E args =
     (if \<not> nonempty (sarg E args ''text'') then say ''error: missing or empty 'text' parameter''
      else do {
        rid \<leftarrow> call_i E ''kb_client_collab_rules_propose''
          [opt_str (sarg E args ''text''), JStr (or_else (sarg E args ''reason'') []), JStr ''agent''];
        say (if rid \<ge> 0
             then cbuf 128 (json_id ''id'' rid '',\"status\":\"proposed\",\"message\":\"Rule proposed. Awaiting human approval.\"'')
             else ''error: could not propose rule'')
      })"

definition td_rules_list :: "env \<Rightarrow> string option action" where
  "td_rules_list E = ask (\<lambda>h. Some (or_else (call_str E h ''kb_client_collab_rules_list_active_json'' []) ''{\"epoch\":0,\"rules\":[]}''))"

definition parse_reply :: "env \<Rightarrow> string option \<Rightarrow> cjson option" where
  "parse_reply E s = (case s of Some t \<Rightarrow> cj_parse (cj E) t | None \<Rightarrow> None)"

definition td_learning_propose :: "env \<Rightarrow> cjson \<Rightarrow> string option action" where
  "td_learning_propose E args =
     (if \<not> nonempty (sarg E args ''signal_type'') then say (missing ''signal_type'')
      else do {
        envelope \<leftarrow> call_s E ''kb_client_learning_propose_signal_json'' [args];
        ret (case parse_reply E envelope of
               None \<Rightarrow> Some ''error: failed to record learning signal''
             | Some resp \<Rightarrow>
                 if j_str (arg_cs E resp ''status'') \<noteq> Some ''ok'' then Some ''error: failed to record learning signal''
                 else if is_obj (arg_cs E resp ''dispatch'') then cj_print (cj E) (the (arg_cs E resp ''dispatch''))
                 else Some ''{\"signal_id\":0}'')
      })"

definition td_learning_review :: "env \<Rightarrow> cjson \<Rightarrow> string option action" where
  "td_learning_review E args =
     (let state = (if nonempty (sarg E args ''state'') then the (sarg E args ''state'') else ''pending'');
          sink = (if nonempty (sarg E args ''sink'') then sarg E args ''sink'' else None);
          limit = (if iarg E args ''limit'' 0 > 0 then iarg E args ''limit'' 0 else 20) in
      ask (\<lambda>h.
        case parse_reply E (call_str E h ''kb_client_learning_list_proposals_json'' [JStr state, opt_str sink, jint limit]) of
          None \<Rightarrow> Some ''error: failed to list learning proposals''
        | Some resp \<Rightarrow>
            if is_arr (arg_cs E resp ''proposals'') then cj_print (cj E) (the (arg_cs E resp ''proposals''))
            else Some ''[]''))"

section \<open>Clarification and diagnosis\<close>

text \<open>Both keep their state in the server's store, which must be there.\<close>

definition with_store :: "env \<Rightarrow> string option action \<Rightarrow> string option action" where
  "with_store E m =
     do {
       db \<leftarrow> ask (\<lambda>h. call_int E h ''db1_init'' []);
       if \<not> config_present E \<or> db \<noteq> 0 then say ''error: server storage unavailable'' else m
     }"

definition clarify_json :: "env \<Rightarrow> string option action" where
  "clarify_json E = ask (\<lambda>h. Some (or_else (call_str E h ''db1_clarify_to_json'' []) ''{\"error\":\"serialisation failed\"}''))"

definition td_clarify_start :: "env \<Rightarrow> cjson \<Rightarrow> string option action" where
  "td_clarify_start E args =
     (if \<not> nonempty (sarg E args ''description'') then say ''error: missing or empty 'description' parameter''
      else with_store E (do {
        n \<leftarrow> call_i E ''db1_clarify_start'' [opt_str (sarg E args ''description'')];
        if n < 0 then say ''error: could not start clarification session'' else clarify_json E
      }))"

definition td_clarify_answer :: "env \<Rightarrow> cjson \<Rightarrow> string option action" where
  "td_clarify_answer E args =
     (let n = iarg E args ''session_id'' (-1) in
      if n < 1 \<or> \<not> nonempty (sarg E args ''answer'')
      then say (''error: require positive 'session_id' and non-empty 'answer'' @ [CHR 0x27])
      else with_store E (do {
        rc \<leftarrow> call_i E ''db1_clarify_answer'' [jint n, opt_str (sarg E args ''answer'')];
        if rc \<noteq> 0
        then say (''error: could not record answer '' @ [CHR 0xE2, CHR 0x80, CHR 0x94] @ '' session not found or not open'')
        else clarify_json E
      }))"

definition item_id_json :: "int \<Rightarrow> string" where
  "item_id_json n = cbuf 96 (json_id ''item_id'' n [])"

definition td_diagnose_start :: "env \<Rightarrow> cjson \<Rightarrow> string option action" where
  "td_diagnose_start E args =
     (if \<not> nonempty (sarg E args ''symptom'') then say ''error: missing or empty 'symptom' parameter''
      else with_store E (do {
        n \<leftarrow> call_i E ''db1_diagnose_start'' [opt_str (sarg E args ''symptom'')];
        say (if n < 0 then ''error: could not start diagnosis''
             else cbuf 96 (json_id ''diagnosis_id'' n '',\"status\":\"active\"''))
      }))"

definition td_diagnose_observe :: "env \<Rightarrow> cjson \<Rightarrow> string \<Rightarrow> string option action" where
  "td_diagnose_observe E args name =
     (let diag = iarg E args ''diagnosis_id'' (-1); content = sarg E args ''content'' in
      if diag < 1 \<or> \<not> nonempty content
      then say (''error: require positive 'diagnosis_id' and non-empty 'content'' @ [CHR 0x27])
      else with_store E (do {
        n \<leftarrow> (if name = ''diagnose_observe''
              then call_i E ''db1_diagnose_add_observation'' [jint diag, opt_str content, JStr (or_else (sarg E args ''source'') [])]
              else call_i E ''db1_diagnose_add_hypothesis'' [jint diag, opt_str content]);
        say (if n < 0 then ''error: could not record item'' else item_id_json n)
      }))"

text \<open>The ranks are constants of the store's header; a rank that is not named is that of code.\<close>

definition evidence_rank :: "string option \<Rightarrow> string" where
  "evidence_rank r =
     (if r = Some ''direct'' then ''DIAG_RANK_DIRECT''
      else if r = Some ''log'' \<or> r = Some ''metric'' then ''DIAG_RANK_LOG''
      else if r = Some ''speculation'' then ''DIAG_RANK_SPECULATION''
      else ''DIAG_RANK_CODE'')"

definition td_diagnose_evidence :: "env \<Rightarrow> cjson \<Rightarrow> string option action" where
  "td_diagnose_evidence E args =
     (let diag = iarg E args ''diagnosis_id'' (-1); hyp = iarg E args ''hypothesis_id'' (-1);
          content = sarg E args ''content''; stance = or_else (sarg E args ''stance'') [] in
      if diag < 1 \<or> hyp < 1 \<or> \<not> nonempty content \<or> stance = []
      then say ''error: require positive ids, non-empty content, and stance ('for'|'against')''
      else if stance \<noteq> ''for'' \<and> stance \<noteq> ''against''
      then say (''error: stance must be 'for' or 'against'' @ [CHR 0x27])
      else with_store E (do {
        n \<leftarrow> call_i E ''db1_diagnose_add_evidence''
          [jint diag, jint hyp, JStr (if stance = ''for'' then ''evidence_for'' else ''evidence_against''),
           opt_str content, JStr (or_else (sarg E args ''source'') []),
           JStr (evidence_rank (sarg E args ''rank''))];
        say (if n < 0 then ''error: could not record evidence'' else item_id_json n)
      }))"

definition td_diagnose_status :: "env \<Rightarrow> cjson \<Rightarrow> string option action" where
  "td_diagnose_status E args =
     (let diag = iarg E args ''diagnosis_id'' (-1) in
      if diag < 1 then say (''error: require positive 'diagnosis_id'' @ [CHR 0x27])
      else with_store E (ask (\<lambda>h.
        Some (or_else (call_str E h ''db1_diagnose_json_full'' [jint diag]) ''error: diagnosis not found''))))"

section \<open>Document search\<close>

definition td_search_project :: "env \<Rightarrow> trace \<Rightarrow> cjson \<Rightarrow> string \<Rightarrow> string option" where
  "td_search_project E h args cwd =
     (if nonempty (j_str (arg_cs E args ''project'')) then j_str (arg_cs E args ''project'')
      else if cwd = [] then None
      else (let r = call_str E h ''workspace_repo_identity'' [JStr cwd] in if nonempty r then r else None))"

text \<open>Recording which documents were shown, when that is configured; at most 8 of them.\<close>

definition capture_outcome :: "env \<Rightarrow> cjson option \<Rightarrow> unit action" where
  "capture_outcome E resp =
     (let hits = (case resp of Some r \<Rightarrow> arg_cs E r ''hits'' | None \<Rightarrow> None) in
      do {
        enabled \<leftarrow> ask (\<lambda>h. call_int E h ''config_learning_implicit_retrieval_outcome'' []);
        if enabled \<noteq> 0 \<and> is_arr hits then do {
          docs \<leftarrow> ask (\<lambda>h. j_children (call_json E h ''td_extract_hit_docs'' [the hits, jint 8]));
          if docs \<noteq> [] then do {
            ev \<leftarrow> call_s E ''kb_client_ranker_emit_event'' [JArr docs];
            (if nonempty ev then emit (Call ''retrieval_outcome_bridge_note'' [JStr ''ranker'', opt_str ev, JArr docs])
             else ret ())
          } else ret ()
        } else ret ()
      })"

definition td_search_docs :: "env \<Rightarrow> cjson \<Rightarrow> string \<Rightarrow> string option action" where
  "td_search_docs E args cwd =
     (if \<not> nonempty (sarg E args ''query'') then say (missing ''query'')
      else
        let q = the (sarg E args ''query''); mx = iarg E args ''max_results'' 3;
            jscope = arg_cs E args ''scope'' in
        if jscope \<noteq> None \<and> j_str jscope \<noteq> Some ''current'' \<and> j_str jscope \<noteq> Some ''all''
        then say (''error: scope must be 'current' or 'all'' @ [CHR 0x27])
        else do {
          project \<leftarrow> ask (\<lambda>h. td_search_project E h args cwd);
          let all_projects = (j_str jscope = Some ''all'');
          if \<not> all_projects \<and> project = None
          then say (''error: no active project determined from cwd; pass project or scope='all'' @ [CHR 0x27])
          else do {
            ec \<leftarrow> ask (\<lambda>h. call_str E h ''config_embedder_command_current'' []);
            envelope \<leftarrow> call_s E ''kb_client_search_json_scoped_ex''
              [opt_str project, JBool all_projects, JStr q, opt_str (if nonempty ec then ec else None), jint mx];
            let resp = parse_reply E envelope;
            result \<leftarrow> ask (\<lambda>h. call_str E h ''td_search_result_from_response'' [or_else resp JNull, JStr q]);
            capture_outcome E resp;
            ret result
          }
        })"

section \<open>The effects of each handler\<close>

lemma emits_say [emits_intros]: "emits P (say msg)"
  by (simp add: say_def emits_ret)

lemma emits_some [emits_intros]: "emits P m \<Longrightarrow> emits P (some m)"
  unfolding some_def by (intro emits_intros)

lemma emits_call_s [emits_intros]: "P (Call f a) \<Longrightarrow> emits P (call_s E f a)"
  unfolding call_s_def by (intro emits_intros)

lemma emits_call_i [emits_intros]: "P (Call f a) \<Longrightarrow> emits P (call_i E f a)"
  unfolding call_i_def by (intro emits_intros)

lemma emits_call_j [emits_intros]: "P (Call f a) \<Longrightarrow> emits P (call_j E f a)"
  unfolding call_j_def by (intro emits_intros)

lemma emits_with_store [emits_intros]: "emits P m \<Longrightarrow> emits P (with_store E m)"
  unfolding with_store_def by (intro emits_intros)

fun is_call :: "event \<Rightarrow> bool" where
  "is_call (Call _ _) = True"
| "is_call _ = False"

text \<open>A shell event: a child on this host that passed its gate, or a command through the provider.\<close>

fun shell_event :: "env \<Rightarrow> event \<Rightarrow> bool" where
  "shell_event E (Spawn route c) = spawn_gate E c route"
| "shell_event E (ExecShell _) = True"
| "shell_event E (ExecShellTimeout _ _) = True"
| "shell_event E (Call _ _) = True"
| "shell_event E _ = False"

lemma bash_detached_emits [emits_intros]: "emits (shell_event E) (bash_detached E c)"
  unfolding bash_detached_def by (intro emits_intros; simp)

lemma bash_container_emits [emits_intros]: "emits (shell_event E) (bash_container E c t)"
  unfolding bash_container_def Let_def by (intro emits_intros; simp)

lemma tool_bash_emits [emits_intros]: "emits (shell_event E) (tool_bash E c t)"
proof (cases "ws_has_shell E \<and> (ws E = WS_DETACHED \<or> ws E = WS_CONTAINER)")
  case True
  then show ?thesis unfolding tool_bash_def by (auto intro!: emits_intros)
next
  case False
  then have t: "tool_bash E c t = bash_local E c t" by (auto simp: tool_bash_def)
  show ?thesis
    unfolding emits_def t
  proof
    fix h
    show "\<exists>evs. trace_of (bash_local E c t) h = h @ evs \<and> list_all (shell_event E) evs"
    proof (cases rule: bash_local_run [of E c t h])
      case none
      then show ?thesis by simp
    next
      case (child route rest)
      then show ?thesis by (intro exI [of _ "Spawn route c # rest"]) auto
    qed
  qed
qed

lemma td_bash_emits: "emits (shell_event E) (td_bash E args t)"
  unfolding td_bash_def by (intro emits_intros)

lemma td_run_tests_emits: "emits (shell_event E) (td_run_tests E args t)"
  unfolding td_run_tests_def tool_run_tests_def by (intro emits_intros)

fun script_event :: "event \<Rightarrow> bool" where
  "script_event (RunScript _ _ _) = True"
| "script_event (ExecShell _) = True"
| "script_event (ExecShellTimeout _ _) = True"
| "script_event (Call _ _) = True"
| "script_event _ = False"

lemma td_execute_script_emits: "emits script_event (td_execute_script E args)"
  unfolding td_execute_script_def script_in_container_def Let_def by (intro emits_intros; simp)

text \<open>Events of the file handlers.\<close>

fun file_event :: "env \<Rightarrow> event \<Rightarrow> bool" where
  "file_event E (Call _ _) = True"
| "file_event E (WriteRecord _ _) = True"
| "file_event E e = writes_gated E e"

fun read_event :: "env \<Rightarrow> event \<Rightarrow> bool" where
  "read_event E (ReadRecord _ _) = True"
| "read_event E e = reads_only E e"

lemma writes_gated_file: "writes_gated E e \<Longrightarrow> file_event E e"
  by (cases e) auto

lemma reads_only_read: "reads_only E e \<Longrightarrow> read_event E e"
  by (cases e) auto

lemmas file_tool_emits [emits_intros] =
  emits_weaken [OF write_file_emits writes_gated_file]
  emits_weaken [OF edit_file_emits writes_gated_file]
  emits_weaken [OF edit_anchored_emits writes_gated_file]
  emits_weaken [OF edit_symbol_emits writes_gated_file]
  emits_weaken [OF read_file_emits reads_only_read]
  emits_weaken [OF outline_emits reads_only_read]

lemma auto_snapshot_emits [emits_intros]: "emits (file_event E) (auto_snapshot_record E p)"
  unfolding auto_snapshot_record_def Let_def by (intro emits_intros; simp)

lemma record_write_emits [emits_intros]: "emits (file_event E) (record_write E p cwd sid)"
  unfolding record_write_def by (intro emits_intros; simp)

lemma td_read_file_emits: "emits (read_event E) (td_read_file E args cwd sid)"
  unfolding td_read_file_def by (intro emits_intros; simp)

lemma td_edit_file_emits: "emits (file_event E) (td_edit_file E args cwd sid)"
  unfolding td_edit_file_def Let_def by (intro emits_intros)

lemma td_write_file_emits: "emits (file_event E) (td_write_file E args cwd sid)"
  unfolding td_write_file_def Let_def by (intro emits_intros)

lemma td_edit_symbol_emits: "emits (file_event E) (td_edit_symbol E args cwd sid)"
  unfolding td_edit_symbol_def Let_def by (intro emits_intros)

lemma td_list_files_emits: "emits P (td_list_files E args)"
  unfolding td_list_files_def by (intro emits_intros list_files_emits)

lemma td_read_symbol_emits: "emits (reads_only E) (td_read_symbol E args)"
  unfolding td_read_symbol_def by (intro emits_intros read_symbol_emits)

lemma td_grep_emits: "emits (search_event E) (td_grep E args)"
  unfolding td_grep_def by (intro emits_intros grep_anchored_emits)

text \<open>The commands of the git tools and of \<open>verify\<close>.\<close>

fun verify_event :: "event \<Rightarrow> bool" where
  "verify_event (HostExec _) = True" | "verify_event _ = False"

fun log_event :: "event \<Rightarrow> bool" where
  "log_event (HostExec a) = (\<exists>q k. a = [''git'', ''-C'', q, ''log'', ''--oneline'', ''-n'', show_int k] \<and> 1 \<le> k \<and> k \<le> 50)"
| "log_event _ = False"

fun diff_event :: "event \<Rightarrow> bool" where
  "diff_event (ExecArgv a) = (\<exists>q ref. a = [''git'', ''-C'', q, ''diff''] @ ref \<and> length ref \<le> 1)"
| "diff_event _ = False"

fun status_event :: "event \<Rightarrow> bool" where
  "status_event (ExecArgv a) = (\<exists>q. a = [''git'', ''-C'', q, ''status'', ''--porcelain''])"
| "status_event _ = False"

lemma td_verify_emits: "emits verify_event (td_verify E args)"
  unfolding td_verify_def tool_verify_def verify_command_def Let_def by (intro emits_intros; simp)

lemma clamp_log: "1 \<le> clamp n 10 50 \<and> clamp n 10 50 \<le> 50"
  by (simp add: clamp_def Let_def)

lemma td_git_log_emits: "emits log_event (td_git_log E args cwd)"
  unfolding td_git_log_def tool_git_log_def Let_def
  by (intro emits_intros; simp) (use clamp_log in blast)

lemma td_git_diff_emits: "emits diff_event (td_git_diff E args cwd)"
  unfolding td_git_diff_def tool_git_diff_def Let_def by (intro emits_intros; simp add: git_diff_argv_def)

lemma td_git_status_emits: "emits status_event (td_git_status E args cwd)"
  unfolding td_git_status_def tool_git_status_def Let_def by (intro emits_intros; simp)

fun proc_event :: "event \<Rightarrow> bool" where
  "proc_event (ProcStart _ _) = True" | "proc_event _ = False"

lemma td_run_background_process_emits: "emits proc_event (td_run_background_process E args)"
  unfolding td_run_background_process_def Let_def by (intro emits_intros; simp)

lemma service_emits:
  "emits is_call (td_tool_output_get E args)"
  "emits is_call (td_git_write E args name cwd sid)"
  "emits is_call (td_mcp_tool E args name sid)"
  "emits is_call (td_env_get E args)"
  "emits is_call (td_test E args)"
  "emits is_call (td_request_input E args)"
  "emits is_call (td_code_search E args)"
  "emits is_call (td_find_symbol E args)"
  "emits is_call (td_search_memory E args)"
  "emits is_call (td_web_search E args)"
  "emits is_call (td_web_read E args)"
  "emits is_call (td_create_note E args)"
  "emits is_call (td_list_notes E args)"
  "emits is_call (td_search_notes E args)"
  by (unfold td_tool_output_get_def td_git_write_def td_mcp_tool_def td_env_get_def td_test_def
      td_request_input_def tool_request_input_def td_code_search_def td_find_symbol_def
      td_search_memory_def td_web_search_def td_web_read_def td_create_note_def tool_create_note_def
      td_list_notes_def td_search_notes_def Let_def) (intro emits_intros; simp)+

lemma service_emits_2:
  "emits is_call (td_get_background_output E args)"
  "emits is_call (td_kill_background_process E args)"
  "emits is_call (td_list_background_processes E)"
  "emits is_call (td_rules_propose E args)"
  "emits is_call (td_rules_list E)"
  "emits is_call (td_learning_propose E args)"
  "emits is_call (td_learning_review E args)"
  "emits is_call (td_clarify_start E args)"
  "emits is_call (td_clarify_answer E args)"
  "emits is_call (td_diagnose_start E args)"
  "emits is_call (td_diagnose_observe E args name)"
  "emits is_call (td_diagnose_evidence E args)"
  "emits is_call (td_diagnose_status E args)"
  "emits is_call (td_search_docs E args cwd)"
  by (unfold td_get_background_output_def td_kill_background_process_def
      td_list_background_processes_def td_rules_propose_def td_rules_list_def
      td_learning_propose_def td_learning_review_def td_clarify_start_def td_clarify_answer_def
      clarify_json_def td_diagnose_start_def td_diagnose_observe_def td_diagnose_evidence_def
      td_diagnose_status_def td_search_docs_def capture_outcome_def Let_def) (intro emits_intros; simp)+

end
