(* ===== verification/Dispatch.thy ===== *)
theory Dispatch
  imports Dispatch_Tools
begin

text \<open>
  The dispatcher: routing by tool name, the checks before it and the hooks around it
  (\<open>dispatch_tool_call_ctx_inner\<close> and the two public entries, \<open>agent_tools_dispatch.c\<close>,
  lines 1987 to 2445).
\<close>

section \<open>Routing\<close>

text \<open>The hand-written native tools, in the order of the code; \<open>None\<close> is any other name.\<close>

definition native_tool :: "env \<Rightarrow> cjson \<Rightarrow> string \<Rightarrow> string \<Rightarrow> string option \<Rightarrow> int
    \<Rightarrow> string option action option" where
  "native_tool E args name cwd sid timeout_ms =
     (if name = ''bash'' then Some (td_bash E args timeout_ms)
      else if name = ''execute_script'' then Some (td_execute_script E args)
      else if name = ''read_file'' then Some (td_read_file E args cwd sid)
      else if name = ''tool_output_get'' then Some (td_tool_output_get E args)
      else if name = ''edit_file'' then Some (td_edit_file E args cwd sid)
      else if name = ''write_file'' then Some (td_write_file E args cwd sid)
      else if name = ''list_files'' then Some (td_list_files E args)
      else if name = ''verify'' then Some (td_verify E args)
      else if name = ''git_log'' then Some (td_git_log E args cwd)
      else if name = ''grep'' then Some (td_grep E args)
      else if name = ''git_diff'' then Some (td_git_diff E args cwd)
      else if name = ''git_status'' then Some (td_git_status E args cwd)
      else if name = ''git_commit'' \<or> name = ''git_push'' \<or> name = ''git_branch'' \<or> name = ''git_pr''
      then Some (td_git_write E args name cwd sid)
      else if name = ''env_get'' then Some (td_env_get E args)
      else if name = ''test'' then Some (td_test E args)
      else if name = ''request_input'' then Some (td_request_input E args)
      else if name = ''code_search'' then Some (td_code_search E args)
      else if name = ''find_symbol'' then Some (td_find_symbol E args)
      else if name = ''read_symbol'' then Some (td_read_symbol E args)
      else if name = ''run_tests'' then Some (td_run_tests E args timeout_ms)
      else if name = ''edit_symbol'' then Some (td_edit_symbol E args cwd sid)
      else if name = ''search_memory'' then Some (td_search_memory E args)
      else if name = ''web_search'' then Some (td_web_search E args)
      else if name = ''web_read'' then Some (td_web_read E args)
      else if name = ''create_note'' then Some (td_create_note E args)
      else if name = ''list_notes'' then Some (td_list_notes E args)
      else if name = ''search_notes'' then Some (td_search_notes E args)
      else if name = ''run_background_process'' then Some (td_run_background_process E args)
      else if name = ''get_background_output'' then Some (td_get_background_output E args)
      else if name = ''kill_background_process'' then Some (td_kill_background_process E args)
      else if name = ''list_background_processes'' then Some (td_list_background_processes E)
      else if name = ''rules_propose'' then Some (td_rules_propose E args)
      else if name = ''rules_list'' then Some (td_rules_list E)
      else if name = ''learning_propose'' then Some (td_learning_propose E args)
      else if name = ''learning_review'' then Some (td_learning_review E args)
      else if name = ''clarify_start'' then Some (td_clarify_start E args)
      else if name = ''clarify_answer'' then Some (td_clarify_answer E args)
      else if name = ''diagnose_start'' then Some (td_diagnose_start E args)
      else if name = ''diagnose_observe'' \<or> name = ''diagnose_hypothesize''
      then Some (td_diagnose_observe E args name)
      else if name = ''diagnose_evidence'' then Some (td_diagnose_evidence E args)
      else if name = ''diagnose_status'' then Some (td_diagnose_status E args)
      else if name = ''search_docs'' then Some (td_search_docs E args cwd)
      else None)"

text \<open>A namespaced tool: hosted by this server, or routed to the knowledge service.\<close>

definition remote_mode :: "string option \<Rightarrow> string" where
  "remote_mode kind =
     (if kind = Some ''MCP_TRANSPORT_STDIO'' then ''outbound:stdio''
      else if kind = Some ''MCP_TRANSPORT_SSE'' then ''outbound:sse''
      else ''outbound'')"

definition remote_is_local :: "env \<Rightarrow> trace \<Rightarrow> string \<Rightarrow> bool" where
  "remote_is_local E h name =
     (let client = takeWhile (\<lambda>c. c \<noteq> CHR '':'') name in
      0 < length client \<and> length client < 128 \<and> call_int E h ''mcp_client_registry_get'' [JStr client] \<noteq> 0)"

definition remote_tool :: "tool_globals \<Rightarrow> env \<Rightarrow> cjson \<Rightarrow> string \<Rightarrow> int \<Rightarrow> td_outcome
    \<Rightarrow> (string option \<times> td_outcome) action" where
  "remote_tool g E args name timeout_ms t0 =
     do {
       kind \<leftarrow> ask (\<lambda>h. call_str E h ''mcp_client_registry_transport_kind'' [JStr name]);
       let t = t0\<lparr>td_mode := remote_mode kind\<rparr>;
       hosted \<leftarrow> ask (\<lambda>h. remote_is_local E h name);
       let f = (if hosted then ''mcp_client_registry_call_tool'' else ''kb_client_mcp_call'');
       let a = [JStr name, args, jint timeout_ms] @ (if hosted then [] else [opt_str (agent_tools_dispatch_role g)]);
       (rc, remote, err) \<leftarrow> perform (Call f a)
         (\<lambda>h. (call_int E h f a, call_json E h f a, cbuf 256 (or_else (call_str E h f a) [])));
       ret (if rc \<noteq> 0
            then (Some (cbuf 384 (''error: '' @ (if hosted then ''remote'' else ''kb-hosted'') @ '' mcp tool failed: ''
                    @ (if err \<noteq> [] then err else ''unknown error''))),
                  td_outcome_set ''error'' ''tool_error'' t)
            else (Some (or_else (case remote of Some j \<Rightarrow> cj_print (cj E) j | None \<Rightarrow> None)
                    ''{\"error\":\"failed to serialize remote tool result\"}''), t))
     }"

definition unknown_tool :: "env \<Rightarrow> trace \<Rightarrow> string \<Rightarrow> string" where
  "unknown_tool E h name =
     (let q = (\<lambda>s. [CHR 0x27] @ s @ [CHR 0x27]) in
      cbuf 256 (''error: unknown tool '' @ q name
        @ (case call_str E h ''tool_suggest'' [JStr name] of
             Some s \<Rightarrow> ''. Did you mean '' @ q s @ ''?'' | None \<Rightarrow> [])))"

definition route_tool :: "tool_globals \<Rightarrow> env \<Rightarrow> cjson \<Rightarrow> string \<Rightarrow> int \<Rightarrow> td_outcome
    \<Rightarrow> (string option \<times> td_outcome) action" where
  "route_tool g E args name timeout_ms t =
     (case native_tool E args name (dispatch_cwd E) (session_id E) timeout_ms of
        Some m \<Rightarrow> do { r \<leftarrow> m; ret (r, t) }
      | None \<Rightarrow>
          if strchr name CHR '':'' \<noteq> None then remote_tool g E args name timeout_ms t
          else do {
            derived \<leftarrow> ask (\<lambda>h. call_int E h ''agent_tools_is_mcp_derived'' [JStr name]);
            if derived \<noteq> 0 then do {
              r \<leftarrow> td_mcp_tool E args name (session_id E);
              ret (r, t)
            }
            else ask (\<lambda>h. (Some (unknown_tool E h name), td_outcome_set ''error'' ''unknown_tool'' t))
          })"

section \<open>The dispatch\<close>

definition dispatch_tool_call_ctx_inner :: "tool_globals \<Rightarrow> env \<Rightarrow> string \<Rightarrow> string \<Rightarrow> int \<Rightarrow> td_outcome
    \<Rightarrow> (string option \<times> td_outcome) action" where
  "dispatch_tool_call_ctx_inner g E name arguments_json timeout_ms t =
     (case cj_parse (cj E) arguments_json of
        None \<Rightarrow> ret (Some ''error: invalid arguments JSON'', td_outcome_set ''error'' ''bad_args'' t)
      | Some args0 \<Rightarrow> do {
          cancelled \<leftarrow> ask (tool_dispatch_cancelled E);
          case cancelled of
            Some msg \<Rightarrow> ret (Some msg, td_outcome_set ''refused'' ''cancelled'' t)
          | None \<Rightarrow> do {
              args \<leftarrow> ask (\<lambda>h. normalize_args E h name args0);
              denied \<leftarrow> ask (\<lambda>h. access_denied g E h name args);
              case denied of
                Some d \<Rightarrow> ret (Some (snd d), td_outcome_set ''refused'' (fst d) t)
              | None \<Rightarrow> do {
                  verdict \<leftarrow> guardrail_check E name arguments_json args;
                  case verdict of
                    Inl msg \<Rightarrow> ret (Some msg, td_outcome_set ''refused'' ''guardrail'' t)
                  | Inr args' \<Rightarrow> route_tool g E args' name timeout_ms t
                }
            }
        })"

definition dispatch_tool_call_ctx :: "tool_globals \<Rightarrow> env \<Rightarrow> string \<Rightarrow> string \<Rightarrow> int \<Rightarrow> string option action" where
  "dispatch_tool_call_ctx g E name arguments_json timeout_ms =
     dispatch_wrapper g E (dispatch_tool_call_ctx_inner g E name arguments_json timeout_ms) name"

definition dispatch_tool_call :: "tool_globals \<Rightarrow> env \<Rightarrow> string \<Rightarrow> string \<Rightarrow> int \<Rightarrow> string option action" where
  "dispatch_tool_call g E name arguments_json timeout_ms =
     dispatch_tool_call_ctx g E name arguments_json timeout_ms"

section \<open>What a tool may do\<close>

text \<open>The effects each tool name can have; every other name only makes outside calls.\<close>

datatype tool_family = ShellTool | ScriptTool | FileTool | ReadTool | SymbolTool | SearchTool
  | VerifyTool | LogTool | DiffTool | StatusTool | ProcTool | ServiceTool

definition tool_family :: "string \<Rightarrow> tool_family" where
  "tool_family name =
     (if name \<in> set [''bash'', ''run_tests''] then ShellTool
      else if name = ''execute_script'' then ScriptTool
      else if name \<in> set [''write_file'', ''edit_file'', ''edit_symbol''] then FileTool
      else if name = ''read_file'' then ReadTool
      else if name = ''read_symbol'' then SymbolTool
      else if name = ''grep'' then SearchTool
      else if name = ''verify'' then VerifyTool
      else if name = ''git_log'' then LogTool
      else if name = ''git_diff'' then DiffTool
      else if name = ''git_status'' then StatusTool
      else if name = ''run_background_process'' then ProcTool
      else ServiceTool)"

fun family_may :: "tool_family \<Rightarrow> env \<Rightarrow> event \<Rightarrow> bool" where
  "family_may ShellTool E = shell_event E"
| "family_may ScriptTool E = script_event"
| "family_may FileTool E = file_event E"
| "family_may ReadTool E = read_event E"
| "family_may SymbolTool E = reads_only E"
| "family_may SearchTool E = search_event E"
| "family_may VerifyTool E = verify_event"
| "family_may LogTool E = log_event"
| "family_may DiffTool E = diff_event"
| "family_may StatusTool E = status_event"
| "family_may ProcTool E = proc_event"
| "family_may ServiceTool E = is_call"

abbreviation tool_may :: "env \<Rightarrow> string \<Rightarrow> event \<Rightarrow> bool" where
  "tool_may E name \<equiv> family_may (tool_family name) E"

lemmas handler_emits = td_bash_emits td_run_tests_emits td_execute_script_emits td_read_file_emits
  td_edit_file_emits td_write_file_emits td_edit_symbol_emits td_list_files_emits td_read_symbol_emits
  td_grep_emits td_verify_emits td_git_log_emits td_git_diff_emits td_git_status_emits
  td_run_background_process_emits service_emits service_emits_2

lemma tool_families_1:
  "tool_family ''bash'' = ShellTool"
  "tool_family ''run_tests'' = ShellTool"
  "tool_family ''execute_script'' = ScriptTool"
  "tool_family ''write_file'' = FileTool"
  "tool_family ''edit_file'' = FileTool"
  "tool_family ''edit_symbol'' = FileTool"
  "tool_family ''read_file'' = ReadTool"
  "tool_family ''read_symbol'' = SymbolTool"
  by (simp_all add: tool_family_def)

lemma tool_families_2:
  "tool_family ''grep'' = SearchTool"
  "tool_family ''verify'' = VerifyTool"
  "tool_family ''git_log'' = LogTool"
  "tool_family ''git_diff'' = DiffTool"
  "tool_family ''git_status'' = StatusTool"
  "tool_family ''run_background_process'' = ProcTool"
  "tool_family ''tool_output_get'' = ServiceTool"
  "tool_family ''list_files'' = ServiceTool"
  by (simp_all add: tool_family_def)

lemma tool_families_3:
  "tool_family ''git_commit'' = ServiceTool"
  "tool_family ''git_push'' = ServiceTool"
  "tool_family ''git_branch'' = ServiceTool"
  "tool_family ''git_pr'' = ServiceTool"
  "tool_family ''env_get'' = ServiceTool"
  "tool_family ''test'' = ServiceTool"
  "tool_family ''request_input'' = ServiceTool"
  "tool_family ''code_search'' = ServiceTool"
  by (simp_all add: tool_family_def)

lemma tool_families_4:
  "tool_family ''find_symbol'' = ServiceTool"
  "tool_family ''search_memory'' = ServiceTool"
  "tool_family ''web_search'' = ServiceTool"
  "tool_family ''web_read'' = ServiceTool"
  "tool_family ''create_note'' = ServiceTool"
  "tool_family ''list_notes'' = ServiceTool"
  "tool_family ''search_notes'' = ServiceTool"
  "tool_family ''get_background_output'' = ServiceTool"
  by (simp_all add: tool_family_def)

lemma tool_families_5:
  "tool_family ''kill_background_process'' = ServiceTool"
  "tool_family ''list_background_processes'' = ServiceTool"
  "tool_family ''rules_propose'' = ServiceTool"
  "tool_family ''rules_list'' = ServiceTool"
  "tool_family ''learning_propose'' = ServiceTool"
  "tool_family ''learning_review'' = ServiceTool"
  "tool_family ''clarify_start'' = ServiceTool"
  "tool_family ''clarify_answer'' = ServiceTool"
  by (simp_all add: tool_family_def)

lemma tool_families_6:
  "tool_family ''diagnose_start'' = ServiceTool"
  "tool_family ''diagnose_observe'' = ServiceTool"
  "tool_family ''diagnose_hypothesize'' = ServiceTool"
  "tool_family ''diagnose_evidence'' = ServiceTool"
  "tool_family ''diagnose_status'' = ServiceTool"
  "tool_family ''search_docs'' = ServiceTool"
  by (simp_all add: tool_family_def)

lemmas tool_families = tool_families_1 tool_families_2 tool_families_3 tool_families_4 tool_families_5 tool_families_6

lemma if_SomeE:
  "(if c then Some a else b) = Some m \<Longrightarrow> (c \<Longrightarrow> m = a \<Longrightarrow> R) \<Longrightarrow> (b = Some m \<Longrightarrow> R) \<Longrightarrow> R"
  by (cases c) auto

lemma native_tool_emits:
  assumes "native_tool E args name cwd sid t = Some m"
  shows "emits (tool_may E name) m"
  using assms unfolding native_tool_def
  by (elim if_SomeE disjE) (simp_all only: tool_families family_may.simps handler_emits option.distinct)

section \<open>How a call runs\<close>

text \<open>The calls of the guardrail, and its verdict after the effects \<open>h\<close>.\<close>

definition guard_args :: "env \<Rightarrow> string \<Rightarrow> string \<Rightarrow> cjson list" where
  "guard_args E name json = [JStr name, JStr (guardrail_input_json E name json), JStr (dispatch_cwd E)]"

definition guard_calls :: "env \<Rightarrow> string \<Rightarrow> string \<Rightarrow> trace" where
  "guard_calls E name json =
     [Call ''db1_init'' [], Call ''pre_tool_check'' (guard_args E name json),
      Call ''session_state_save'' [opt_str (session_id E)]]"

definition guard_verdict :: "env \<Rightarrow> trace \<Rightarrow> string \<Rightarrow> string \<Rightarrow> cjson \<Rightarrow> string + cjson" where
  "guard_verdict E h name json args =
     (let h' = h @ [Call ''db1_init'' []]; a = guard_args E name json in
      apply_guardrail E (call_int E h' ''pre_tool_check'' a)
        (cbuf 1024 (or_else (call_str E h' ''pre_tool_check.msg'' a) [])) args)"

lemma run_guardrail_check:
  "run_state (guardrail_check E name json args) h =
     (guard_verdict E h name json args, h @ guard_calls E name json)"
  by (simp add: guardrail_check_def guard_verdict_def guard_calls_def guard_args_def Let_def)

lemma guard_calls_calls: "list_all is_call (guard_calls E name json)"
  by (simp add: guard_calls_def)

text \<open>The five ways a call can go.\<close>

datatype fate =
    BadArgs
  | Cancelled string
  | Denied "string \<times> string"
  | Blocked string
  | Routed cjson

definition call_fate :: "tool_globals \<Rightarrow> env \<Rightarrow> trace \<Rightarrow> string \<Rightarrow> string \<Rightarrow> fate" where
  "call_fate g E h name json =
     (case cj_parse (cj E) json of
        None \<Rightarrow> BadArgs
      | Some args0 \<Rightarrow>
          (case tool_dispatch_cancelled E h of
             Some msg \<Rightarrow> Cancelled msg
           | None \<Rightarrow>
               let args = normalize_args E h name args0 in
               (case access_denied g E h name args of
                  Some d \<Rightarrow> Denied d
                | None \<Rightarrow>
                    (case guard_verdict E h name json args of
                       Inl msg \<Rightarrow> Blocked msg
                     | Inr args' \<Rightarrow> Routed args'))))"

lemma inner_run:
  "run_state (dispatch_tool_call_ctx_inner g E name json tm t) h =
     (case call_fate g E h name json of
        BadArgs \<Rightarrow> ((Some ''error: invalid arguments JSON'', td_outcome_set ''error'' ''bad_args'' t), h)
      | Cancelled msg \<Rightarrow> ((Some msg, td_outcome_set ''refused'' ''cancelled'' t), h)
      | Denied d \<Rightarrow> ((Some (snd d), td_outcome_set ''refused'' (fst d) t), h)
      | Blocked msg \<Rightarrow> ((Some msg, td_outcome_set ''refused'' ''guardrail'' t), h @ guard_calls E name json)
      | Routed args \<Rightarrow> run_state (route_tool g E args name tm t) (h @ guard_calls E name json))"
  by (simp add: dispatch_tool_call_ctx_inner_def call_fate_def run_guardrail_check Let_def
      split: option.split sum.split)

text \<open>What routing emits: only what the tool's name allows.\<close>

lemma remote_tool_emits [emits_intros]: "emits is_call (remote_tool g E args name tm t)"
  unfolding remote_tool_def Let_def by (intro emits_intros) auto

lemma route_tool_emits: "emits (\<lambda>e. tool_may E name e \<or> is_call e) (route_tool g E args name tm t)"
proof (cases "native_tool E args name (dispatch_cwd E) (session_id E) tm")
  case None
  have "emits is_call (route_tool g E args name tm t)"
    unfolding route_tool_def None option.case by (intro emits_intros service_emits)
  then show ?thesis by (rule emits_weaken) simp
next
  case (Some m)
  have "emits (\<lambda>e. tool_may E name e \<or> is_call e) m"
    using native_tool_emits [OF Some] by (rule emits_weaken) simp
  then show ?thesis
    unfolding route_tool_def Some option.case by (intro emits_intros)
qed

text \<open>An event of a call that is no hook and no outside call means the call was routed.\<close>

lemma inner_event:
  assumes "run_state (dispatch_tool_call_ctx_inner g E name json tm t) h = (r, h @ evs)"
    and "e \<in> set evs" "\<not> is_call e"
  shows "(\<exists>args. call_fate g E h name json = Routed args) \<and> tool_may E name e"
proof -
  have gc: "e \<notin> set (guard_calls E name json)"
    using guard_calls_calls [of E name json] assms(3) by (auto simp: list_all_iff)
  show ?thesis
  proof (cases "call_fate g E h name json")
    case (Routed args)
    let ?h = "h @ guard_calls E name json"
    have "run_state (route_tool g E args name tm t) ?h = (r, h @ evs)"
      using assms(1) Routed by (simp add: inner_run)
    with route_tool_emits obtain evs' where
      "h @ evs = ?h @ evs'" "list_all (\<lambda>e. tool_may E name e \<or> is_call e) evs'" by (rule emitsE)
    then show ?thesis using assms(2,3) gc Routed by (auto simp: list_all_iff)
  qed (use assms gc in \<open>auto simp: inner_run\<close>)
qed

section \<open>The contract of the inner dispatch\<close>

lemma family_not_hook: "family_may f E e \<Longrightarrow> \<not> is_hook e"
  by (cases f; cases e) auto

lemma call_not_hook: "is_call e \<Longrightarrow> \<not> is_hook e"
  by (cases e) auto

lemma access_denied_reason: "access_denied g E h name args = Some d \<Longrightarrow> fst d \<in> reasons"
  by (auto simp: access_denied_def Let_def reasons_def split: if_splits option.splits)

lemma inner_no_hook: "emits (\<lambda>e. \<not> is_hook e) (dispatch_tool_call_ctx_inner g E name json tm t)"
  unfolding emits_def
proof
  fix h
  let ?m = "dispatch_tool_call_ctx_inner g E name json tm t"
  have gc: "list_all (\<lambda>e. \<not> is_hook e) (guard_calls E name json)"
    using guard_calls_calls [of E name json] by (auto simp: list_all_iff call_not_hook)
  show "\<exists>evs. trace_of ?m h = h @ evs \<and> list_all (\<lambda>e. \<not> is_hook e) evs"
  proof (cases "call_fate g E h name json")
    case (Routed args)
    have "emits (\<lambda>e. \<not> is_hook e) (route_tool g E args name tm t)"
      using route_tool_emits by (rule emits_weaken) (auto dest: family_not_hook call_not_hook)
    from emits_trace [OF this, of "h @ guard_calls E name json"]
    show ?thesis using gc Routed by (auto simp: inner_run trace_of_def)
  qed (use gc in \<open>auto simp: inner_run trace_of_def\<close>)
qed

lemma remote_mode_modes: "remote_mode kind \<in> modes"
  by (simp add: remote_mode_def modes_def)

lemma result_bind: "result_of (State_Monad.bind m f) h = result_of (f (result_of m h)) (trace_of m h)"
  by (simp add: result_of_def trace_of_def split: prod.split)

lemma remote_tool_outcome:
  assumes "td_ok t"
  shows "td_ok (snd (result_of (remote_tool g E args name tm t) h))"
proof -
  have "td_ok (t\<lparr>td_mode := remote_mode kind\<rparr>)" for kind
    using assms remote_mode_modes [of kind] by (simp add: td_ok_def)
  moreover from this have "td_ok (td_outcome_set ''error'' ''tool_error'' (t\<lparr>td_mode := remote_mode kind\<rparr>))" for kind
    by (rule td_ok_set) (simp_all add: verdicts_def reasons_def)
  ultimately show ?thesis
    unfolding remote_tool_def Let_def by (simp add: result_of_def split: if_split)
qed

lemma route_tool_outcome:
  assumes "td_ok t"
  shows "td_ok (snd (result_of (route_tool g E args name tm t) h))"
proof -
  have "td_ok (td_outcome_set ''error'' ''unknown_tool'' t)"
    using assms by (rule td_ok_set) (simp_all add: verdicts_def reasons_def)
  then show ?thesis
    using assms remote_tool_outcome [OF assms]
    by (simp add: route_tool_def result_of_def split: option.split prod.split)
qed

lemma inner_outcome_ok:
  assumes "td_ok t"
  shows "td_ok (snd (result_of (dispatch_tool_call_ctx_inner g E name json tm t) h))"
proof -
  have set: "td_ok (td_outcome_set v r t)" if "v \<in> verdicts" "r \<in> reasons" for v r
    using assms that by (rule td_ok_set)
  have "fst d \<in> reasons" if "call_fate g E h name json = Denied d" for d
    using that by (auto simp: call_fate_def Let_def dest: access_denied_reason
        split: option.splits sum.splits)
  then show ?thesis
    using set route_tool_outcome [OF assms, of g E _ name tm "h @ guard_calls E name json"]
    by (simp add: result_of_def inner_run verdicts_def reasons_def split: fate.split)
qed

interpretation dispatched: inner_dispatch "dispatch_tool_call_ctx_inner g E name json tm"
  for g E name json tm
  by unfold_locales (rule inner_no_hook, erule inner_outcome_ok)

text \<open>The trace of a whole call: the hooks around what the inner dispatch did.\<close>

definition started_hook :: "tool_globals \<Rightarrow> string \<Rightarrow> trace" where
  "started_hook g name =
     (case g_tool_event_cb g of Some cb \<Rightarrow> [ToolEvent cb ''started'' name (g_tool_event_ud g)] | None \<Rightarrow> [])"

lemma dispatch_event:
  assumes "e \<in> set (drop (length h) (trace_of (dispatch_tool_call g E name json tm) h))"
    and "\<not> is_call e" "\<not> is_hook e"
  shows "(\<exists>args. call_fate g E (h @ started_hook g name) name json = Routed args) \<and> tool_may E name e"
proof -
  let ?h = "h @ started_hook g name" and ?m = "dispatch_tool_call_ctx_inner g E name json tm td_outcome_reset"
  obtain res t evs where r: "run_state ?m ?h = ((res, t), ?h @ evs)"
    using emits_trace [OF inner_no_hook, of g E name json tm td_outcome_reset ?h]
    by (metis surj_pair trace_of_def snd_conv)
  then have "e \<in> set evs"
    using assms by (auto simp: dispatch_tool_call_def dispatch_tool_call_ctx_def dispatch_wrapper_def
        trace_of_def run_emit_tool_event run_emit_tool_completion started_hook_def Let_def
        split: option.splits)
  with inner_event [OF r] assms(2) show ?thesis by blast
qed

text \<open>A call that is not routed: the hooks, and the calls of the guardrail if it got there.\<close>

lemma dispatch_unrouted:
  assumes "run_state (dispatch_tool_call_ctx_inner g E name json tm td_outcome_reset) (h @ started_hook g name)
      = ((Some msg, td_outcome_set v r td_outcome_reset), h @ started_hook g name @ calls)"
    and "g_completion_cb g = Some cb"
  shows "run_state (dispatch_tool_call g E name json tm) h =
    (Some msg, h @ started_hook g name @ calls
       @ (case g_tool_event_cb g of
            Some c \<Rightarrow> [ToolEvent c ''completed'' name (g_tool_event_ud g)] | None \<Rightarrow> [])
       @ [Completion cb name (td_report E (td_outcome_set v r td_outcome_reset)) (g_completion_ud g)])"
proof -
  have "td_finish g E name (Some msg) (td_outcome_set v r td_outcome_reset) = td_outcome_set v r td_outcome_reset"
    by (rule td_finish_explicit) (simp add: td_outcome_set_def)
  then show ?thesis
    using assms by (simp add: dispatch_tool_call_def dispatch_tool_call_ctx_def dispatch_wrapper_def
        run_emit_tool_event run_emit_tool_completion started_hook_def Let_def split: option.split)
qed

section \<open>Which names do what\<close>

lemma family_names:
  "tool_family name = ShellTool \<Longrightarrow> name = ''bash'' \<or> name = ''run_tests''"
  "tool_family name = ScriptTool \<Longrightarrow> name = ''execute_script''"
  "tool_family name = FileTool \<Longrightarrow> name = ''write_file'' \<or> name = ''edit_file'' \<or> name = ''edit_symbol''"
  "tool_family name = SearchTool \<Longrightarrow> name = ''grep''"
  "tool_family name = VerifyTool \<Longrightarrow> name = ''verify''"
  "tool_family name = LogTool \<Longrightarrow> name = ''git_log''"
  "tool_family name = DiffTool \<Longrightarrow> name = ''git_diff''"
  "tool_family name = StatusTool \<Longrightarrow> name = ''git_status''"
  "tool_family name = ProcTool \<Longrightarrow> name = ''run_background_process''"
  by (auto simp: tool_family_def split: if_splits)

text \<open>What a command or a write event of a call says about the name of the tool.\<close>

lemma tool_may_names:
  "tool_may E name (WriteAll q b) \<Longrightarrow> tool_family name = FileTool \<and> writes_gated E (WriteAll q b)"
  "tool_may E name (Spawn route c) \<Longrightarrow> tool_family name = ShellTool \<and> spawn_gate E c route"
  "tool_may E name (ExecShell c) \<Longrightarrow> tool_family name = ShellTool \<or> tool_family name = ScriptTool"
  "tool_may E name (ExecShellTimeout c n) \<Longrightarrow> tool_family name = ShellTool \<or> tool_family name = ScriptTool"
  "tool_may E name (RunScript l c n) \<Longrightarrow> tool_family name = ScriptTool"
  "tool_may E name (ProcStart c d) \<Longrightarrow> tool_family name = ProcTool"
  "tool_may E name (ExecArgv a) \<Longrightarrow> tool_family name = DiffTool \<and> diff_event (ExecArgv a)
     \<or> tool_family name = StatusTool \<and> status_event (ExecArgv a)"
  "tool_may E name (HostExec a) \<Longrightarrow> tool_family name = VerifyTool
     \<or> tool_family name = LogTool \<and> log_event (HostExec a)
     \<or> tool_family name = SearchTool \<and> (\<exists>k pt q. a = grep_argv k pt q)"
  by (cases "tool_family name"; simp)+

lemma if_None: "((if c then Some a else b) = None) \<longleftrightarrow> \<not> c \<and> b = None"
  by simp

definition native_names :: "string list" where
  "native_names = [''bash'', ''execute_script'', ''read_file'', ''tool_output_get'', ''edit_file'',
     ''write_file'', ''list_files'', ''verify'', ''git_log'', ''grep'', ''git_diff'', ''git_status'',
     ''git_commit'', ''git_push'', ''git_branch'', ''git_pr'', ''env_get'', ''test'',
     ''request_input'', ''code_search'', ''find_symbol'', ''read_symbol'', ''run_tests'',
     ''edit_symbol'', ''search_memory'', ''web_search'', ''web_read'', ''create_note'',
     ''list_notes'', ''search_notes'', ''run_background_process'', ''get_background_output'',
     ''kill_background_process'', ''list_background_processes'', ''rules_propose'', ''rules_list'',
     ''learning_propose'', ''learning_review'', ''clarify_start'', ''clarify_answer'',
     ''diagnose_start'', ''diagnose_observe'', ''diagnose_hypothesize'', ''diagnose_evidence'',
     ''diagnose_status'', ''search_docs'']"

lemma native_tool_None: "native_tool E args name cwd sid tm = None \<longleftrightarrow> name \<notin> set native_names"
  unfolding native_tool_def native_names_def
  by (simp only: if_None list.set insert_iff empty_iff de_Morgan_disj simp_thms conj_assoc)

section \<open>A call at a concrete environment\<close>

text \<open>A call of \<open>bash\<close> with the command \<open>ls\<close>, in an environment that permits it.\<close>

definition permits :: "string list \<Rightarrow> trace \<Rightarrow> string \<Rightarrow> cjson list \<Rightarrow> int" where
  "permits fs h f a = (if f \<in> set fs then 1 else 0)"

definition all_permissions :: "string list" where
  "all_permissions = [''agent_tools_shell_allowed'', ''agent_tools_tool_allowed_for_role'',
     ''agent_tools_knowledge_write_allowed'']"

definition ls_args :: cjson where
  "ls_args = JObj [(''command'', JStr ''ls'')]"

definition call_env :: "cjson \<Rightarrow> string list \<Rightarrow> env" where
  "call_env args fs = ref_env\<lparr>cj := ref_cjson (\<lambda>_. Some args), call_int := permits fs\<rparr>"

definition hooked :: tool_globals where
  "hooked = globals_init\<lparr>g_completion_cb := Some 1, g_tool_event_cb := Some 2\<rparr>"

definition report :: "string \<Rightarrow> string \<Rightarrow> outcome" where
  "report v r = \<lparr>o_actor = ''s1'', o_verdict = v, o_reason = r, o_mode = ''internal''\<rparr>"

lemmas call_env_simps = call_env_def ref_env_def ref_cjson_def permits_def all_permissions_def ls_args_def
  call_fate_def tool_dispatch_cancelled_def agent_delegation_stop_requested_def normalize_args_def
  resolve_aliases_def aliases_def resolve_alias_def int_fields_def coerce_int_field_def
  access_denied_def agent_tools_dispatch_role_def hooked_def globals_init_def shell_command_def
  command_uses_aimee_stale_context_def guard_verdict_def apply_guardrail_def to_lower_def Let_def

lemma ls_routed: "call_fate hooked (call_env ls_args all_permissions) h ''bash'' json = Routed ls_args"
  by (simp add: call_env_simps)

text \<open>What the call runs once it is routed.\<close>

lemma ls_bash_run:
  "\<exists>r. run_state (tool_bash (call_env ls_args all_permissions) ''ls'' 1000) h =
     (Some r, h @ [Spawn (SandboxPlain None) ''ls'', killed, waited])"
  by (simp add: tool_bash_def bash_local_def bash_start_def try_spawn_def call_env_def ref_env_def
      sandbox_workspace_dir_def bash_cwd_def cbuf_def bash_capture_def kill_and_wait_def
      stream_init_def ref_cjson_def Let_def)

lemma bash_call_event:
  assumes "call_fate g E (h @ started_hook g ''bash'') ''bash'' json = Routed args"
    and "e \<in> set (trace_of (td_bash E args tm) (h @ started_hook g ''bash'' @ guard_calls E ''bash'' json))"
  shows "e \<in> set (trace_of (dispatch_tool_call g E ''bash'' json tm) h)"
  using assms by (auto simp: dispatch_tool_call_def dispatch_tool_call_ctx_def dispatch_wrapper_def trace_of_def
      run_emit_tool_event run_emit_tool_completion started_hook_def inner_run route_tool_def native_tool_def Let_def
      split: option.split prod.splits)

lemma ls_call_spawns:
  "Spawn (SandboxPlain None) ''ls''
     \<in> set (trace_of (dispatch_tool_call hooked (call_env ls_args all_permissions) ''bash'' json 1000) [])"
proof (rule bash_call_event [OF ls_routed])
  have "td_bash (call_env ls_args all_permissions) ls_args 1000 = tool_bash (call_env ls_args all_permissions) ''ls'' 1000"
    by (simp add: td_bash_def call_env_def ref_env_def ref_cjson_def ls_args_def to_lower_def)
  then show "Spawn (SandboxPlain None) ''ls'' \<in> set (trace_of (td_bash (call_env ls_args all_permissions) ls_args 1000) h)" for h
    using ls_bash_run [of h] by (auto simp: trace_of_def)
qed

section \<open>Properties\<close>

text \<open>C1. No effect without the gates: a command or a file write during a call, whatever the tool,
  means that the arguments parsed as JSON, the delegation was not cancelled, no access check
  refused the call with its normalised arguments, and the guardrail let it pass, all decided
  before the effect.\<close>

theorem effects_need_gates:
  assumes "e \<in> set (drop (length h) (trace_of (dispatch_tool_call g E name json tm) h))"
    and "is_command e \<or> is_write e"
  shows "\<exists>args0 args'. let h' = h @ started_hook g name; args = normalize_args E h' name args0 in
    cj_parse (cj E) json = Some args0 \<and> tool_dispatch_cancelled E h' = None
    \<and> access_denied g E h' name args = None \<and> guard_verdict E h' name json args = Inr args'"
proof -
  have "\<not> is_call e" "\<not> is_hook e" using assms(2) by (cases e; simp)+
  from dispatch_event [OF assms(1) this] obtain args'
    where "call_fate g E (h @ started_hook g name) name json = Routed args'" by blast
  then show ?thesis
    by (auto simp: call_fate_def Let_def split: option.splits sum.splits)
qed

theorem effects_need_gates_witness:
  "Spawn (SandboxPlain None) ''ls''
      \<in> set (trace_of (dispatch_tool_call hooked (call_env ls_args all_permissions) ''bash'' ''x'' 1000) [])
   \<and> tool_dispatch_cancelled (call_env ls_args all_permissions) (started_hook hooked ''bash'') = None"
  using ls_call_spawns [of "''x''"] effects_need_gates
    [where e = "Spawn (SandboxPlain None) ''ls''" and h = "[]" and g = hooked
      and E = "call_env ls_args all_permissions" and name = "''bash''" and json = "''x''" and tm = 1000]
  by (auto simp: Let_def)

text \<open>C2. The name of the tool bounds what a call can do: only the three file tools write, and
  only to validated paths of a thread that may write; only \<open>bash\<close> and \<open>run_tests\<close> start a
  shell on this host, and only through its gates; only they and \<open>execute_script\<close> use the
  shell of the provider; only \<open>run_background_process\<close> starts a background process; and the
  remaining commands are the command of \<open>verify\<close>, the search of \<open>grep\<close>, and the argument
  vectors of \<open>git diff\<close>, \<open>git status\<close> and \<open>git log\<close> as they stand here.\<close>

theorem effects_bounded_by_name:
  assumes "e \<in> set (drop (length h) (trace_of (dispatch_tool_call g E name json tm) h))"
  shows "case e of
      WriteAll q body \<Rightarrow> name \<in> {''write_file'', ''edit_file'', ''edit_symbol''}
        \<and> (\<exists>r. validate_path E q = Inr r) \<and> \<not> readonly_delegate E \<and> \<not> parent_guard_blocks E q None
    | Spawn route c \<Rightarrow> name \<in> {''bash'', ''run_tests''} \<and> spawn_gate E c route
    | ExecShell c \<Rightarrow> name \<in> {''bash'', ''run_tests'', ''execute_script''}
    | ExecShellTimeout c n \<Rightarrow> name \<in> {''bash'', ''run_tests'', ''execute_script''}
    | RunScript l c n \<Rightarrow> name = ''execute_script''
    | ProcStart c d \<Rightarrow> name = ''run_background_process''
    | ExecArgv a \<Rightarrow> name = ''git_diff'' \<and> (\<exists>q ref. a = [''git'', ''-C'', q, ''diff''] @ ref \<and> length ref \<le> 1)
        \<or> name = ''git_status'' \<and> (\<exists>q. a = [''git'', ''-C'', q, ''status'', ''--porcelain''])
    | HostExec a \<Rightarrow> name = ''verify''
        \<or> name = ''git_log''
          \<and> (\<exists>q k. a = [''git'', ''-C'', q, ''log'', ''--oneline'', ''-n'', show_int k] \<and> 1 \<le> k \<and> k \<le> 50)
        \<or> name = ''grep'' \<and> (\<exists>k pt q. a = grep_argv k pt q)
    | _ \<Rightarrow> True"
proof (cases "is_call e \<or> is_hook e")
  case True
  then show ?thesis by (cases e) simp_all
next
  case False
  with dispatch_event [OF assms] have "tool_may E name e" by blast
  then show ?thesis
    by (cases e) (auto dest: tool_may_names(1-8) dest!: family_names)
qed

theorem effects_bounded_by_name_witness:
  "Spawn (SandboxPlain None) ''ls''
      \<in> set (trace_of (dispatch_tool_call hooked (call_env ls_args all_permissions) ''bash'' ''x'' 1000) [])
   \<and> spawn_gate (call_env ls_args all_permissions) ''ls'' (SandboxPlain None)"
  using ls_call_spawns [of "''x''"] effects_bounded_by_name
    [where e = "Spawn (SandboxPlain None) ''ls''" and h = "[]" and g = hooked
      and E = "call_env ls_args all_permissions" and name = "''bash''" and json = "''x''" and tm = 1000]
  by simp

text \<open>C5. A refused call does nothing and says so: when an access check refuses, the call adds
  only the hook events to the world, its result is the message of the refusal, and the
  completion hook reports the verdict \<open>refused\<close> with the reason of the check.\<close>

theorem refused_call_has_no_effect:
  assumes "cj_parse (cj E) json = Some args0" "tool_dispatch_cancelled E h' = None"
    and "access_denied g E h' name (normalize_args E h' name args0) = Some (reason, msg)"
    and "h' = h @ started_hook g name" "g_completion_cb g = Some cb"
  shows "run_state (dispatch_tool_call g E name json tm) h =
    (Some msg, h' @ (case g_tool_event_cb g of
            Some c \<Rightarrow> [ToolEvent c ''completed'' name (g_tool_event_ud g)] | None \<Rightarrow> [])
       @ [Completion cb name (td_report E (td_outcome_set ''refused'' reason td_outcome_reset)) (g_completion_ud g)])"
  using dispatch_unrouted [of g E name json tm h msg "''refused''" reason "[]" cb] assms
  by (simp add: inner_run call_fate_def Let_def)

text \<open>A delegate without the shell permission: nothing of the command is even looked at.\<close>

lemma no_shell_denied:
  assumes "name \<in> {''bash'', ''execute_script''}" "\<not> shell_allowed E h"
  shows "access_denied g E h name args = Some (''permission'', permission_msg)"
  using assms by (auto simp: access_denied_def Let_def)

theorem refused_call_has_no_effect_witness:
  "run_state (dispatch_tool_call hooked (call_env ls_args []) ''bash'' ''x'' 1000) [] =
    (Some permission_msg, [ToolEvent 2 ''started'' ''bash'' 0, ToolEvent 2 ''completed'' ''bash'' 0,
       Completion 1 ''bash'' (report ''refused'' ''permission'') 0])"
proof -
  let ?E = "call_env ls_args []"
  have "\<not> shell_allowed ?E h" for h by (simp add: call_env_def permits_def)
  then have "access_denied g ?E h ''bash'' args = Some (''permission'', permission_msg)" for g h args
    by (rule no_shell_denied [rotated]) simp
  moreover have "cj_parse (cj ?E) ''x'' = Some ls_args" "tool_dispatch_cancelled ?E h = None" for h
    by (simp_all add: call_env_simps)
  ultimately show ?thesis
    using refused_call_has_no_effect [where E = ?E and json = "''x''" and ?args0.0 = ls_args and g = hooked
        and h = "[]" and name = "''bash''" and cb = 1 and tm = 1000]
    by (simp add: started_hook_def hooked_def globals_init_def td_report_def td_outcome_set_def
        td_outcome_reset_def report_def call_env_def ref_env_def)
qed

text \<open>C6. Every call is reported exactly once: with a completion hook registered, a call ends
  with one report of its own name, it makes no other report, and the verdict, the reason and
  the mode come from the fixed vocabulary, whatever the tool or the arguments.\<close>

theorem completion_reported_once:
  assumes "g_completion_cb g = Some cb"
  shows "\<exists>evs oc. trace_of (dispatch_tool_call g E name json tm) h =
      h @ evs @ [Completion cb name oc (g_completion_ud g)]
    \<and> (\<forall>e \<in> set evs. \<forall>c n oc u. e \<noteq> Completion c n oc u)
    \<and> o_verdict oc \<in> {''ok'', ''error'', ''timeout'', ''refused''}
    \<and> o_reason oc \<in> {'''', ''guardrail'', ''role'', ''cancelled'', ''tool_error'', ''timeout'',
         ''unknown_tool'', ''bad_args'', ''policy'', ''permission''}
    \<and> o_mode oc \<in> {''internal'', ''outbound'', ''outbound:stdio'', ''outbound:sse''}"
proof -
  have "\<exists>evs t. trace_of (dispatch_tool_call g E name json tm) h =
      h @ evs @ [Completion cb name (td_report E t) (g_completion_ud g)]
    \<and> (\<forall>e \<in> set evs. \<forall>c n oc u. e \<noteq> Completion c n oc u) \<and> td_ok t"
    unfolding dispatch_tool_call_def dispatch_tool_call_ctx_def
    by (rule dispatched.completion_once [OF assms])
  then obtain evs t where "trace_of (dispatch_tool_call g E name json tm) h =
      h @ evs @ [Completion cb name (td_report E t) (g_completion_ud g)]"
    and "\<forall>e \<in> set evs. \<forall>c n oc u. e \<noteq> Completion c n oc u" and "td_ok t"
    by blast
  then show ?thesis
    by (intro exI [of _ evs] exI [of _ "td_report E t"])
      (simp add: td_ok_def td_report_def verdicts_def reasons_def modes_def)
qed

theorem completion_reported_once_witness:
  "\<exists>evs oc. trace_of (dispatch_tool_call hooked ref_env ''bash'' ''x'' 1000) [] =
      evs @ [Completion 1 ''bash'' oc 0] \<and> o_verdict oc \<in> {''ok'', ''error'', ''timeout'', ''refused''}"
proof -
  have "g_completion_cb hooked = Some 1" "g_completion_ud hooked = 0"
    by (simp_all add: hooked_def globals_init_def)
  with completion_reported_once [OF this(1), of ref_env "''bash''" "''x''" 1000 "[]"]
  show ?thesis by auto
qed

text \<open>C27. A name nobody knows: a routed call whose name is no native tool, has no colon and is no
  derived tool does nothing, answers with the error that names it, and is reported as the
  error \<open>unknown_tool\<close>.\<close>

theorem unknown_name_reported:
  assumes "call_fate g E h' name json = Routed args" "h' = h @ started_hook g name"
    and "name \<notin> set native_names" "CHR '':'' \<notin> set name"
    and "call_int E (h' @ guard_calls E name json) ''agent_tools_is_mcp_derived'' [JStr name] = 0"
    and "g_completion_cb g = Some cb"
  shows "run_state (dispatch_tool_call g E name json tm) h =
    (Some (unknown_tool E (h' @ guard_calls E name json) name),
     h' @ guard_calls E name json
       @ (case g_tool_event_cb g of
            Some c \<Rightarrow> [ToolEvent c ''completed'' name (g_tool_event_ud g)] | None \<Rightarrow> [])
       @ [Completion cb name (td_report E (td_outcome_set ''error'' ''unknown_tool'' td_outcome_reset)) (g_completion_ud g)])"
proof -
  have "native_tool E args name (dispatch_cwd E) (session_id E) tm = None"
    using assms(3) by (simp add: native_tool_None)
  moreover have "strchr name CHR '':'' = None" using assms(4) by (simp add: strchr_None_iff)
  ultimately show ?thesis
    using dispatch_unrouted [of g E name json tm h _ "''error''" "''unknown_tool''" "guard_calls E name json" cb]
      assms by (simp add: inner_run route_tool_def)
qed

theorem unknown_name_reported_witness:
  "\<exists>evs. run_state (dispatch_tool_call hooked (call_env ls_args all_permissions) ''bsh'' ''x'' 1000) [] =
     (Some (''error: unknown tool '' @ [CHR 0x27] @ ''bsh'' @ [CHR 0x27]),
      evs @ [Completion 1 ''bsh'' (report ''error'' ''unknown_tool'') 0])"
proof -
  let ?E = "call_env ls_args all_permissions"
  have "call_fate hooked ?E (started_hook hooked ''bsh'') ''bsh'' ''x'' = Routed ls_args"
    by (simp add: call_env_simps)
  moreover have "unknown_tool ?E h ''bsh'' = ''error: unknown tool '' @ [CHR 0x27] @ ''bsh'' @ [CHR 0x27]" for h
    by (simp add: unknown_tool_def call_env_def ref_env_def cbuf_def)
  ultimately show ?thesis
    using unknown_name_reported [of hooked ?E "started_hook hooked ''bsh''" "''bsh''" "''x''" ls_args "[]" 1 1000]
    by (simp add: native_names_def call_env_def permits_def all_permissions_def hooked_def globals_init_def
        td_report_def td_outcome_set_def td_outcome_reset_def report_def ref_env_def)
qed

text \<open>Where an event that is neither a hook nor an outside call comes from.\<close>

lemma dispatch_routed_event:
  assumes "e \<in> set (drop (length h) (trace_of (dispatch_tool_call g E name json tm) h))"
    and "\<not> is_call e" "\<not> is_hook e"
  obtains args where "call_fate g E (h @ started_hook g name) name json = Routed args"
    "e \<in> set (drop (length (h @ started_hook g name @ guard_calls E name json))
       (trace_of (route_tool g E args name tm td_outcome_reset) (h @ started_hook g name @ guard_calls E name json)))"
proof -
  let ?h = "h @ started_hook g name" and ?k = "h @ started_hook g name @ guard_calls E name json"
  let ?m = "dispatch_tool_call_ctx_inner g E name json tm td_outcome_reset"
  obtain args where routed: "call_fate g E ?h name json = Routed args"
    using dispatch_event [OF assms] by blast
  obtain r t evs where run: "run_state (route_tool g E args name tm td_outcome_reset) ?k = ((r, t), ?k @ evs)"
    using emits_trace [OF route_tool_emits, of g E args name tm td_outcome_reset ?k]
    by (metis surj_pair trace_of_def snd_conv)
  then have "run_state ?m ?h = ((r, t), ?k @ evs)"
    using routed by (simp add: inner_run)
  then have "e \<in> set (guard_calls E name json) \<or> e \<in> set evs"
    using assms by (auto simp: dispatch_tool_call_def dispatch_tool_call_ctx_def dispatch_wrapper_def
        trace_of_def run_emit_tool_event run_emit_tool_completion started_hook_def Let_def
        split: option.splits)
  then have "e \<in> set evs"
    using guard_calls_calls [of E name json] assms(2) by (auto simp: list_all_iff)
  then have "e \<in> set (drop (length ?k) (trace_of (route_tool g E args name tm td_outcome_reset) ?k))"
    by (simp add: trace_of_def run)
  then show thesis by (rule that [OF routed])
qed

lemma td_bash_spawn:
  assumes "Spawn route c \<in> set (drop (length h) (trace_of (td_bash E args tm) h))"
  shows "sarg E args ''command'' = Some c"
proof (cases "sarg E args ''command''")
  case None
  then show ?thesis using assms by (simp add: td_bash_def say_def trace_of_def)
next
  case (Some d)
  show ?thesis
  proof (cases "ws E = WS_DETACHED \<and> ws_has_shell E")
    case True
    then have "td_bash E args tm = tool_bash E d tm" if "tool_bash E d tm = bash_detached E d"
      using Some that by (simp add: td_bash_def)
    moreover have "tool_bash E d tm = bash_detached E d" using True by (simp add: tool_bash_def)
    ultimately show ?thesis using assms tool_bash_spawn [of route c h E d tm] Some by auto
  next
    case False
    then have "td_bash E args tm = tool_bash E d tm" using Some by (auto simp: td_bash_def)
    then show ?thesis using assms tool_bash_spawn [of route c h E d tm] Some by auto
  qed
qed

lemma route_bash_trace: "trace_of (route_tool g E args ''bash'' tm t) h = trace_of (td_bash E args tm) h"
  by (simp add: route_tool_def native_tool_def trace_of_def split: prod.split)

text \<open>C15. A rewrite of the guardrail is what runs: when the guardrail answers a \<open>bash\<close> call with a
  rewritten command, every child the call starts on this host runs the rewritten command and
  not the one the model sent. What setting a string item does to the lookups is cJSON's documented
  behaviour.\<close>

theorem guardrail_rewrite_runs:
  assumes "\<And>j k s. j_str (cj_get (cj E) j k) \<noteq> None \<Longrightarrow> cj_get (cj E) (cj_set (cj E) j k s) k = Some (JStr s)"
    and "\<And>j k s. k \<in> {''cmd'', ''body''} \<Longrightarrow>
           cj_get (cj E) (cj_set (cj E) j k s) ''command'' = cj_get (cj E) j ''command''"
    and "\<And>h. call_int E h ''pre_tool_check'' (guard_args E ''bash'' json) = 3"
    and "\<And>h. call_str E h ''pre_tool_check.msg'' (guard_args E ''bash'' json) = Some msg"
    and "msg \<noteq> []" "length msg < 1024"
    and "Spawn route c \<in> set (drop (length h) (trace_of (dispatch_tool_call g E ''bash'' json tm) h))"
  shows "c = msg"
proof -
  obtain args where routed: "call_fate g E (h @ started_hook g ''bash'') ''bash'' json = Routed args"
    and spawn: "Spawn route c \<in> set (drop (length (h @ started_hook g ''bash'' @ guard_calls E ''bash'' json))
       (trace_of (td_bash E args tm) (h @ started_hook g ''bash'' @ guard_calls E ''bash'' json)))"
    by (rule dispatch_routed_event [OF assms(7)]) (simp_all add: route_bash_trace)
  have ev: "sarg E args ''command'' = Some c" by (rule td_bash_spawn [OF spawn])
  from routed obtain args0 where v: "guard_verdict E (h @ started_hook g ''bash'') ''bash'' json args0 = Inr args"
    by (auto simp: call_fate_def Let_def split: option.splits sum.splits)
  then have a: "apply_guardrail E 3 msg args0 = Inr args"
    using assms(3,4,6) by (simp add: guard_verdict_def Let_def cbuf_id)
  have "args \<noteq> args0 \<Longrightarrow> sarg E args0 ''command'' = None \<Longrightarrow> sarg E args ''command'' = None"
    using a assms(2,5) by (auto simp: apply_guardrail_def set_string_def split: if_splits)
  then have "sarg E args0 ''command'' \<noteq> None" using ev by fastforce
  moreover from this have "arg E args0 ''command'' \<noteq> None"
    by (cases "arg E args0 ''command''") simp_all
  ultimately have "sarg E args ''command'' = Some msg"
    using a assms(1,5) by (auto simp: apply_guardrail_def set_string_def)
  then show ?thesis using ev by simp
qed

text \<open>An environment whose guardrail rewrites every command.\<close>

definition rewrite_env :: env where
  "rewrite_env = (call_env ls_args [])
     \<lparr>call_int := (\<lambda>h f a. if f = ''pre_tool_check'' then 3 else permits all_permissions h f a),
      call_str := (\<lambda>h f a. if f = ''pre_tool_check.msg'' then Some ''cd /wt && ls'' else None)\<rparr>"

lemma set_ci_get:
  "find_ci k kvs \<noteq> None \<Longrightarrow> find_ci k (set_ci k s kvs) = Some (JStr s)"
  "map to_lower k \<noteq> map to_lower k' \<Longrightarrow> find_ci k' (set_ci k s kvs) = find_ci k' kvs"
  by (induction k kvs rule: find_ci.induct; auto)+

lemma rewritten_call_spawns:
  "Spawn (SandboxPlain None) ''cd /wt && ls''
     \<in> set (trace_of (dispatch_tool_call hooked rewrite_env ''bash'' json 1000) [])"
proof (rule bash_call_event)
  let ?args = "JObj [(''command'', JStr ''cd /wt && ls'')]"
  show "call_fate hooked rewrite_env ([] @ started_hook hooked ''bash'') ''bash'' json = Routed ?args"
    by (simp add: rewrite_env_def call_env_simps set_string_def cbuf_def)
  show "Spawn (SandboxPlain None) ''cd /wt && ls'' \<in> set (trace_of (td_bash rewrite_env ?args 1000) h)" for h
    by (simp add: td_bash_def tool_bash_def bash_local_def bash_start_def try_spawn_def rewrite_env_def
        call_env_def ref_env_def ref_cjson_def to_lower_def trace_of_def sandbox_workspace_dir_def bash_cwd_def
        cbuf_def bash_capture_def kill_and_wait_def stream_init_def Let_def)
qed

theorem guardrail_rewrite_runs_witness:
  "{c. \<exists>route. Spawn route c \<in> set (trace_of (dispatch_tool_call hooked rewrite_env ''bash'' ''x'' 1000) [])}
     = {''cd /wt && ls''}"
proof -
  have get: "cj_get (cj rewrite_env) j k = find_ci k (members j)"
    and rep: "cj_set (cj rewrite_env) j k s = JObj (set_ci k s (members j))" for j k s
    by (simp_all add: rewrite_env_def call_env_def ref_cjson_def)
  have "cj_get (cj rewrite_env) (cj_set (cj rewrite_env) j k s) ''command'' = cj_get (cj rewrite_env) j ''command''"
    if "k \<in> {''cmd'', ''body''}" for j k s
  proof -
    have "map to_lower k \<noteq> map to_lower ''command''" using that by (auto simp: to_lower_def)
    from set_ci_get(2) [OF this] show ?thesis by (simp only: get rep members.simps)
  qed
  moreover have found: "find_ci k (set_ci k s (members j)) = Some (JStr s)"
    if "j_str (find_ci k (members j)) \<noteq> None" for j k s
    using that by (cases "find_ci k (members j)") (auto intro: set_ci_get(1))
  moreover have "call_int rewrite_env h ''pre_tool_check'' a = 3"
    and "call_str rewrite_env h ''pre_tool_check.msg'' a = Some ''cd /wt && ls''" for h a
    by (simp_all add: rewrite_env_def)
  ultimately have "c = ''cd /wt && ls''"
    if "Spawn route c \<in> set (trace_of (dispatch_tool_call hooked rewrite_env ''bash'' ''x'' 1000) [])" for route c
    using guardrail_rewrite_runs [of rewrite_env "''x''" "''cd /wt && ls''" route c "[]" hooked 1000] that
    by (simp add: get rep found)
  then show ?thesis using rewritten_call_spawns [of "''x''"] by blast
qed

section \<open>Where the gates fall short\<close>

text \<open>
  A delegate without the shell permission is refused \<open>bash\<close> and \<open>execute_script\<close> only: the
  same command under \<open>run_tests\<close> or \<open>run_background_process\<close> is routed, and neither the
  stale-context check nor the git gate looks at it.
\<close>

lemma no_shell_still_routed:
  assumes "name = ''run_tests'' \<or> name = ''run_background_process''"
    and "E = call_env ls_args [''agent_tools_tool_allowed_for_role'', ''agent_tools_shell_git_gate'']"
  shows "\<not> shell_allowed E h" "call_fate hooked E h name json = Routed ls_args"
  using assms by (auto simp: call_env_simps)

end
