(* ===== verification/Spec2Isabelle.thy ===== *)
theory Spec2Isabelle
  imports Tool_Wire Go_Handler Tool_Outcome Readonly_Root Child_Path Bash_Policy Shell_Spec Bash_Exec Bash_Tool
    File_Tools Repo_Tools Anchored Dispatch_Args Dispatch_Tools Dispatch
begin

text \<open>
  The \<open>tools\<close> module of aimee: what an agent's tool call does, from its name and its JSON
  arguments to the effects on files and processes and the text the model gets back. This
  development models the C sources under \<open>src/modules/tools/\<close> and the Go handler
  \<open>server-go/modules/tools/tools.go\<close>.

  How the parts interact. A caller hands a name and a JSON text to \<open>dispatch_tool_call\<close>
  (\<open>agent_tools_dispatch.c\<close>). The public wrapper fires the hooks around an inner dispatch; the
  inner dispatch parses the arguments, asks whether the delegation was cancelled, normalises
  the arguments, runs the access checks, asks the guardrail, and routes by name to a handler
  \<open>td_*\<close>. A handler takes its arguments out of the object and calls a tool of
  \<open>agent_tools.c\<close> or \<open>agent_tools_anchored.c\<close>. The shell tool decides where a command may run:
  a remote workspace, a container, a validated chain of commands, the sandbox, or a plain
  shell. A separate process answers, for a name, the class of its effects over a wire of its
  own; its C twin \<open>module_adapter.c\<close> answers the same.

  The theories, in the order they build on each other:

  \<^item> \<^verbatim>\<open>Prelude\<close>: C strings (\<open>strchr\<close>, \<open>strstr\<close>, \<open>snprintf\<close> into a buffer, decimal numbers) and
    byte lists, with the lemmas all components share.
  \<^item> \<^verbatim>\<open>Tool_World\<close>: the world outside the repository. Everything the module calls but does not own
    (cJSON, the workspace provider, the guardrail, the sandbox, databases, the knowledge
    service) is a field of the record \<open>env\<close>, a parameter of every definition that uses it. What
    the module does is a trace of events; a handler is a state monad over the trace, and the
    answer of an outside call may depend on the trace before it. \<open>emits P m\<close> says that a handler
    only adds events that satisfy \<open>P\<close>; its rules follow the ways handlers are composed.
  \<^item> \<^verbatim>\<open>Tool_Wire\<close> (\<open>module_api.h\<close>, \<open>module_adapter.c\<close>) and \<^verbatim>\<open>Go_Handler\<close> (\<open>tools.go\<close>): the wire
    at the width of its words, the classifier, both handlers. A locale \<open>codec\<close> holds what an
    encoder and a decoder promise each other and is interpreted on requests and responses.
  \<^item> \<^verbatim>\<open>Tool_Outcome\<close> (\<open>agent_tools_completion.c\<close> and the head of \<open>agent_tools_dispatch.c\<close>): hook
    storage, the per-call outcome, and \<open>dispatch_tool_call_ctx\<close> over any inner dispatch. The
    locale \<open>inner_dispatch\<close> is the contract the wrapper needs.
  \<^item> \<^verbatim>\<open>Readonly_Root\<close> (\<open>agent_tools_internal.h\<close>), \<^verbatim>\<open>Bash_Policy\<close>, \<^verbatim>\<open>Child_Path\<close>, \<^verbatim>\<open>Bash_Exec\<close>,
    \<^verbatim>\<open>Bash_Tool\<close> (\<open>agent_tools.c\<close>, lines 61 to 1139): which commands are accepted, how an
    accepted chain runs in the child, and \<open>tool_bash\<close> as a whole. A locale \<open>chain_validator\<close>
    holds what the two validators have in common.
  \<^item> \<^verbatim>\<open>Shell_Spec\<close>: the specification of the chain runners, a grammar and a big-step semantics of
    POSIX command lines that know nothing of the code. \<open>Bash_Exec\<close> relates the child's history to
    it by the abstraction \<open>locate\<close> (a place and the processes started, with theirs).
  \<^item> \<^verbatim>\<open>File_Tools\<close>, \<^verbatim>\<open>Repo_Tools\<close> (\<open>agent_tools.c\<close>, lines 689 to 717 and 1141 to 2129, and the two
    edits of \<open>agent_tools_dispatch.c\<close>), \<^verbatim>\<open>Anchored\<close> (\<open>agent_tools_anchored.c\<close>): the other tools.
  \<^item> \<^verbatim>\<open>Dispatch_Args\<close>, \<^verbatim>\<open>Dispatch_Tools\<close>, \<^verbatim>\<open>Dispatch\<close> (\<open>agent_tools_dispatch.c\<close>): the steps before
    routing, the handlers, and the dispatch, which interprets \<open>inner_dispatch\<close>.
  \<^item> \<^verbatim>\<open>Reference_Env\<close>: a concrete environment, used only to show that hypotheses can hold.

  What the lemmas show. The properties carry the ids C1 to C40, the most important first. The
  dispatcher: no command runs and no file is written before every gate has agreed; the name
  of the tool bounds what the call can do, and so does the class the module answers for it;
  a refused call does nothing; every call is reported once. The shell: which gates each child
  passed, under a parent guard and for a delegation; that the validators are their
  specifications; that a chain runs what the shell semantics says, and on which
  lines; that the capture
  of output loses nothing but the excess and no child is left behind. The file tools: guarded
  writes, edits that replace exactly what they say, windows and truncations that keep whole
  lines, buffers that suffice. The wire: round trips, bounds on arbitrary bytes, a handler
  that fails closed, parity of the two implementations. Each theory ends with lemmas on
  places where the code does less than it says; they are stated as what the code does.

  Choices. A pointer that may be NULL is an option; a string is a list of characters, and
  where a buffer may hold a NUL the model cuts at it (\<open>c_view\<close>) as the C functions do. Words
  have their width on the wire and where a size the code computes could wrap (the buffer of the
  string edit, the room of the notes loop, \<open>atoi\<close>); other sizes and positions, which are lengths
  of strings in memory, are naturals; integers of the arguments are
  integers saturated where cJSON and \<open>strtol\<close> saturate; a number that arrives as text keeps its
  exact value where the library would round to a double, which happens beyond 53 bits only.
  Loops are structural or have a measure; none needs fuel. The capture loop of the shell runs
  over a list with one record per iteration, as the outside decides it; the end of the list is
  the deadline, so every call ends. A \<open>read\<close> on a pipe that \<open>select\<close> reports as ready returns
  data or the end. Allocation can fail where the code checks for it and the failure is visible;
  inside cJSON, the building of a reply succeeds. A write behind a buffer is \<open>None\<close> in the
  definitions where the code relies on slack (\<open>print_loop\<close>, \<open>slop_notice\<close>), and the properties
  say when there is none. A call that only reads (a query to the knowledge service, a HEAD request)
  is an answer and leaves no event; commands, writes, snapshots and calls that change
  something outside are events.

  Not modelled: the bus client and its runtime, the tests, the build; the services behind
  \<open>env\<close>. Logging has no effect here. \<open>agent_tool_output_cap_clamp\<close>, the permission tables, the
  guardrail and path validation live outside this repository and are parameters.
\<close>

section \<open>The class of a tool and what a call of it does\<close>

lemma native_classes:
  "classify ''bash'' = EXEC" "classify ''run_tests'' = EXEC" "classify ''execute_script'' = EXEC"
  "classify ''write_file'' = WRITE" "classify ''edit_file'' = WRITE" "classify ''edit_symbol'' = WRITE"
  "classify ''grep'' = READ" "classify ''git_log'' = READ" "classify ''git_diff'' = READ"
  "classify ''git_status'' = READ" "classify ''verify'' = UNKNOWN"
  "classify ''run_background_process'' = UNKNOWN"
  by (simp_all add: classify_def one_of_def class_names)

text \<open>C7. The class the module answers for a name bounds what a dispatched call of that name
  does: a call that writes a file is of class WRITE, a call that starts a shell, a script or a
  command through the shell of the provider is of class EXEC, and a READ call starts no
  command but the four listed: \<open>git diff\<close> with one string of the caller at most,
  \<open>git status --porcelain\<close>, \<open>git log --oneline -n\<close> with a number from 1 to 50, and \<open>grep\<close> with
  its fixed options, the caller's pattern and path behind \<open>--\<close>. The class speaks of what the
  module does, not of what git does in turn: the string of \<open>git diff\<close> may be an option
  (\<open>git_diff_option_passes\<close>). Two names fall outside the table: a background process and the
  commands of \<open>verify\<close> run under the class UNKNOWN.\<close>

theorem class_covers_effects:
  assumes "e \<in> set (drop (length h) (trace_of (dispatch_tool_call g E name json tm) h))"
  shows "case e of
      WriteAll q body \<Rightarrow> classify name = WRITE
    | Spawn route c \<Rightarrow> classify name = EXEC
    | ExecShell c \<Rightarrow> classify name = EXEC
    | ExecShellTimeout c n \<Rightarrow> classify name = EXEC
    | RunScript l c n \<Rightarrow> classify name = EXEC
    | ExecArgv a \<Rightarrow> classify name = READ
        \<and> ((\<exists>q ref. a = [''git'', ''-C'', q, ''diff''] @ ref \<and> length ref \<le> 1)
           \<or> (\<exists>q. a = [''git'', ''-C'', q, ''status'', ''--porcelain'']))
    | HostExec a \<Rightarrow>
        classify name = READ
          \<and> ((\<exists>q k. a = [''git'', ''-C'', q, ''log'', ''--oneline'', ''-n'', show_int k] \<and> 1 \<le> k \<and> k \<le> 50)
             \<or> (\<exists>k pt q. a = [''grep'', ''--binary-files=without-match'', ''-rn'', ''--exclude-dir=.git'',
                  ''--exclude-dir=.aimee'', ''--exclude-dir=build'', ''--exclude-dir=dist'',
                  ''--exclude-dir=node_modules'', ''-m'', show_int k, ''--'', pt, q]))
        \<or> classify name = UNKNOWN \<and> name = ''verify''
    | ProcStart c d \<Rightarrow> classify name = UNKNOWN \<and> name = ''run_background_process''
    | _ \<Rightarrow> True"
proof (cases "is_call e \<or> is_hook e")
  case True
  then show ?thesis by (cases e) simp_all
next
  case False
  with dispatch_event [OF assms] have "tool_may E name e" by blast
  show ?thesis
  proof (cases "\<exists>a. e = HostExec a")
    case True
    then obtain a where a: "e = HostExec a" by blast
    with \<open>tool_may E name e\<close> have "tool_may E name (HostExec a)" by simp
    from tool_may_names(8) [OF this] consider
        "name = ''verify''" | "name = ''git_log''" "log_event (HostExec a)"
      | k pt q where "name = ''grep''" "a = grep_argv k pt q"
      using family_names by blast
    then show ?thesis
      by cases (auto simp: a native_classes grep_argv_def)
  next
    case False
    with \<open>tool_may E name e\<close> show ?thesis
      by (cases e) (auto dest: tool_may_names dest!: family_names simp: native_classes)
  qed
qed

theorem class_covers_effects_witness:
  "Spawn (SandboxPlain None) ''ls''
      \<in> set (trace_of (dispatch_tool_call hooked (call_env ls_args all_permissions) ''bash'' ''x'' 1000) [])
   \<and> classify ''bash'' = EXEC"
  using ls_call_spawns [of "''x''"] class_covers_effects
    [where e = "Spawn (SandboxPlain None) ''ls''" and h = "[]" and g = hooked
      and E = "call_env ls_args all_permissions" and name = "''bash''" and json = "''x''" and tm = 1000]
  by simp

end
